(* ===== verification/Prelude.thy ===== *)
theory Prelude
  imports Main "HOL-Library.Word"
begin

text \<open>
  The vocabulary shared by every component: results of fallible Rust code as
  sums, the question-mark operator with and without a mutable receiver, 64-bit
  signed integers with saturating arithmetic, floating-point arguments, clock
  readings, write-once cells, grouped association lists, and the locale that
  lifts an inductive invariant to every reachable state of a step relation.
\<close>

named_theorems i64_arith \<open>signed reading of saturating 64-bit operations\<close>
named_theorems res_simps \<open>evaluation of fallible code\<close>

section \<open>Results\<close>

text \<open>
  A Rust \<open>Result<A, E>\<close> is \<open>'e + 'a\<close>: \<open>Inl\<close> carries the error. A method with
  a mutable receiver returns its result together with the receiver, because an
  early return keeps every field written before it.
\<close>

definition bind_res :: "'e + 'a \<Rightarrow> ('a \<Rightarrow> 'e + 'b) \<Rightarrow> 'e + 'b" where
  "bind_res r f = (case r of Inl e \<Rightarrow> Inl e | Inr x \<Rightarrow> f x)"

definition bind_st :: "('e + 'a) \<times> 's \<Rightarrow> ('a \<Rightarrow> 's \<Rightarrow> ('e + 'b) \<times> 's) \<Rightarrow> ('e + 'b) \<times> 's" where
  "bind_st r f = (case r of (Inl e, s) \<Rightarrow> (Inl e, s) | (Inr x, s) \<Rightarrow> f x s)"

definition ok_or :: "'a option \<Rightarrow> 'e \<Rightarrow> 'e + 'a" where
  "ok_or v e = (case v of None \<Rightarrow> Inl e | Some x \<Rightarrow> Inr x)"

definition map_err :: "('e \<Rightarrow> 'f) \<Rightarrow> 'e + 'a \<Rightarrow> 'f + 'a" where
  "map_err g r = (case r of Inl e \<Rightarrow> Inl (g e) | Inr x \<Rightarrow> Inr x)"

definition unwrap_or :: "'a \<Rightarrow> 'a option \<Rightarrow> 'a" where
  "unwrap_or d v = (case v of None \<Rightarrow> d | Some x \<Rightarrow> x)"

section \<open>64-bit signed integers\<close>

type_synonym i64 = "64 word"
type_synonym u64 = "64 word"

abbreviation i64_max_int :: int where "i64_max_int \<equiv> 9223372036854775807"
abbreviation i64_min_int :: int where "i64_min_int \<equiv> -9223372036854775808"

definition i64_max :: i64 where "i64_max = 9223372036854775807"
definition i64_min :: i64 where "i64_min = 9223372036854775808"

definition sat_i64 :: "int \<Rightarrow> i64" where
  "sat_i64 x = (if x > i64_max_int then i64_max else if x < i64_min_int then i64_min
     else word_of_int x)"

definition saturating_add :: "i64 \<Rightarrow> i64 \<Rightarrow> i64" where
  "saturating_add a b = sat_i64 (sint a + sint b)"

definition saturating_sub :: "i64 \<Rightarrow> i64 \<Rightarrow> i64" where
  "saturating_sub a b = sat_i64 (sint a - sint b)"

definition saturating_abs :: "i64 \<Rightarrow> i64" where
  "saturating_abs a = sat_i64 \<bar>sint a\<bar>"

definition i64_max_of :: "i64 \<Rightarrow> i64 \<Rightarrow> i64" where
  "i64_max_of a b = (if sint a > sint b then a else b)"

definition i64_clamp :: "i64 \<Rightarrow> i64 \<Rightarrow> i64 \<Rightarrow> i64" where
  "i64_clamp x lo hi = (if sint x < sint lo then lo else if sint x > sint hi then hi else x)"

definition i64_try_from :: "nat \<Rightarrow> i64 option" where
  "i64_try_from n = (if int n \<le> i64_max_int then Some (of_nat n) else None)"

section \<open>Floating-point arguments\<close>

text \<open>
  A finite double is \<open>m * 2 ^ e\<close>. The cast \<open>d as i64\<close> truncates towards zero,
  saturates, and maps NaN to zero.
\<close>

datatype f64 = NaN | Infinite bool | Finite int int

definition f64_trunc :: "int \<Rightarrow> int \<Rightarrow> int" where
  "f64_trunc m e = (if 0 \<le> e then m * 2 ^ nat e else sgn m * (\<bar>m\<bar> div 2 ^ nat (- e)))"

fun f64_as_i64 :: "f64 \<Rightarrow> i64" where
  "f64_as_i64 NaN = 0"
| "f64_as_i64 (Infinite neg) = (if neg then i64_min else i64_max)"
| "f64_as_i64 (Finite m e) = sat_i64 (f64_trunc m e)"

section \<open>Clock readings\<close>

text \<open>
  One call of \<open>SystemTime::now().duration_since(UNIX_EPOCH)\<close>: an error text when
  the wall clock is before the epoch, otherwise the whole microseconds since it.
\<close>

datatype clock_reading = BeforeEpoch string | SinceEpoch nat

section \<open>Write-once cells\<close>

definition once_set :: "'a \<Rightarrow> 'a option \<Rightarrow> 'a option" where
  "once_set x c = (case c of None \<Rightarrow> Some x | Some y \<Rightarrow> Some y)"

section \<open>Grouped association lists\<close>

text \<open>Find the slot of a key and push onto it, or open a new slot at the end.\<close>

fun push_group :: "'k \<Rightarrow> 'v \<Rightarrow> ('k \<times> 'v list) list \<Rightarrow> ('k \<times> 'v list) list" where
  "push_group k v [] = [(k, [v])]"
| "push_group k v ((k', vs) # es) =
     (if k' = k then (k', vs @ [v]) # es else (k', vs) # push_group k v es)"

definition group_of :: "'k \<Rightarrow> ('k \<times> 'v list) list \<Rightarrow> 'v list" where
  "group_of k es = (case map_of es k of None \<Rightarrow> [] | Some vs \<Rightarrow> vs)"

section \<open>Lemmas on results\<close>

lemma bind_res_simps [simp, res_simps]:
  "bind_res (Inl e) f = Inl e"
  "bind_res (Inr x) f = f x"
  by (simp_all add: bind_res_def)

lemma bind_st_simps [simp, res_simps]:
  "bind_st (Inl e, s) f = (Inl e, s)"
  "bind_st (Inr x, s) f = f x s"
  by (simp_all add: bind_st_def)

lemma ok_or_simps [simp, res_simps]:
  "ok_or None e = Inl e"
  "ok_or (Some x) e = Inr x"
  by (simp_all add: ok_or_def)

lemma map_err_simps [simp, res_simps]:
  "map_err g (Inl e) = Inl (g e)"
  "map_err g (Inr x) = Inr x"
  by (simp_all add: map_err_def)

lemma unwrap_or_simps [simp, res_simps]:
  "unwrap_or d None = d"
  "unwrap_or d (Some x) = x"
  by (simp_all add: unwrap_or_def)

lemma bind_res_eq_Inr:
  "bind_res r f = Inr y \<longleftrightarrow> (\<exists>x. r = Inr x \<and> f x = Inr y)"
  by (cases r) auto

lemma ok_or_eq_Inr: "ok_or v e = Inr x \<longleftrightarrow> v = Some x"
  by (cases v) auto

section \<open>Lemmas on 64-bit integers\<close>

lemma i64_bounds:
  fixes a :: i64
  shows "i64_min_int \<le> sint a" and "sint a \<le> i64_max_int"
  using sint_range_size [of a] by (simp_all add: word_size)

lemma sint_i64_max [simp, i64_arith]: "sint i64_max = i64_max_int"
  by (simp add: i64_max_def)

lemma sint_i64_min [simp, i64_arith]: "sint i64_min = i64_min_int"
  by (simp add: i64_min_def)

lemma sint_word_of_int_i64:
  "i64_min_int \<le> x \<Longrightarrow> x \<le> i64_max_int \<Longrightarrow> sint (word_of_int x :: i64) = x"
  by (simp add: sint_sbintrunc' signed_take_bit_int_eq_self)

lemma sint_sat_i64 [i64_arith]: "sint (sat_i64 x) = max i64_min_int (min i64_max_int x)"
  by (auto simp: sat_i64_def sint_word_of_int_i64)

lemma sint_saturating_add [i64_arith]:
  "sint (saturating_add a b) = max i64_min_int (min i64_max_int (sint a + sint b))"
  by (simp add: saturating_add_def sint_sat_i64)

lemma sint_saturating_sub [i64_arith]:
  "sint (saturating_sub a b) = max i64_min_int (min i64_max_int (sint a - sint b))"
  by (simp add: saturating_sub_def sint_sat_i64)

lemma sint_saturating_abs [i64_arith]:
  "sint (saturating_abs a) = min i64_max_int \<bar>sint a\<bar>"
  by (simp add: saturating_abs_def sint_sat_i64)

lemma sint_i64_max_of [i64_arith]: "sint (i64_max_of a b) = max (sint a) (sint b)"
  by (simp add: i64_max_of_def)

lemma i64_eq_iff: "(a :: i64) = b \<longleftrightarrow> sint a = sint b"
  by (auto intro: signed_word_eqI)

lemma i64_eq_max_iff: "(a :: i64) = i64_max \<longleftrightarrow> sint a = i64_max_int"
  by (simp add: i64_eq_iff)

lemma i64_eq_min_iff: "(a :: i64) = i64_min \<longleftrightarrow> sint a = i64_min_int"
  by (simp add: i64_eq_iff)

lemma sat_i64_id: "i64_min_int \<le> x \<Longrightarrow> x \<le> i64_max_int \<Longrightarrow> sint (sat_i64 x) = x"
  by (simp add: sint_sat_i64)

lemma sint_of_nat_i64: "int n \<le> i64_max_int \<Longrightarrow> sint (of_nat n :: i64) = int n"
  using sint_word_of_int_i64 [of "int n"] by simp

lemma unat_eq_nat_sint:
  assumes nonneg: "0 \<le> sint (a :: i64)"
  shows "unat a = nat (sint a)"
proof -
  have small: "int (nat (sint a)) \<le> i64_max_int"
    using nonneg i64_bounds(2) [of a] by simp
  then have "a = of_nat (nat (sint a))"
    using nonneg by (simp add: i64_eq_iff sint_of_nat_i64)
  then have "unat a = nat (sint a) mod 2 ^ 64"
    using unat_of_nat [of "nat (sint a)", where 'a = 64] by simp
  moreover have "nat (sint a) < 2 ^ 64"
    using i64_bounds(2) [of a] by (simp add: nat_less_iff nonneg)
  ultimately show ?thesis by simp
qed

section \<open>Invariants of step relations\<close>

text \<open>
  A component whose operations are interleaved in any order is a step relation.
  An invariant that holds initially and is kept by one step holds in every state
  that any finite sequence of steps reaches.
\<close>

locale invariant_machine =
  fixes init :: "'s \<Rightarrow> bool"
    and step :: "'s \<Rightarrow> 's \<Rightarrow> bool"
    and inv :: "'s \<Rightarrow> bool"
  assumes init_inv: "init s \<Longrightarrow> inv s"
    and step_inv: "inv s \<Longrightarrow> step s t \<Longrightarrow> inv t"
begin

lemma steps_inv: "step\<^sup>*\<^sup>* s t \<Longrightarrow> inv s \<Longrightarrow> inv t"
  by (induction rule: rtranclp_induct) (auto intro: step_inv)

lemma reachable_inv: "init s \<Longrightarrow> step\<^sup>*\<^sup>* s t \<Longrightarrow> inv t"
  by (blast intro: steps_inv init_inv)

end

text \<open>A quantity that no single step loses is never lost by a run.\<close>

locale monotone_machine =
  fixes step :: "'s \<Rightarrow> 's \<Rightarrow> bool"
    and le :: "'s \<Rightarrow> 's \<Rightarrow> bool"
  assumes le_refl: "le s s"
    and le_trans: "le s t \<Longrightarrow> le t u \<Longrightarrow> le s u"
    and step_le: "step s t \<Longrightarrow> le s t"
begin

lemma steps_le: "step\<^sup>*\<^sup>* s t \<Longrightarrow> le s t"
  by (induction rule: rtranclp_induct) (auto intro: le_refl le_trans step_le)

end

section \<open>Write-once cells as an interface\<close>

locale once_cell =
  fixes get :: "'c \<Rightarrow> 'a option"
    and set :: "'a \<Rightarrow> 'c \<Rightarrow> 'c"
  assumes get_set: "get (set x c) = Some (case get c of None \<Rightarrow> x | Some y \<Rightarrow> y)"
begin

lemma set_keeps: "get c = Some y \<Longrightarrow> get (set x c) = Some y"
  by (simp add: get_set)

lemma fold_set_keeps: "get c = Some y \<Longrightarrow> get (fold set xs c) = Some y"
  by (induction xs arbitrary: c) (simp_all add: set_keeps)

lemma first_set_wins: "get c = None \<Longrightarrow> get (fold set (x # xs) c) = Some x"
  by (simp add: get_set fold_set_keeps)

end

interpretation once: once_cell "\<lambda>c. c" once_set
  by unfold_locales (simp add: once_set_def split: option.split)

section \<open>Grouping as an interface\<close>

text \<open>
  A multimap that remembers the order in which its keys first appeared.
\<close>

locale ordered_multimap =
  fixes keys :: "'m \<Rightarrow> 'k list"
    and vals :: "'k \<Rightarrow> 'm \<Rightarrow> 'v list"
    and push :: "'k \<Rightarrow> 'v \<Rightarrow> 'm \<Rightarrow> 'm"
  assumes keys_push:
      "keys (push k v m) = (if k \<in> set (keys m) then keys m else keys m @ [k])"
    and vals_push: "vals k (push k' v m) = (if k = k' then vals k m @ [v] else vals k m)"
begin

lemma distinct_push: "distinct (keys m) \<Longrightarrow> distinct (keys (push k v m))"
  by (simp add: keys_push)

lemma vals_fold:
  "vals k (fold (\<lambda>(k, v). push k v) kvs m) = vals k m @ map snd (filter (\<lambda>kv. fst kv = k) kvs)"
  by (induction kvs arbitrary: m) (auto simp: vals_push)

lemma set_keys_fold:
  "set (keys (fold (\<lambda>(k, v). push k v) kvs m)) = set (keys m) \<union> fst ` set kvs"
  by (induction kvs arbitrary: m) (auto simp: keys_push split: if_splits)

lemma keys_fold:
  "keys m = [] \<Longrightarrow>
     keys (fold (\<lambda>(k, v). push k v) kvs m) = rev (remdups (rev (map fst kvs)))"
  by (induction kvs rule: rev_induct) (auto simp: keys_push rev_image_eqI)

lemma distinct_fold:
  "distinct (keys m) \<Longrightarrow> distinct (keys (fold (\<lambda>(k, v). push k v) kvs m))"
  by (induction kvs arbitrary: m) (auto simp: distinct_push)

end

lemma keys_push_group:
  "map fst (push_group k v es) =
     (if k \<in> set (map fst es) then map fst es else map fst es @ [k])"
  by (induction k v es rule: push_group.induct) auto

lemma group_of_push_group:
  "group_of k (push_group k' v es) = (if k = k' then group_of k es @ [v] else group_of k es)"
  by (induction k' v es rule: push_group.induct) (auto simp: group_of_def)

interpretation grp: ordered_multimap "map fst" group_of push_group
  by unfold_locales (rule keys_push_group, rule group_of_push_group)

end
