(* ===== verification/Rust_Text.thy ===== *)
theory Rust_Text
  imports Prelude
begin

text \<open>
  The parts of Rust's string library the extension uses. Strings and byte
  buffers are byte sequences (\<open>char list\<close>): decimal printing and parsing of
  integers, UTF-8 validation and lossy decoding, joining and substring search.
\<close>

type_synonym bytes = string

section \<open>Decimal numbers\<close>

definition digit_char :: "nat \<Rightarrow> char" where
  "digit_char d = ''0123456789'' ! d"

fun nat_dec :: "nat \<Rightarrow> string" where
  "nat_dec n = (if n < 10 then [digit_char n] else nat_dec (n div 10) @ [digit_char (n mod 10)])"

declare nat_dec.simps [simp del]

definition int_dec :: "int \<Rightarrow> string" where
  "int_dec i = (if i < 0 then ''-'' @ nat_dec (nat (- i)) else nat_dec (nat i))"

definition digit_val :: "char \<Rightarrow> nat option" where
  "digit_val c = (let b = of_char c in if 48 \<le> b \<and> b \<le> (57 :: nat) then Some (b - 48) else None)"

fun dec_digits :: "string \<Rightarrow> nat \<Rightarrow> nat option" where
  "dec_digits [] acc = Some acc"
| "dec_digits (c # cs) acc =
     (case digit_val c of None \<Rightarrow> None | Some d \<Rightarrow> dec_digits cs (acc * 10 + d))"

definition i64_of_int :: "int \<Rightarrow> i64 option" where
  "i64_of_int x = (if i64_min_int \<le> x \<and> x \<le> i64_max_int then Some (word_of_int x) else None)"

text \<open>\<open>str::parse::<i64>\<close>: an optional sign, at least one digit, no overflow.\<close>

definition parse_i64 :: "string \<Rightarrow> i64 option" where
  "parse_i64 s =
     (case s of [] \<Rightarrow> None
      | c # cs \<Rightarrow>
          (if c = CHR ''-'' then
             (if cs = [] then None
              else case dec_digits cs 0 of None \<Rightarrow> None | Some n \<Rightarrow> i64_of_int (- int n))
           else if c = CHR ''+'' then
             (if cs = [] then None
              else case dec_digits cs 0 of None \<Rightarrow> None | Some n \<Rightarrow> i64_of_int (int n))
           else case dec_digits s 0 of None \<Rightarrow> None | Some n \<Rightarrow> i64_of_int (int n)))"

section \<open>UTF-8\<close>

definition byte_at :: "bytes \<Rightarrow> nat \<Rightarrow> nat" where
  "byte_at bs i = (if i < length bs then of_char (bs ! i) else 0)"

definition is_cont :: "nat \<Rightarrow> bool" where
  "is_cont b \<longleftrightarrow> 128 \<le> b \<and> b \<le> 191"

definition second_ok :: "nat \<Rightarrow> nat \<Rightarrow> bool" where
  "second_ok b0 b1 =
     (if b0 = 224 then 160 \<le> b1 \<and> b1 \<le> 191
      else if b0 = 237 then 128 \<le> b1 \<and> b1 \<le> 159
      else if b0 = 240 then 144 \<le> b1 \<and> b1 \<le> 191
      else if b0 = 244 then 128 \<le> b1 \<and> b1 \<le> 143
      else is_cont b1)"

definition utf8_width :: "nat \<Rightarrow> nat" where
  "utf8_width b = (if b < 128 then 1 else if 194 \<le> b \<and> b \<le> 223 then 2
     else if 224 \<le> b \<and> b \<le> 239 then 3 else if 240 \<le> b \<and> b \<le> 244 then 4 else 0)"

text \<open>
  One sequence that starts with \<open>b0\<close>: how many following bytes it takes, and
  whether they complete a character.
\<close>

definition utf8_step :: "char \<Rightarrow> bytes \<Rightarrow> nat \<times> bool" where
  "utf8_step c bs =
     (let b0 = of_char c; w = utf8_width b0 in
      if w = 1 then (0, True)
      else if w = 2 then (if is_cont (byte_at bs 0) then (1, True) else (0, False))
      else if w = 3 then
        (if \<not> second_ok b0 (byte_at bs 0) then (0, False)
         else if \<not> is_cont (byte_at bs 1) then (1, False) else (2, True))
      else if w = 4 then
        (if \<not> second_ok b0 (byte_at bs 0) then (0, False)
         else if \<not> is_cont (byte_at bs 1) then (1, False)
         else if \<not> is_cont (byte_at bs 2) then (2, False) else (3, True))
      else (0, False))"

text \<open>U+FFFD in UTF-8.\<close>

definition replacement :: bytes where
  "replacement = [CHR 0xEF, CHR 0xBF, CHR 0xBD]"

fun utf8_valid :: "bytes \<Rightarrow> bool" where
  "utf8_valid [] = True"
| "utf8_valid (c # bs) = (snd (utf8_step c bs) \<and> utf8_valid (drop (fst (utf8_step c bs)) bs))"

fun utf8_lossy :: "bytes \<Rightarrow> bytes" where
  "utf8_lossy [] = []"
| "utf8_lossy (c # bs) =
     (if snd (utf8_step c bs) then c # take (fst (utf8_step c bs)) bs else replacement)
       @ utf8_lossy (drop (fst (utf8_step c bs)) bs)"

section \<open>Joining and searching\<close>

fun join :: "string \<Rightarrow> string list \<Rightarrow> string" where
  "join sep [] = []"
| "join sep [x] = x"
| "join sep (x # y # xs) = x @ sep @ join sep (y # xs)"

fun starts_with :: "string \<Rightarrow> string \<Rightarrow> bool" where
  "starts_with [] s = True"
| "starts_with (p # ps) [] = False"
| "starts_with (p # ps) (c # cs) = (p = c \<and> starts_with ps cs)"

fun contains :: "string \<Rightarrow> string \<Rightarrow> bool" where
  "contains p [] = (p = [])"
| "contains p (c # cs) = (starts_with p (c # cs) \<or> contains p cs)"

section \<open>Decimal round trip\<close>

lemma digit_val_digit_char: "d < 10 \<Longrightarrow> digit_val (digit_char d) = Some d"
proof -
  assume "d < 10"
  then have "d \<in> {0,1,2,3,4,5,6,7,8,9}" by auto
  then show ?thesis by (auto simp: digit_val_def digit_char_def)
qed

lemma dec_digits_snoc:
  "dec_digits (cs @ [c]) acc =
     (case dec_digits cs acc of None \<Rightarrow> None | Some n \<Rightarrow> map_option (\<lambda>d. n * 10 + d) (digit_val c))"
  by (induction cs acc rule: dec_digits.induct) (auto split: option.split)

lemma dec_digits_nat_dec: "dec_digits (nat_dec n) 0 = Some n"
proof (induction n rule: nat_dec.induct)
  case (1 n)
  show ?case
  proof (cases "n < 10")
    case True
    then show ?thesis by (simp add: nat_dec.simps [of n] digit_val_digit_char)
  next
    case False
    with 1 show ?thesis
      by (simp add: nat_dec.simps [of n] dec_digits_snoc digit_val_digit_char)
  qed
qed

lemma nat_dec_digits: "c \<in> set (nat_dec n) \<Longrightarrow> digit_val c \<noteq> None"
proof (induction n rule: nat_dec.induct)
  case (1 n)
  then show ?case
    by (cases "n < 10") (auto simp: nat_dec.simps [of n] digit_val_digit_char)
qed

lemma nat_dec_nonempty: "nat_dec n \<noteq> []"
  by (simp add: nat_dec.simps)

lemma nat_dec_inject: "nat_dec m = nat_dec n \<longleftrightarrow> m = n"
  by (metis dec_digits_nat_dec option.inject)

lemma nat_dec_hd:
  assumes "nat_dec n = c # cs"
  shows "c \<noteq> CHR ''-''" and "c \<noteq> CHR ''+''"
proof -
  have "digit_val c \<noteq> None" using nat_dec_digits [of c n] assms by simp
  then show "c \<noteq> CHR ''-''" and "c \<noteq> CHR ''+''" by (auto simp: digit_val_def)
qed

lemma i64_of_int_sint: "i64_of_int (sint a) = Some a"
  using i64_bounds [of a] by (simp add: i64_of_int_def)

lemma parse_i64_int_dec: "parse_i64 (int_dec (sint a)) = Some a"
proof (cases "sint a < 0")
  case True
  then have "int_dec (sint a) = CHR ''-'' # nat_dec (nat (- sint a))"
    by (simp add: int_dec_def)
  with True show ?thesis
    by (simp add: parse_i64_def nat_dec_nonempty dec_digits_nat_dec i64_of_int_sint)
next
  case False
  then obtain c cs where eq: "int_dec (sint a) = c # cs" "nat_dec (nat (sint a)) = c # cs"
    by (cases "nat_dec (nat (sint a))") (auto simp: int_dec_def nat_dec_nonempty)
  have "dec_digits (c # cs) 0 = Some (nat (sint a))"
    using dec_digits_nat_dec [of "nat (sint a)"] eq(2) by simp
  with False nat_dec_hd [OF eq(2)] show ?thesis
    by (simp add: parse_i64_def eq(1) i64_of_int_sint del: dec_digits.simps)
qed

section \<open>Lossy decoding\<close>

lemma byte_at_take: "i < n \<Longrightarrow> n \<le> length bs \<Longrightarrow> byte_at (take n bs @ rest) i = byte_at bs i"
  by (simp add: byte_at_def nth_append)

lemma is_cont_in_range: "is_cont (byte_at bs i) \<Longrightarrow> i < length bs"
  by (auto simp: is_cont_def byte_at_def split: if_splits)

lemma second_ok_in_range: "second_ok b (byte_at bs i) \<Longrightarrow> i < length bs"
  by (rule ccontr) (simp add: second_ok_def is_cont_def byte_at_def split: if_splits)

lemma utf8_step_True:
  assumes "utf8_step c bs = (n, True)"
  shows "n \<le> length bs"
  using assms is_cont_in_range [of bs 0] is_cont_in_range [of bs 1] is_cont_in_range [of bs 2]
  unfolding utf8_step_def Let_def by (auto simp: Suc_le_eq split: if_splits)

lemma utf8_step_append:
  assumes "utf8_step c bs = (n, True)"
  shows "utf8_step c (take n bs @ rest) = (n, True)"
proof -
  have "i < n \<Longrightarrow> byte_at (take n bs @ rest) i = byte_at bs i" for i
    using utf8_step_True [OF assms] by (rule byte_at_take [rotated])
  with assms show ?thesis
    unfolding utf8_step_def Let_def by (simp split: if_splits)
qed

lemma utf8_valid_replacement: "utf8_valid (replacement @ ys) = utf8_valid ys"
  by (simp add: replacement_def utf8_step_def utf8_width_def second_ok_def is_cont_def
      byte_at_def Let_def)

lemma utf8_lossy_id: "utf8_valid bs \<Longrightarrow> utf8_lossy bs = bs"
  by (induction bs rule: utf8_valid.induct) auto

lemma utf8_valid_lossy: "utf8_valid (utf8_lossy bs)"
proof (induction bs rule: utf8_lossy.induct)
  case 1
  show ?case by simp
next
  case (2 c bs)
  obtain n ok where step: "utf8_step c bs = (n, ok)" by fastforce
  show ?case
  proof (cases ok)
    case True
    with step have "utf8_step c (take n bs @ utf8_lossy (drop n bs)) = (n, True)"
      by (simp add: utf8_step_append)
    moreover have "n \<le> length bs" using step True by (simp add: utf8_step_True)
    ultimately show ?thesis using 2 step True by simp
  next
    case False
    with 2 step show ?thesis by (simp add: utf8_valid_replacement)
  qed
qed

section \<open>Delimited text\<close>

lemma delimited_inject:
  "c \<notin> set xs \<Longrightarrow> c \<notin> set ys \<Longrightarrow> xs @ c # us = ys @ c # vs \<longleftrightarrow> xs = ys \<and> us = vs"
proof (induction xs arbitrary: ys)
  case Nil
  then show ?case by (cases ys) auto
next
  case (Cons x xs)
  then show ?case by (cases ys) auto
qed

lemma join_eq_Nil: "\<forall>p\<in>set ps. p \<noteq> [] \<Longrightarrow> join sep ps = [] \<longleftrightarrow> ps = []"
  by (induction sep ps rule: join.induct) auto

lemma join_inject:
  assumes "\<forall>p\<in>set ps \<union> set qs. c \<notin> set p \<and> p \<noteq> []"
  shows "join [c] ps = join [c] qs \<longleftrightarrow> ps = qs"
  using assms
proof (induction "[c]" ps arbitrary: qs rule: join.induct)
  case 1
  then show ?case using join_eq_Nil [of qs "[c]"] by auto
next
  case (2 x)
  then show ?case
    by (cases "([c], qs)" rule: join.cases) auto
next
  case (3 x y xs)
  show ?case
  proof (cases "([c], qs)" rule: join.cases)
    case (3 sep z z' zs)
    then have qs: "qs = z # z' # zs" by simp
    have "join [c] (y # xs) = join [c] (z' # zs) \<longleftrightarrow> y # xs = z' # zs"
      using "3.prems" qs by (intro "3.hyps") auto
    moreover have "c \<notin> set x" "c \<notin> set z" using "3.prems" qs by auto
    ultimately show ?thesis by (auto simp: qs delimited_inject)
  qed (use 3 in auto)
qed

end
