(* ===== verification/Php_Values.thy ===== *)
theory Php_Values
  imports Rust_Text
begin

text \<open>
  The boundary to the PHP engine. Values of PHP (\<open>Zval\<close>) belong to the engine
  and to ext-php-rs: they are a type parameter \<open>'z\<close>, and the accessors the
  extension calls on them are the fields of a record that every definition
  using them takes as an argument. An array is what iterating it yields, in
  order. What the extension hands back to PHP is a value of \<open>php_val\<close>: an
  array or an object is the sequence of insertions or property writes made.
\<close>

section \<open>What PHP hands to the extension\<close>

datatype array_key =
    Key_Long i64
  | Key_String string
  | Key_Str string
  | Key_ZendString bytes

type_synonym 'z hash_table = "(array_key \<times> 'z) list"

text \<open>
  Outcome of calling a PHP callable: its return value, a thrown object (its class
  name where the engine knows it, and what its \<open>getMessage\<close> returned where that
  call succeeded), or another engine error with its text.
\<close>

datatype 'z call_outcome = Returned 'z | Threw "string option" "'z option" | Call_Error string

record 'z php =
  zv_long :: "'z \<Rightarrow> i64 option"
  zv_double :: "'z \<Rightarrow> f64 option"
  zv_bool :: "'z \<Rightarrow> bool option"
  zv_string :: "'z \<Rightarrow> string option"
  zv_zend_str :: "'z \<Rightarrow> bytes option"
  zv_array :: "'z \<Rightarrow> 'z hash_table option"
  zv_is_null :: "'z \<Rightarrow> bool"
  zv_is_callable :: "'z \<Rightarrow> bool"
  zv_callable_new :: "'z \<Rightarrow> bool"
  zv_try_call :: "'z \<Rightarrow> string \<Rightarrow> 'z call_outcome"
  ht_get :: "'z hash_table \<Rightarrow> string \<Rightarrow> 'z option"
  key_display :: "array_key \<Rightarrow> string"
  zs_as_str :: "bytes \<Rightarrow> string option"
  class_exists :: "string \<Rightarrow> bool"
  set_property_error :: "string \<Rightarrow> string option"
  ht_push_error :: "string option"
  ht_insert_error :: "string \<Rightarrow> string option"

section \<open>What the extension hands to PHP\<close>

datatype php_val =
    P_Null
  | P_Bool bool
  | P_Int int
  | P_Str bytes
  | P_List "php_val list"
  | P_Map "(string \<times> php_val) list"
  | P_Obj "(string \<times> php_val) list"

type_synonym php_obj = "(string \<times> php_val) list"

definition get_prop :: "php_obj \<Rightarrow> string \<Rightarrow> php_val option" where
  "get_prop ob name = map_of (rev ob) name"

section \<open>A concrete engine\<close>

text \<open>
  Plain PHP values with the accessors that read them, used wherever a statement
  is evaluated on concrete arguments.
\<close>

datatype zval =
    Z_Null
  | Z_Bool bool
  | Z_Long i64
  | Z_Double f64
  | Z_Str bytes
  | Z_Array "(array_key \<times> zval) list"
  | Z_Closure "(array_key \<times> zval) list"

fun key_text :: "array_key \<Rightarrow> string" where
  "key_text (Key_Long n) = int_dec (sint n)"
| "key_text (Key_String s) = s"
| "key_text (Key_Str s) = s"
| "key_text (Key_ZendString s) = s"

definition plain_get :: "zval hash_table \<Rightarrow> string \<Rightarrow> zval option" where
  "plain_get ht k = map_of (map (\<lambda>(key, v). (key_text key, v)) ht) k"

definition plain_php :: "zval php" where
  "plain_php = \<lparr>
     zv_long = (\<lambda>v. case v of Z_Long n \<Rightarrow> Some n | _ \<Rightarrow> None),
     zv_double = (\<lambda>v. case v of Z_Double d \<Rightarrow> Some d | _ \<Rightarrow> None),
     zv_bool = (\<lambda>v. case v of Z_Bool b \<Rightarrow> Some b | _ \<Rightarrow> None),
     zv_string = (\<lambda>v. case v of Z_Str s \<Rightarrow> (if utf8_valid s then Some s else None) | _ \<Rightarrow> None),
     zv_zend_str = (\<lambda>v. case v of Z_Str s \<Rightarrow> Some s | _ \<Rightarrow> None),
     zv_array = (\<lambda>v. case v of Z_Array ht \<Rightarrow> Some ht | _ \<Rightarrow> None),
     zv_is_null = (\<lambda>v. v = Z_Null),
     zv_is_callable = (\<lambda>v. case v of Z_Closure r \<Rightarrow> True | _ \<Rightarrow> False),
     zv_callable_new = (\<lambda>v. case v of Z_Closure r \<Rightarrow> True | _ \<Rightarrow> False),
     zv_try_call = (\<lambda>v s. case v of Z_Closure r \<Rightarrow> Returned (Z_Array r) | _ \<Rightarrow> Call_Error ''not callable''),
     ht_get = plain_get,
     key_display = key_text,
     zs_as_str = (\<lambda>s. if utf8_valid s then Some s else None),
     class_exists = (\<lambda>c. True),
     set_property_error = (\<lambda>p. None),
     ht_push_error = None,
     ht_insert_error = (\<lambda>k. None) \<rparr>"

section \<open>Engine writes\<close>

text \<open>
  The engine accepts writes: no property write, append or insertion reports an
  error. Writing a fresh property of a \<open>stdClass\<close> object and inserting a string
  key into a fresh array do not fail in PHP.
\<close>

definition engine_writes :: "'z php \<Rightarrow> bool" where
  "engine_writes Z \<longleftrightarrow> (\<forall>p. set_property_error Z p = None) \<and> ht_push_error Z = None
     \<and> (\<forall>k. ht_insert_error Z k = None)"

lemma engine_writes_plain [simp]: "engine_writes plain_php"
  by (simp add: engine_writes_def plain_php_def)

lemma plain_php_simps [simp]:
  "zv_long plain_php (Z_Long n) = Some n"
  "zv_string plain_php (Z_Str s) = (if utf8_valid s then Some s else None)"
  "zv_zend_str plain_php (Z_Str s) = Some s"
  "zv_array plain_php (Z_Array ht) = Some ht"
  "zv_array plain_php (Z_Bool b) = None"
  "zv_array plain_php Z_Null = None"
  "zv_array plain_php (Z_Str s) = None"
  "zv_array plain_php (Z_Long n) = None"
  "ht_get plain_php = plain_get"
  "class_exists plain_php c = True"
  "set_property_error plain_php p = None"
  "ht_push_error plain_php = None"
  "ht_insert_error plain_php k = None"
  by (simp_all add: plain_php_def)

end
