(* ===== verification/Errors.thy ===== *)
theory Errors
  imports Php_Values
begin

text \<open>
  The exceptions and errors of \<open>error.rs\<close>: the PHP exception classes the
  extension throws, the internal error type with its display text, and the
  conversion of one into the other.
\<close>

record php_exception =
  ex_class :: string
  ex_message :: string
  ex_code :: int

definition class_exception :: "'z php \<Rightarrow> string \<Rightarrow> string \<Rightarrow> int \<Rightarrow> php_exception" where
  "class_exception Z cls message code =
     \<lparr>ex_class = (if class_exists Z cls then cls else ''Exception''),
      ex_message = message, ex_code = code\<rparr>"

definition invalid_argument :: "'z php \<Rightarrow> string \<Rightarrow> php_exception" where
  "invalid_argument Z message = class_exception Z ''InvalidArgumentException'' message 1"

definition logic_exception :: "'z php \<Rightarrow> string \<Rightarrow> int \<Rightarrow> php_exception" where
  "logic_exception Z message call_error = class_exception Z ''LogicException'' message call_error"

definition runtime_exception :: "'z php \<Rightarrow> string \<Rightarrow> php_exception" where
  "runtime_exception Z message = class_exception Z ''RuntimeException'' message 0"

text \<open>\<open>PhpException::default\<close>: the base exception class with code zero.\<close>

definition default_exception :: "string \<Rightarrow> php_exception" where
  "default_exception message = \<lparr>ex_class = ''Exception'', ex_message = message, ex_code = 0\<rparr>"

text \<open>An \<open>io::Error\<close> and a transport error are kept as their display texts.\<close>

datatype grpc_error =
    RuntimeInit string
  | Transport string
  | Status int string
  | InvalidArg string
  | InvalidUri string
  | CallbackFailed string

fun error_display :: "grpc_error \<Rightarrow> string" where
  "error_display (RuntimeInit e) = ''failed to initialize tokio runtime: '' @ e"
| "error_display (Transport e) = ''transport error: '' @ e"
| "error_display (Status code message) = ''gRPC status '' @ int_dec code @ '': '' @ message"
| "error_display (InvalidArg e) = ''invalid argument: '' @ e"
| "error_display (InvalidUri e) = ''invalid URI: '' @ e"
| "error_display (CallbackFailed e) = ''callback failed: '' @ e"

definition exception_of_error :: "grpc_error \<Rightarrow> php_exception" where
  "exception_of_error err = \<lparr>ex_class = ''Exception'', ex_message = error_display err, ex_code = 0\<rparr>"

section \<open>Exceptions keep their class\<close>

text \<open>
  Which of the four exception shapes an error has is visible to PHP code that
  catches it: the SPL classes are used exactly where they exist.
\<close>

lemma exception_classes [simp]:
  "class_exists Z ''InvalidArgumentException'' \<Longrightarrow>
     ex_class (invalid_argument Z m) = ''InvalidArgumentException''"
  "class_exists Z ''LogicException'' \<Longrightarrow> ex_class (logic_exception Z m c) = ''LogicException''"
  "class_exists Z ''RuntimeException'' \<Longrightarrow> ex_class (runtime_exception Z m) = ''RuntimeException''"
  "ex_class (default_exception m) = ''Exception''"
  "ex_class (exception_of_error e) = ''Exception''"
  by (simp_all add: invalid_argument_def logic_exception_def runtime_exception_def
      class_exception_def default_exception_def exception_of_error_def)

lemma exception_codes [simp]:
  "ex_code (invalid_argument Z m) = 1"
  "ex_code (logic_exception Z m c) = c"
  "ex_code (runtime_exception Z m) = 0"
  "ex_code (default_exception m) = 0"
  "ex_code (exception_of_error e) = 0"
  by (simp_all add: invalid_argument_def logic_exception_def runtime_exception_def
      class_exception_def default_exception_def exception_of_error_def)

lemma exception_messages [simp]:
  "ex_message (invalid_argument Z m) = m"
  "ex_message (logic_exception Z m c) = m"
  "ex_message (runtime_exception Z m) = m"
  "ex_message (default_exception m) = m"
  by (simp_all add: invalid_argument_def logic_exception_def runtime_exception_def
      class_exception_def default_exception_def)

end
