(* ===== verification/Runtime.thy ===== *)
theory Runtime
  imports Errors
begin

text \<open>
  Ownership of the tokio runtimes (\<open>runtime.rs\<close>): the mode read once from the
  environment, one process-wide runtime in multi-thread mode, one leaked runtime
  per PHP thread otherwise. A runtime is named by a number; building one is the
  library's, so the outcome of a build is an argument.
\<close>

datatype mode = CurrentThread | MultiThread

record rt_globals =
  rt_mode :: "mode option"
  rt_multi :: "nat option"
  rt_local :: "nat \<Rightarrow> nat option"

definition rt_empty :: rt_globals where
  "rt_empty = \<lparr>rt_mode = None, rt_multi = None, rt_local = (\<lambda>_. None)\<rparr>"

definition parse_mode :: "string option \<Rightarrow> mode" where
  "parse_mode var =
     (if var = Some ''multi-thread'' \<or> var = Some ''multi_thread'' \<or> var = Some ''mt''
      then MultiThread else CurrentThread)"

text \<open>The first call stores the mode; later calls ignore the environment.\<close>

definition get_mode :: "string option \<Rightarrow> rt_globals \<Rightarrow> mode \<times> rt_globals" where
  "get_mode var g =
     (case rt_mode g of Some m \<Rightarrow> (m, g)
      | None \<Rightarrow> (parse_mode var, g\<lparr>rt_mode := Some (parse_mode var)\<rparr>))"

text \<open>
  \<open>built\<close> is the outcome of building a runtime now; \<open>racing\<close> is a runtime that
  another thread published between this thread's check of the shared cell and
  its own attempt to fill it.
\<close>

record rt_env =
  env_var :: "string option"
  env_thread :: nat
  env_built :: "string + nat"
  env_racing :: "nat option"

definition get_runtime :: "rt_env \<Rightarrow> rt_globals \<Rightarrow> (grpc_error + nat) \<times> rt_globals" where
  "get_runtime E g0 =
     (case get_mode (env_var E) g0 of (m, g) \<Rightarrow>
       (case m of
          MultiThread \<Rightarrow>
            (case rt_multi g of
               Some rt \<Rightarrow> (Inr rt, g)
             | None \<Rightarrow>
                 (case env_built E of
                    Inl err \<Rightarrow> (Inl (RuntimeInit err), g)
                  | Inr rt \<Rightarrow>
                      (let cell = once_set rt (env_racing E);
                           g' = g\<lparr>rt_multi := cell\<rparr>
                       in (case rt_multi g' of
                             Some r \<Rightarrow> (Inr r, g')
                           | None \<Rightarrow> (Inl (RuntimeInit ''runtime init failed''), g')))))
        | CurrentThread \<Rightarrow>
            (case rt_local g (env_thread E) of
               Some rt \<Rightarrow> (Inr rt, g)
             | None \<Rightarrow>
                 (case env_built E of
                    Inl err \<Rightarrow> (Inl (RuntimeInit err), g)
                  | Inr rt \<Rightarrow>
                      (Inr rt, g\<lparr>rt_local := (rt_local g)(env_thread E := once_set rt None)\<rparr>)))))"

text \<open>The scheduler ticks that one \<open>pump\<close> gives to queued work.\<close>

fun yields :: "nat \<Rightarrow> nat \<Rightarrow> nat" where
  "yields 0 ticks = ticks"
| "yields (Suc n) ticks = yields n (Suc ticks)"

definition pump :: "rt_env \<Rightarrow> rt_globals \<Rightarrow> (grpc_error + nat) \<times> rt_globals" where
  "pump E g = bind_st (get_runtime E g) (\<lambda>rt g'. (Inr (yields 4 0), g'))"

section \<open>One runtime per owner\<close>

lemma get_mode_stores: "get_mode v g = (m, g') \<Longrightarrow> rt_mode g' = Some m"
  by (auto simp: get_mode_def split: option.splits)

lemma get_runtime_stored_multi:
  "rt_mode g = Some MultiThread \<Longrightarrow> rt_multi g = Some rt \<Longrightarrow> get_runtime E g = (Inr rt, g)"
  by (simp add: get_runtime_def get_mode_def)

lemma get_runtime_stored_local:
  "rt_mode g = Some CurrentThread \<Longrightarrow> rt_local g (env_thread E) = Some rt \<Longrightarrow>
     get_runtime E g = (Inr rt, g)"
  by (simp add: get_runtime_def get_mode_def)

text \<open>What a successful call leaves behind: the runtime, in the cell of the mode.\<close>

lemma get_runtime_stores:
  assumes "get_runtime E g = (Inr rt, g')"
  shows "rt_mode g' = Some MultiThread \<and> rt_multi g' = Some rt
       \<or> rt_mode g' = Some CurrentThread \<and> rt_local g' (env_thread E) = Some rt"
proof -
  obtain m h where mode: "get_mode (env_var E) g = (m, h)" by fastforce
  note stored = get_mode_stores [OF mode]
  show ?thesis
  proof (cases m)
    case MultiThread
    with assms mode stored show ?thesis
      by (simp add: get_runtime_def once_set_def Let_def split: option.splits sum.splits) auto
  next
    case CurrentThread
    with assms mode stored show ?thesis
      by (simp add: get_runtime_def once_set_def split: option.splits sum.splits) auto
  qed
qed

definition holds_runtime :: "rt_globals \<Rightarrow> nat \<Rightarrow> nat \<Rightarrow> bool" where
  "holds_runtime g th rt \<longleftrightarrow>
     rt_mode g = Some MultiThread \<and> rt_multi g = Some rt
     \<or> rt_mode g = Some CurrentThread \<and> rt_local g th = Some rt"

lemma get_runtime_held: "holds_runtime g (env_thread E) rt \<Longrightarrow> get_runtime E g = (Inr rt, g)"
  by (auto simp: holds_runtime_def get_runtime_stored_multi get_runtime_stored_local)

lemma get_runtime_stable:
  assumes "get_runtime E g = (Inr rt, g')" and "env_thread E' = env_thread E"
  shows "get_runtime E' g' = (Inr rt, g')"
  using get_runtime_stores [OF assms(1)] assms(2)
  by (intro get_runtime_held) (simp add: holds_runtime_def)

lemma get_runtime_keeps:
  assumes "holds_runtime g th rt"
  shows "holds_runtime (snd (get_runtime E g)) th rt"
proof (cases "rt_mode g = Some MultiThread")
  case True
  with assms show ?thesis by (simp add: holds_runtime_def get_runtime_stored_multi)
next
  case False
  with assms have g: "rt_mode g = Some CurrentThread" "rt_local g th = Some rt"
    by (auto simp: holds_runtime_def)
  show ?thesis
    using g by (auto simp: get_runtime_def get_mode_def holds_runtime_def split: option.splits sum.splits)
qed

lemma get_runtimes_keep:
  "holds_runtime g th rt \<Longrightarrow> holds_runtime (fold (\<lambda>E g. snd (get_runtime E g)) Es g) th rt"
  by (induction Es arbitrary: g) (simp_all add: get_runtime_keeps)

text \<open>
  C22. A runtime has one owner for life. Once a call has been given a runtime, then
  after any further calls by any threads, every call on the same thread, and in
  multi-thread mode every call on any thread, is given that same runtime, whatever
  the environment variable says by then, whether or not a new runtime could be
  built, and whatever another thread tries to publish.
\<close>

theorem runtime_per_owner:
  assumes "get_runtime E g = (Inr rt, g')"
    and "env_thread E' = env_thread E \<or> rt_mode g' = Some MultiThread"
  shows "fst (get_runtime E' (fold (\<lambda>E g. snd (get_runtime E g)) Es g')) = Inr rt"
proof -
  have "holds_runtime g' (env_thread E') rt"
    using get_runtime_stores [OF assms(1)] assms(2) by (auto simp: holds_runtime_def)
  from get_runtime_held [OF get_runtimes_keep [OF this]] show ?thesis by simp
qed

theorem runtime_per_owner_witness:
  "fst (get_runtime \<lparr>env_var = None, env_thread = 2, env_built = Inl ''no threads'', env_racing = None\<rparr>
     (fold (\<lambda>E g. snd (get_runtime E g))
        [\<lparr>env_var = None, env_thread = 3, env_built = Inr 9, env_racing = Some 8\<rparr>]
        (snd (get_runtime \<lparr>env_var = Some ''mt'', env_thread = 1, env_built = Inr 7, env_racing = None\<rparr> rt_empty))))
   = Inr 7"
  by (rule runtime_per_owner [of "\<lparr>env_var = Some ''mt'', env_thread = 1, env_built = Inr 7, env_racing = None\<rparr>" rt_empty])
    (simp_all add: get_runtime_def get_mode_def parse_mode_def rt_empty_def once_set_def)

lemma pump_ticks:
  assumes "pump E g = (Inr n, g')"
  shows "n = 4"
proof -
  have "yields 4 0 = 4" by (simp add: eval_nat_numeral)
  with assms show ?thesis
    by (cases "get_runtime E g") (auto simp: pump_def bind_st_def split: sum.splits)
qed

end
