(* ===== verification/Timeval.thy ===== *)
theory Timeval
  imports Runtime
begin

text \<open>
  \<open>Grpc\Timeval\<close> (\<open>timeval.rs\<close>): a 64-bit microsecond count that is either a
  relative span or an absolute time, with the saturating arithmetic of gpr and
  the resolution of a span into an absolute deadline.
\<close>

record grpc_timeval =
  usec :: i64
  is_span :: bool

definition timeval_construct :: "'z php \<Rightarrow> 'z \<Rightarrow> php_exception + grpc_timeval" where
  "timeval_construct Z v =
     (case zv_long Z v of
        Some l \<Rightarrow> Inr \<lparr>usec = l, is_span = True\<rparr>
      | None \<Rightarrow>
          (case zv_double Z v of
             Some d \<Rightarrow> Inr \<lparr>usec = f64_as_i64 d, is_span = True\<rparr>
           | None \<Rightarrow> Inl (invalid_argument Z ''Timeval expects a numeric microseconds value'')))"

definition get_usec :: "grpc_timeval \<Rightarrow> i64" where
  "get_usec tv = usec tv"

definition infinite_usec :: "i64 \<Rightarrow> bool" where
  "infinite_usec u \<longleftrightarrow> u = i64_max \<or> u = i64_min"

text \<open>The reading used for spans: zero before the epoch or beyond 64 bits.\<close>

definition span_base :: "clock_reading \<Rightarrow> i64" where
  "span_base r = (case r of BeforeEpoch e \<Rightarrow> 0 | SinceEpoch n \<Rightarrow> unwrap_or 0 (i64_try_from n))"

definition to_absolute_usec :: "clock_reading \<Rightarrow> grpc_timeval \<Rightarrow> i64" where
  "to_absolute_usec r tv =
     (if \<not> is_span tv \<or> usec tv = i64_max \<or> usec tv = i64_min then usec tv
      else saturating_add (span_base r) (usec tv))"

definition checked_usec :: "clock_reading \<Rightarrow> php_exception + i64" where
  "checked_usec r =
     (case r of
        BeforeEpoch e \<Rightarrow> Inl (default_exception e)
      | SinceEpoch n \<Rightarrow>
          ok_or (i64_try_from n)
            (default_exception ''out of range integral type conversion attempted''))"

definition timeval_now :: "clock_reading \<Rightarrow> php_exception + grpc_timeval" where
  "timeval_now r = bind_res (checked_usec r) (\<lambda>u. Inr \<lparr>usec = u, is_span = False\<rparr>)"

definition inf_future :: grpc_timeval where
  "inf_future = \<lparr>usec = i64_max, is_span = False\<rparr>"

definition inf_past :: grpc_timeval where
  "inf_past = \<lparr>usec = i64_min, is_span = False\<rparr>"

definition timeval_zero :: grpc_timeval where
  "timeval_zero = \<lparr>usec = 0, is_span = True\<rparr>"

definition similar :: "grpc_timeval \<Rightarrow> grpc_timeval \<Rightarrow> grpc_timeval \<Rightarrow> bool" where
  "similar a b threshold \<longleftrightarrow>
     sint (saturating_abs (saturating_sub (usec a) (usec b))) \<le> sint (saturating_abs (usec threshold))"

definition compare :: "grpc_timeval \<Rightarrow> grpc_timeval \<Rightarrow> int" where
  "compare a b = (if sint (usec a) < sint (usec b) then -1
     else if sint (usec a) = sint (usec b) then 0 else 1)"

definition timeval_add :: "grpc_timeval \<Rightarrow> grpc_timeval \<Rightarrow> grpc_timeval" where
  "timeval_add self other =
     (if usec self = i64_max \<or> usec self = i64_min
      then \<lparr>usec = usec self, is_span = is_span self\<rparr>
      else \<lparr>usec = saturating_add (usec self) (usec other),
            is_span = is_span self \<and> is_span other\<rparr>)"

definition timeval_subtract :: "grpc_timeval \<Rightarrow> grpc_timeval \<Rightarrow> grpc_timeval" where
  "timeval_subtract self other =
     (if usec self = i64_max \<or> usec self = i64_min
      then \<lparr>usec = usec self, is_span = is_span self\<rparr>
      else \<lparr>usec = saturating_sub (usec self) (usec other),
            is_span = is_span self \<and> is_span other\<rparr>)"

text \<open>The result names the sleep requested of tokio, in microseconds, if any.\<close>

definition sleep_until ::
  "rt_env \<Rightarrow> clock_reading \<Rightarrow> grpc_timeval \<Rightarrow> rt_globals \<Rightarrow> (php_exception + nat option) \<times> rt_globals" where
  "sleep_until E r tv g =
     (case checked_usec r of
        Inl e \<Rightarrow> (Inl e, g)
      | Inr now_usec \<Rightarrow>
          (let remaining = saturating_sub (usec tv) now_usec in
           if sint remaining > 0 \<and> usec tv \<noteq> i64_max then
             (case get_runtime E g of
                (Inl err, g') \<Rightarrow> (Inl (exception_of_error err), g')
              | (Inr rt, g') \<Rightarrow> (Inr (Some (unat remaining)), g'))
           else (Inr None, g)))"

section \<open>Signed reading of the operations\<close>

lemma infinite_usec_iff: "infinite_usec u \<longleftrightarrow> sint u = i64_max_int \<or> sint u = i64_min_int"
  by (simp add: infinite_usec_def i64_eq_max_iff i64_eq_min_iff)

lemma sint_usec_add:
  "sint (usec (timeval_add a b)) =
     (if infinite_usec (usec a) then sint (usec a)
      else max i64_min_int (min i64_max_int (sint (usec a) + sint (usec b))))"
  by (simp add: timeval_add_def infinite_usec_def i64_arith)

lemma sint_usec_subtract:
  "sint (usec (timeval_subtract a b)) =
     (if infinite_usec (usec a) then sint (usec a)
      else max i64_min_int (min i64_max_int (sint (usec a) - sint (usec b))))"
  by (simp add: timeval_subtract_def infinite_usec_def i64_arith)

lemma compare_le_0: "compare a b \<le> 0 \<longleftrightarrow> sint (usec a) \<le> sint (usec b)"
  by (simp add: compare_def)

lemma compare_eq_0: "compare a b = 0 \<longleftrightarrow> sint (usec a) = sint (usec b)"
  by (simp add: compare_def)

lemma span_base_nonneg: "0 \<le> sint (span_base r)"
  by (auto simp: span_base_def i64_try_from_def unwrap_or_def sint_of_nat_i64
      split: clock_reading.split)

lemmas timeval_sint = sint_usec_add sint_usec_subtract infinite_usec_iff compare_le_0 compare_eq_0

section \<open>Properties\<close>



text \<open>
  Adding the same operand keeps the order that \<open>compare\<close> gives, infinities
  and saturation included: a deadline that was not later stays not later.
\<close>

theorem timeval_add_mono:
  "compare a b \<le> 0 \<Longrightarrow> compare (timeval_add a c) (timeval_add b c) \<le> 0"
  using i64_bounds [of "usec a"] i64_bounds [of "usec b"]
  by (auto simp: timeval_sint)

theorem timeval_add_mono_witness:
  "compare \<lparr>usec = 3, is_span = False\<rparr> inf_future \<le> 0
   \<and> compare (timeval_add \<lparr>usec = 3, is_span = False\<rparr> inf_future) (timeval_add inf_future inf_future) \<le> 0"
proof -
  have h: "compare \<lparr>usec = 3, is_span = False\<rparr> inf_future \<le> 0"
    by (simp add: compare_def inf_future_def)
  show ?thesis using h timeval_add_mono [OF h, of inf_future] by blast
qed

text \<open>
  Where nothing saturates, subtracting an operand undoes adding it.
\<close>

theorem timeval_add_subtract:
  assumes "\<not> infinite_usec (usec a)"
    and "i64_min_int < sint (usec a) + sint (usec b)" and "sint (usec a) + sint (usec b) < i64_max_int"
  shows "usec (timeval_subtract (timeval_add a b) b) = usec a"
proof -
  have sum: "sint (usec (timeval_add a b)) = sint (usec a) + sint (usec b)"
    using assms by (simp add: sint_usec_add)
  then have "\<not> infinite_usec (usec (timeval_add a b))"
    using assms by (simp add: infinite_usec_iff)
  then have "sint (usec (timeval_subtract (timeval_add a b) b)) = sint (usec a)"
    using sum i64_bounds [of "usec a"] by (simp add: sint_usec_subtract)
  then show ?thesis by (simp add: i64_eq_iff)
qed

theorem timeval_add_subtract_witness:
  "usec (timeval_subtract (timeval_add \<lparr>usec = 40, is_span = False\<rparr> \<lparr>usec = 2, is_span = True\<rparr>)
     \<lparr>usec = 2, is_span = True\<rparr>) = 40"
proof -
  have "\<not> infinite_usec (40 :: i64)" by (simp add: infinite_usec_iff)
  then show ?thesis
    using timeval_add_subtract [of "\<lparr>usec = 40, is_span = False\<rparr>" "\<lparr>usec = 2, is_span = True\<rparr>"]
    by simp
qed

text \<open>
  C28. Resolving a deadline: an absolute or infinite timeval is its own deadline,
  a finite span is counted from the clock reading and clamped to 64 bits, and a
  span that is not negative never resolves to a time before the reading.
\<close>

theorem deadline_resolution:
  "(is_span tv \<and> \<not> infinite_usec (usec tv) \<longrightarrow>
      sint (to_absolute_usec r tv) = max i64_min_int (min i64_max_int (sint (span_base r) + sint (usec tv))))
   \<and> (\<not> is_span tv \<or> infinite_usec (usec tv) \<longrightarrow> to_absolute_usec r tv = usec tv)
   \<and> (is_span tv \<and> 0 \<le> sint (usec tv) \<longrightarrow> sint (span_base r) \<le> sint (to_absolute_usec r tv))"
proof -
  have "sint (span_base r) \<le> i64_max_int" by (rule i64_bounds)
  then show ?thesis
    using span_base_nonneg [of r]
    by (auto simp: to_absolute_usec_def infinite_usec_iff i64_eq_max_iff i64_eq_min_iff i64_arith)
qed

theorem deadline_resolution_witness:
  "sint (to_absolute_usec (SinceEpoch 1000) \<lparr>usec = 5000000, is_span = True\<rparr>) = 5001000
   \<and> to_absolute_usec (SinceEpoch 1000) inf_future = i64_max"
proof -
  have "sint (span_base (SinceEpoch 1000)) = 1000"
    by (simp add: span_base_def i64_try_from_def)
  then show ?thesis
    using deadline_resolution [of "\<lparr>usec = 5000000, is_span = True\<rparr>" "SinceEpoch 1000"]
      deadline_resolution [of inf_future "SinceEpoch 1000"]
    by (simp add: infinite_usec_iff inf_future_def)
qed



end
