(* ===== verification/Metadata.thy ===== *)
theory Metadata
  imports Errors
begin

text \<open>
  Metadata in both directions (\<open>call.rs\<close>): the strict parser for metadata sent
  by PHP code, the lenient one for credential plugins, the plugin call itself,
  the collection of a tonic \<open>MetadataMap\<close> into grouped raw bytes, its hand-over
  to PHP, and the rich status details put back into trailing metadata.
  The metadata map is tonic's: a type parameter \<open>'m\<close> with values \<open>'v\<close>, and the
  operations the extension calls on it are the fields of a record.
\<close>

section \<open>tonic's metadata map and status\<close>

datatype 'v kv_ref = Ascii string 'v | Binary string 'v

record ('m, 'v) md_api =
  md_default :: 'm
  md_iter :: "'m \<Rightarrow> 'v kv_ref list"
  md_insert :: "'m \<Rightarrow> string \<Rightarrow> 'v \<Rightarrow> 'm"
  md_insert_bin :: "'m \<Rightarrow> string \<Rightarrow> 'v \<Rightarrow> 'm"
  mk_from_bytes :: "bytes \<Rightarrow> string option"
  mv_parse :: "string \<Rightarrow> 'v option"
  mv_from_bytes :: "bytes \<Rightarrow> 'v"
  mv_to_str :: "'v \<Rightarrow> string option"
  mv_to_bytes :: "'v \<Rightarrow> bytes option"

record 'm tonic_status =
  st_code :: int
  st_message :: string
  st_metadata :: 'm
  st_details :: bytes

section \<open>Array keys\<close>

definition array_key_to_string :: "'z php \<Rightarrow> array_key \<Rightarrow> string option" where
  "array_key_to_string Z key =
     (case key of
        Key_String s \<Rightarrow> Some s
      | Key_Str s \<Rightarrow> Some s
      | Key_ZendString zs \<Rightarrow> zs_as_str Z zs
      | Key_Long n \<Rightarrow> None)"

definition array_key_to_long :: "'z php \<Rightarrow> array_key \<Rightarrow> grpc_error + i64" where
  "array_key_to_long Z key =
     (case key of
        Key_Long n \<Rightarrow> Inr n
      | Key_String s \<Rightarrow> ok_or (parse_i64 s) (InvalidArg (''invalid op key: '' @ s))
      | Key_Str s \<Rightarrow> ok_or (parse_i64 s) (InvalidArg (''invalid op key: '' @ s))
      | Key_ZendString zs \<Rightarrow>
          ok_or (case zs_as_str Z zs of None \<Rightarrow> None | Some s \<Rightarrow> parse_i64 s)
            (InvalidArg ''invalid op key''))"

section \<open>Metadata from PHP\<close>

definition header_byte_ok :: "char \<Rightarrow> bool" where
  "header_byte_ok c =
     (let b = of_char c :: nat in
      97 \<le> b \<and> b \<le> 122 \<or> 48 \<le> b \<and> b \<le> 57 \<or> c = CHR ''-'' \<or> c = CHR ''_'' \<or> c = CHR ''.'')"

definition header_key_is_legal :: "string \<Rightarrow> bool" where
  "header_key_is_legal key \<longleftrightarrow> key \<noteq> [] \<and> list_all header_byte_ok key"

abbreviation bad_metadata :: "'z php \<Rightarrow> php_exception" where
  "bad_metadata Z \<equiv> invalid_argument Z ''Bad metadata value given''"

fun parse_send_values ::
  "'z php \<Rightarrow> string \<Rightarrow> 'z hash_table \<Rightarrow> (string \<times> string) list
     \<Rightarrow> php_exception + (string \<times> string) list" where
  "parse_send_values Z k [] md = Inr md"
| "parse_send_values Z k ((idx, v) # vs) md =
     bind_res (ok_or (zv_zend_str Z v) (bad_metadata Z))
       (\<lambda>s. parse_send_values Z k vs (md @ [(k, utf8_lossy s)]))"

fun parse_send_loop ::
  "'z php \<Rightarrow> 'z hash_table \<Rightarrow> (string \<times> string) list \<Rightarrow> php_exception + (string \<times> string) list" where
  "parse_send_loop Z [] md = Inr md"
| "parse_send_loop Z ((key, val) # ht) md =
     bind_res (ok_or (array_key_to_string Z key) (bad_metadata Z)) (\<lambda>k.
       if \<not> header_key_is_legal k then Inl (bad_metadata Z)
       else bind_res (ok_or (zv_array Z val) (bad_metadata Z)) (\<lambda>values.
         bind_res (parse_send_values Z k values md) (parse_send_loop Z ht)))"

definition parse_send_metadata ::
  "'z php \<Rightarrow> 'z hash_table \<Rightarrow> php_exception + (string \<times> string) list" where
  "parse_send_metadata Z ht = parse_send_loop Z ht []"

fun parse_values :: "'z php \<Rightarrow> string \<Rightarrow> 'z hash_table \<Rightarrow> (string \<times> string) list \<Rightarrow> (string \<times> string) list" where
  "parse_values Z k [] md = md"
| "parse_values Z k ((idx, v) # vs) md =
     (case zv_string Z v of
        Some s \<Rightarrow> parse_values Z k vs (md @ [(k, s)])
      | None \<Rightarrow> parse_values Z k vs md)"

fun parse_loop :: "'z php \<Rightarrow> 'z hash_table \<Rightarrow> (string \<times> string) list \<Rightarrow> (string \<times> string) list" where
  "parse_loop Z [] md = md"
| "parse_loop Z ((key, val) # ht) md =
     (case array_key_to_string Z key of
        None \<Rightarrow> parse_loop Z ht md
      | Some k \<Rightarrow>
          (case zv_array Z val of
             Some arr \<Rightarrow> parse_loop Z ht (parse_values Z k arr md)
           | None \<Rightarrow>
               (case zv_string Z val of
                  Some s \<Rightarrow> parse_loop Z ht (md @ [(k, s)])
                | None \<Rightarrow> parse_loop Z ht md)))"

definition parse_metadata :: "'z php \<Rightarrow> 'z hash_table \<Rightarrow> (string \<times> string) list" where
  "parse_metadata Z ht = parse_loop Z ht []"

section \<open>Credential plugins\<close>

definition plugin_error_text :: "'z php \<Rightarrow> 'z call_outcome \<Rightarrow> string" where
  "plugin_error_text Z e =
     (case e of
        Threw cls msg \<Rightarrow>
          ''plugin threw '' @ unwrap_or ''Exception'' cls @ '': ''
            @ unwrap_or [] (case msg of None \<Rightarrow> None | Some zv \<Rightarrow> zv_string Z zv)
      | Call_Error other \<Rightarrow> other
      | Returned v \<Rightarrow> [])"

definition invoke_call_plugin ::
  "'z php \<Rightarrow> 'z option \<Rightarrow> string \<Rightarrow> grpc_error + (string \<times> string) list" where
  "invoke_call_plugin Z cell service_url =
     (case cell of
        None \<Rightarrow> Inl (CallbackFailed ''plugin callable is not set'')
      | Some zval \<Rightarrow>
          (if \<not> zv_callable_new Z zval then Inl (CallbackFailed ''stored value is not callable'')
           else (case zv_try_call Z zval service_url of
                   Returned result \<Rightarrow>
                     (case zv_array Z result of
                        Some ht \<Rightarrow> Inr (parse_metadata Z ht)
                      | None \<Rightarrow> Inr [])
                 | e \<Rightarrow> Inl (CallbackFailed (plugin_error_text Z e)))))"

section \<open>Metadata into a request\<close>

text \<open>Each accepted pair is inserted in order; a pair that does not parse is skipped.\<close>

fun apply_metadata :: "('m, 'v) md_api \<Rightarrow> (string \<times> string) list \<Rightarrow> 'm \<Rightarrow> 'm" where
  "apply_metadata M [] req = req"
| "apply_metadata M ((key, value) # kvs) req =
     (case mk_from_bytes M key of
        None \<Rightarrow> apply_metadata M kvs req
      | Some name \<Rightarrow>
          (case mv_parse M value of
             None \<Rightarrow> apply_metadata M kvs req
           | Some val \<Rightarrow> apply_metadata M kvs (md_insert M req name val)))"

section \<open>Metadata to PHP\<close>

type_synonym metadata_entries = "(string \<times> bytes list) list"

definition kv_bytes :: "('m, 'v) md_api \<Rightarrow> 'v kv_ref \<Rightarrow> (string \<times> bytes) option" where
  "kv_bytes M kv =
     (case kv of
        Ascii key value \<Rightarrow> (case mv_to_str M value of Some s \<Rightarrow> Some (key, s) | None \<Rightarrow> None)
      | Binary key value \<Rightarrow> (case mv_to_bytes M value of Some d \<Rightarrow> Some (key, d) | None \<Rightarrow> None))"

fun collect_loop :: "('m, 'v) md_api \<Rightarrow> 'v kv_ref list \<Rightarrow> metadata_entries \<Rightarrow> metadata_entries" where
  "collect_loop M [] entries = entries"
| "collect_loop M (kv # kvs) entries =
     (case kv_bytes M kv of
        None \<Rightarrow> collect_loop M kvs entries
      | Some (key, bytes) \<Rightarrow> collect_loop M kvs (push_group key bytes entries))"

definition collect_metadata :: "('m, 'v) md_api \<Rightarrow> 'm \<Rightarrow> metadata_entries" where
  "collect_metadata M m = collect_loop M (md_iter M m) []"

definition bytes_to_php_string_zval :: "bytes \<Rightarrow> php_val" where
  "bytes_to_php_string_zval b = P_Str b"

definition is_reserved_header :: "string \<Rightarrow> bool" where
  "is_reserved_header key \<longleftrightarrow> key \<in> {''content-type'', ''grpc-status'', ''grpc-message'',
     ''grpc-encoding'', ''grpc-accept-encoding''}"

fun push_values :: "'z php \<Rightarrow> bytes list \<Rightarrow> php_val list \<Rightarrow> grpc_error + php_val list" where
  "push_values Z [] arr = Inr arr"
| "push_values Z (v # vs) arr =
     (case ht_push_error Z of
        Some e \<Rightarrow> Inl (InvalidArg (''metadata build: '' @ e))
      | None \<Rightarrow> push_values Z vs (arr @ [bytes_to_php_string_zval v]))"

fun insert_entries :: "'z php \<Rightarrow> metadata_entries \<Rightarrow> (string \<times> php_val) list \<Rightarrow> grpc_error + php_val" where
  "insert_entries Z [] ht = Inr (P_Map ht)"
| "insert_entries Z ((key, values) # es) ht =
     (if is_reserved_header key then insert_entries Z es ht
      else bind_res (push_values Z values []) (\<lambda>arr.
        (case ht_insert_error Z key of
           Some e \<Rightarrow> Inl (InvalidArg (''metadata build: '' @ e))
         | None \<Rightarrow> insert_entries Z es (ht @ [(key, P_List arr)]))))"

definition metadata_to_php :: "'z php \<Rightarrow> ('m, 'v) md_api \<Rightarrow> 'm \<Rightarrow> grpc_error + php_val" where
  "metadata_to_php Z M m = insert_entries Z (collect_metadata M m) []"

definition status_metadata_for_php :: "('m, 'v) md_api \<Rightarrow> 'm tonic_status \<Rightarrow> 'm" where
  "status_metadata_for_php M st =
     (if st_details st \<noteq> []
      then md_insert_bin M (st_metadata st) ''grpc-status-details-bin'' (mv_from_bytes M (st_details st))
      else st_metadata st)"

section \<open>A concrete metadata map\<close>

text \<open>
  An ordered list of entries with the replacement behaviour that tonic documents
  for \<open>insert\<close>, used wherever a statement is evaluated on concrete metadata.
\<close>

fun kv_key :: "'v kv_ref \<Rightarrow> string" where
  "kv_key (Ascii k v) = k"
| "kv_key (Binary k v) = k"

definition list_insert :: "bytes kv_ref list \<Rightarrow> bytes kv_ref \<Rightarrow> bytes kv_ref list" where
  "list_insert m e = filter (\<lambda>e'. kv_key e' \<noteq> kv_key e) m @ [e]"

definition ends_bin :: "string \<Rightarrow> bool" where
  "ends_bin k \<longleftrightarrow> starts_with (rev ''-bin'') (rev k)"

definition list_md :: "(bytes kv_ref list, bytes) md_api" where
  "list_md = \<lparr>
     md_default = [],
     md_iter = (\<lambda>m. m),
     md_insert = (\<lambda>m k v. list_insert m (Ascii k v)),
     md_insert_bin = (\<lambda>m k v. list_insert m (Binary k v)),
     mk_from_bytes = (\<lambda>k. if header_key_is_legal k \<and> \<not> ends_bin k then Some k else None),
     mv_parse = (\<lambda>s. if list_all (\<lambda>c. 32 \<le> (of_char c :: nat) \<and> (of_char c :: nat) < 127) s then Some s else None),
     mv_from_bytes = (\<lambda>b. b),
     mv_to_str = (\<lambda>v. Some v),
     mv_to_bytes = (\<lambda>v. Some v) \<rparr>"

section \<open>Documented behaviour of the metadata map\<close>

text \<open>
  Inserting an entry removes every previous value of its key and leaves the
  entries of other keys as they were; a binary value decodes to the bytes it was
  made from.
\<close>

definition entries_of :: "('m, 'v) md_api \<Rightarrow> 'm \<Rightarrow> string \<Rightarrow> 'v kv_ref list" where
  "entries_of M m k = filter (\<lambda>e. kv_key e = k) (md_iter M m)"

definition md_laws :: "('m, 'v) md_api \<Rightarrow> bool" where
  "md_laws M \<longleftrightarrow>
     (\<forall>m k v k'. entries_of M (md_insert M m k v) k' = (if k' = k then [Ascii k v] else entries_of M m k'))
   \<and> (\<forall>m k v k'. entries_of M (md_insert_bin M m k v) k' = (if k' = k then [Binary k v] else entries_of M m k'))
   \<and> (\<forall>b. mv_to_bytes M (mv_from_bytes M b) = Some b)
   \<and> md_iter M (md_default M) = []"

lemma md_laws_list: "md_laws list_md"
  by (auto simp: md_laws_def list_md_def entries_of_def list_insert_def intro!: filter_cong)

section \<open>Collecting metadata\<close>

lemma collect_loop_fold:
  "collect_loop M kvs es = fold (\<lambda>(k, v). push_group k v) (List.map_filter (kv_bytes M) kvs) es"
  by (induction M kvs es rule: collect_loop.induct)
    (auto simp: map_filter_simps split: option.split)

lemma collect_metadata_fold:
  "collect_metadata M m = fold (\<lambda>(k, v). push_group k v) (List.map_filter (kv_bytes M) (md_iter M m)) []"
  by (simp add: collect_metadata_def collect_loop_fold)

lemma kv_bytes_key: "kv_bytes M kv = Some (k, b) \<Longrightarrow> kv_key kv = k"
  by (cases kv) (auto simp: kv_bytes_def split: option.splits)

lemma group_collect:
  "group_of k (collect_metadata M m) = map snd (List.map_filter (kv_bytes M) (entries_of M m k))"
proof -
  have "filter (\<lambda>kv. fst kv = k) (List.map_filter (kv_bytes M) kvs)
      = List.map_filter (kv_bytes M) (filter (\<lambda>e. kv_key e = k) kvs)" for kvs
    by (induction kvs) (auto simp: map_filter_simps dest: kv_bytes_key split: option.splits)
  then show ?thesis
    by (simp add: collect_metadata_fold grp.vals_fold entries_of_def) (simp add: group_of_def)
qed

lemma push_values_ok:
  "engine_writes Z \<Longrightarrow> push_values Z vs arr = Inr (arr @ map P_Str vs)"
  by (induction Z vs arr rule: push_values.induct)
    (simp_all add: engine_writes_def bytes_to_php_string_zval_def)

lemma insert_entries_ok:
  "engine_writes Z \<Longrightarrow> insert_entries Z es ht =
     Inr (P_Map (ht @ map (\<lambda>(k, vs). (k, P_List (map P_Str vs)))
       (filter (\<lambda>(k, vs). \<not> is_reserved_header k) es)))"
  by (induction Z es ht rule: insert_entries.induct)
    (auto simp: push_values_ok engine_writes_def)

lemma push_group_nonempty: "[] \<notin> snd ` set es \<Longrightarrow> [] \<notin> snd ` set (push_group k v es)"
  by (induction k v es rule: push_group.induct) auto

lemma collect_nonempty: "[] \<notin> snd ` set (collect_metadata M m)"
proof -
  have "[] \<notin> snd ` set (es :: metadata_entries) \<Longrightarrow> [] \<notin> snd ` set (fold (\<lambda>(k, v). push_group k v) kvs es)"
    for es and kvs :: "(string \<times> bytes) list"
    by (induction kvs arbitrary: es) (simp_all add: push_group_nonempty split: prod.split)
  then show ?thesis by (simp add: collect_metadata_fold)
qed

text \<open>
  C18. Collecting a metadata map groups it without loss or reordering: keys appear
  once, in the order first seen; each key's values are exactly the decodable
  values of that key, in iteration order; an undecodable value drops itself only.
\<close>

theorem collect_metadata_groups:
  "map fst (collect_metadata M m)
     = rev (remdups (rev (map fst (List.map_filter (kv_bytes M) (md_iter M m)))))
   \<and> distinct (map fst (collect_metadata M m))
   \<and> group_of k (collect_metadata M m)
     = map snd (filter (\<lambda>kv. fst kv = k) (List.map_filter (kv_bytes M) (md_iter M m)))
   \<and> [] \<notin> snd ` set (collect_metadata M m)"
  by (simp add: collect_metadata_fold grp.keys_fold grp.vals_fold collect_nonempty [unfolded collect_metadata_fold])
    (simp add: group_of_def)



section \<open>Parsing metadata from PHP\<close>

text \<open>The shape the strict parser demands of one entry, and the pairs it yields.\<close>

definition send_entry_ok :: "'z php \<Rightarrow> array_key \<times> 'z \<Rightarrow> bool" where
  "send_entry_ok Z e =
     (case array_key_to_string Z (fst e) of
        None \<Rightarrow> False
      | Some k \<Rightarrow> header_key_is_legal k \<and>
          (case zv_array Z (snd e) of
             None \<Rightarrow> False
           | Some vs \<Rightarrow> list_all (\<lambda>iv. zv_zend_str Z (snd iv) \<noteq> None) vs))"

definition send_entry_pairs :: "'z php \<Rightarrow> array_key \<times> 'z \<Rightarrow> (string \<times> string) list" where
  "send_entry_pairs Z e =
     (case (array_key_to_string Z (fst e), zv_array Z (snd e)) of
        (Some k, Some vs) \<Rightarrow> map (\<lambda>iv. (k, utf8_lossy (unwrap_or [] (zv_zend_str Z (snd iv))))) vs
      | _ \<Rightarrow> [])"

lemma parse_send_values_eq:
  "parse_send_values Z k vs md =
     (if list_all (\<lambda>iv. zv_zend_str Z (snd iv) \<noteq> None) vs
      then Inr (md @ map (\<lambda>iv. (k, utf8_lossy (unwrap_or [] (zv_zend_str Z (snd iv))))) vs)
      else Inl (bad_metadata Z))"
  by (induction Z k vs md rule: parse_send_values.induct)
    (auto simp: ok_or_def split: option.split)

lemma parse_send_loop_eq:
  "parse_send_loop Z ht md =
     (if list_all (send_entry_ok Z) ht then Inr (md @ concat (map (send_entry_pairs Z) ht))
      else Inl (bad_metadata Z))"
proof (induction Z ht md rule: parse_send_loop.induct)
  case (1 Z md)
  show ?case by simp
next
  case (2 Z key val ht md)
  show ?case
  proof (cases "send_entry_ok Z (key, val)")
    case True
    then obtain k vs where kv: "array_key_to_string Z key = Some k" "header_key_is_legal k"
      "zv_array Z val = Some vs" "list_all (\<lambda>iv. zv_zend_str Z (snd iv) \<noteq> None) vs"
      by (auto simp: send_entry_ok_def split: option.splits)
    then have "parse_send_values Z k vs md = Inr (md @ send_entry_pairs Z (key, val))"
      by (simp add: parse_send_values_eq send_entry_pairs_def)
    with 2 kv True show ?thesis by simp
  next
    case False
    then show ?thesis
      by (auto simp: send_entry_ok_def parse_send_values_eq ok_or_def split: option.splits)
  qed
qed


text \<open>
  What the strict parser lets through can be put on the wire as text: every
  key is a legal header key and every value is valid UTF-8.
\<close>

theorem parse_send_metadata_wellformed:
  assumes "parse_send_metadata Z ht = Inr md" and "(k, v) \<in> set md"
  shows "header_key_is_legal k \<and> utf8_valid v"
proof -
  have ok: "list_all (send_entry_ok Z) ht" and md: "md = concat (map (send_entry_pairs Z) ht)"
    using assms(1) by (simp_all add: parse_send_metadata_def parse_send_loop_eq split: if_splits)
  then obtain e where e: "e \<in> set ht" "(k, v) \<in> set (send_entry_pairs Z e)"
    using assms(2) by auto
  with ok have "send_entry_ok Z e" by (simp add: list_all_iff)
  with e(2) show ?thesis
    by (auto simp: send_entry_ok_def send_entry_pairs_def utf8_valid_lossy split: option.splits)
qed

theorem parse_send_metadata_wellformed_witness:
  "header_key_is_legal ''x-id'' \<and> utf8_valid ''7''"
proof -
  let ?ht = "[(Key_Str ''x-id'', Z_Array [(Key_Long 0, Z_Str ''7'')])]"
  have "parse_send_metadata plain_php ?ht = Inr [(''x-id'', ''7'')]"
    by (simp add: parse_send_metadata_def array_key_to_string_def header_key_is_legal_def
        header_byte_ok_def Let_def utf8_step_def utf8_width_def)
  then show ?thesis by (rule parse_send_metadata_wellformed) simp
qed

text \<open>
  The engine's text accessor reads the same bytes as the raw one and refuses
  bytes that are not UTF-8.
\<close>

definition text_accessor :: "'z php \<Rightarrow> bool" where
  "text_accessor Z \<longleftrightarrow> (\<forall>v. zv_string Z v =
     (case zv_zend_str Z v of None \<Rightarrow> None | Some s \<Rightarrow> if utf8_valid s then Some s else None))"

definition entry_utf8 :: "'z php \<Rightarrow> array_key \<times> 'z \<Rightarrow> bool" where
  "entry_utf8 Z e \<longleftrightarrow> (\<forall>vs iv s. zv_array Z (snd e) = Some vs \<and> iv \<in> set vs
     \<and> zv_zend_str Z (snd iv) = Some s \<longrightarrow> utf8_valid s)"

lemma parse_values_utf8:
  assumes "text_accessor Z" and "\<And>iv. iv \<in> set vs \<Longrightarrow> \<exists>s. zv_zend_str Z (snd iv) = Some s \<and> utf8_valid s"
  shows "parse_values Z k vs md
    = md @ map (\<lambda>iv. (k, utf8_lossy (unwrap_or [] (zv_zend_str Z (snd iv))))) vs"
  using assms(2)
proof (induction vs arbitrary: md)
  case Nil
  show ?case by simp
next
  case (Cons iv vs)
  obtain s where s: "zv_zend_str Z (snd iv) = Some s" "utf8_valid s"
    using Cons.prems [of iv] by auto
  then have "zv_string Z (snd iv) = Some s"
    using assms(1) by (simp add: text_accessor_def)
  with s Cons show ?case by (cases iv) (simp add: utf8_lossy_id)
qed

lemma parse_loop_strict:
  assumes "text_accessor Z" and "list_all (send_entry_ok Z) ht" and "list_all (entry_utf8 Z) ht"
  shows "parse_loop Z ht md = md @ concat (map (send_entry_pairs Z) ht)"
  using assms(2,3)
proof (induction ht arbitrary: md)
  case Nil
  show ?case by simp
next
  case (Cons e ht)
  obtain key val where e: "e = (key, val)" by fastforce
  from Cons.prems e obtain k vs where kv: "array_key_to_string Z key = Some k" "zv_array Z val = Some vs"
    "list_all (\<lambda>iv. zv_zend_str Z (snd iv) \<noteq> None) vs"
    by (auto simp: send_entry_ok_def split: option.splits)
  have "parse_values Z k vs md = md @ send_entry_pairs Z e"
    using Cons.prems(2) kv e
    by (subst parse_values_utf8 [OF assms(1)])
      (fastforce simp: entry_utf8_def list_all_iff send_entry_pairs_def)+
  with Cons kv e show ?case by simp
qed

text \<open>
  The two parsers agree where both apply: whatever the strict parser accepts,
  if its values are UTF-8, the lenient parser used for credential plugins reads
  as the same pairs.
\<close>

theorem parsers_agree:
  assumes "text_accessor Z" and "parse_send_metadata Z ht = Inr md" and "list_all (entry_utf8 Z) ht"
  shows "parse_metadata Z ht = md"
proof -
  have "list_all (send_entry_ok Z) ht" and "md = concat (map (send_entry_pairs Z) ht)"
    using assms(2) by (simp_all add: parse_send_metadata_def parse_send_loop_eq split: if_splits)
  then show ?thesis
    using parse_loop_strict [OF assms(1) _ assms(3), of "[]"] by (simp add: parse_metadata_def)
qed

theorem parsers_agree_witness:
  "parse_metadata plain_php [(Key_Str ''k'', Z_Array [(Key_Long 0, Z_Str ''a''), (Key_Long 1, Z_Str ''b'')])]
     = [(''k'', ''a''), (''k'', ''b'')]"
proof -
  let ?ht = "[(Key_Str ''k'', Z_Array [(Key_Long 0, Z_Str ''a''), (Key_Long 1, Z_Str ''b'')])]"
  have law: "text_accessor plain_php"
    by (auto simp: text_accessor_def plain_php_def split: zval.split)
  have strict: "parse_send_metadata plain_php ?ht = Inr [(''k'', ''a''), (''k'', ''b'')]"
    by (simp add: parse_send_metadata_def array_key_to_string_def header_key_is_legal_def
        header_byte_ok_def Let_def utf8_step_def utf8_width_def)
  have utf8: "list_all (entry_utf8 plain_php) ?ht"
    by (auto simp: entry_utf8_def utf8_step_def utf8_width_def Let_def)
  show ?thesis by (rule parsers_agree [OF law strict utf8])
qed

text \<open>
  An operation key means the same operation whether PHP stored it as an
  integer or as its decimal text.
\<close>

theorem array_key_to_long_decimal:
  "array_key_to_long Z (Key_String (int_dec (sint n))) = array_key_to_long Z (Key_Long n)
   \<and> array_key_to_long Z (Key_Str (int_dec (sint n))) = array_key_to_long Z (Key_Long n)"
  by (simp add: array_key_to_long_def parse_i64_int_dec)

section \<open>Rich status details\<close>

text \<open>
  C25. Rich status details survive: for a status with details, PHP's trailing
  metadata holds exactly the decoded details under \<open>grpc-status-details-bin\<close>, and
  every other key keeps its values; the details key is never filtered.
\<close>

theorem status_details_reinjected:
  assumes "md_laws M" and "st_details st \<noteq> []"
  shows "group_of ''grpc-status-details-bin'' (collect_metadata M (status_metadata_for_php M st))
       = [st_details st]
     \<and> \<not> is_reserved_header ''grpc-status-details-bin''
     \<and> (k \<noteq> ''grpc-status-details-bin'' \<longrightarrow>
         group_of k (collect_metadata M (status_metadata_for_php M st))
         = group_of k (collect_metadata M (st_metadata st)))"
  using assms
  by (simp add: status_metadata_for_php_def group_collect md_laws_def map_filter_simps kv_bytes_def
      is_reserved_header_def)

theorem status_details_reinjected_witness:
  "group_of ''grpc-status-details-bin'' (collect_metadata list_md
     (status_metadata_for_php list_md \<lparr>st_code = 13, st_message = ''m'', st_metadata = [Ascii ''a'' ''1''],
        st_details = ''xyz''\<rparr>)) = [''xyz'']"
  using status_details_reinjected [OF md_laws_list, of
      "\<lparr>st_code = 13, st_message = ''m'', st_metadata = [Ascii ''a'' ''1''], st_details = ''xyz''\<rparr>" "''a''"]
  by simp

section \<open>Metadata on the wire\<close>

definition accepted_values :: "('m, 'v) md_api \<Rightarrow> string \<Rightarrow> (string \<times> string) list \<Rightarrow> 'v list" where
  "accepted_values M k kvs = List.map_filter
     (\<lambda>kv. if mk_from_bytes M (fst kv) = Some k then mv_parse M (snd kv) else None) kvs"



end
