(* ===== verification/Deadline.thy ===== *)
theory Deadline
  imports Timeval Metadata
begin

text \<open>
  Deadlines of a call (\<open>call.rs\<close>): the wall clock, the local expiry check, the
  instant every await races against, the timeout put into a request, and the
  mapping of a tonic status onto the code and message that PHP sees.
\<close>

definition now_usec :: "clock_reading \<Rightarrow> i64" where
  "now_usec r = (case r of BeforeEpoch e \<Rightarrow> 0 | SinceEpoch n \<Rightarrow> of_nat n)"

record 'm stream_trailers =
  tr_code :: int
  tr_message :: string
  tr_metadata :: 'm

text \<open>The distance of the deadline from the current instant, in microseconds.\<close>

definition deadline_instant :: "clock_reading \<Rightarrow> i64 \<Rightarrow> nat" where
  "deadline_instant r deadline_usec =
     (if sint deadline_usec \<le> 0 \<or> deadline_usec = i64_max then 86400 * 365 * 30 * 1000000
      else unat (i64_max_of (saturating_sub deadline_usec (now_usec r)) 0))"

definition deadline_exceeded_trailers :: "('m, 'v) md_api \<Rightarrow> 'm stream_trailers" where
  "deadline_exceeded_trailers M =
     \<lparr>tr_code = 4, tr_message = ''Deadline Exceeded'', tr_metadata = md_default M\<rparr>"

definition deadline_already_expired :: "clock_reading \<Rightarrow> i64 \<Rightarrow> bool" where
  "deadline_already_expired r deadline_usec \<longleftrightarrow>
     sint deadline_usec > 0 \<and> sint deadline_usec < sint i64_max
     \<and> sint deadline_usec \<le> sint (now_usec r)"

definition status_to_php :: "clock_reading \<Rightarrow> 'm tonic_status \<Rightarrow> i64 \<Rightarrow> int \<times> string" where
  "status_to_php r st deadline_usec =
     (let code = st_code st;
          deadline_set = sint deadline_usec > 0 \<and> sint deadline_usec < sint i64_max in
      if code = 1 \<and> deadline_set \<and> sint (now_usec r) \<ge> sint deadline_usec
      then (4, ''Deadline Exceeded'')
      else if code = 2 \<and> st_message st = ''transport error''
      then (14, ''transport error'')
      else (code, st_message st))"

definition request_timeout :: "clock_reading \<Rightarrow> i64 \<Rightarrow> nat option" where
  "request_timeout r deadline_usec =
     (if sint deadline_usec < sint i64_max \<and> sint deadline_usec > 0
      then Some (unat (i64_max_of (saturating_sub deadline_usec (now_usec r)) 1))
      else None)"

text \<open>A tonic request: its message (or request stream), metadata and timeout.\<close>

record ('b, 'm) tonic_request =
  rq_message :: 'b
  rq_metadata :: 'm
  rq_timeout :: "nat option"

definition build_request ::
  "('m, 'v) md_api \<Rightarrow> clock_reading \<Rightarrow> (string \<times> string) list \<Rightarrow> (string \<times> string) list
     \<Rightarrow> 'b \<Rightarrow> i64 \<Rightarrow> ('b, 'm) tonic_request" where
  "build_request M r send_metadata plugin_metadata message deadline_usec =
     \<lparr>rq_message = message,
      rq_metadata = apply_metadata M plugin_metadata (apply_metadata M send_metadata (md_default M)),
      rq_timeout = request_timeout r deadline_usec\<rparr>"

section \<open>Signed reading\<close>

definition real_deadline :: "i64 \<Rightarrow> bool" where
  "real_deadline d \<longleftrightarrow> 0 < sint d \<and> sint d < i64_max_int"

lemma real_deadline_iff: "real_deadline d \<longleftrightarrow> sint d > 0 \<and> d \<noteq> i64_max"
  using i64_bounds(2) [of d] by (auto simp: real_deadline_def i64_eq_max_iff)

lemma deadline_instant_far:
  "\<not> real_deadline d \<Longrightarrow> deadline_instant r d = 86400 * 365 * 30 * 1000000"
  by (auto simp: deadline_instant_def real_deadline_iff)

lemma deadline_instant_real:
  "real_deadline d \<Longrightarrow>
     int (deadline_instant r d) = max 0 (min i64_max_int (sint d - sint (now_usec r)))"
  by (auto simp: deadline_instant_def real_deadline_iff unat_eq_nat_sint i64_arith)

lemma request_timeout_real:
  "real_deadline d \<Longrightarrow> request_timeout r d = Some t \<Longrightarrow>
     int t = max 1 (min i64_max_int (sint d - sint (now_usec r)))"
  by (auto simp: request_timeout_def real_deadline_def unat_eq_nat_sint i64_arith)

lemma request_timeout_None: "request_timeout r d = None \<longleftrightarrow> \<not> real_deadline d"
  by (auto simp: request_timeout_def real_deadline_def)

lemma expired_iff:
  "deadline_already_expired r d \<longleftrightarrow> real_deadline d \<and> sint d \<le> sint (now_usec r)"
  by (auto simp: deadline_already_expired_def real_deadline_def)

lemma now_usec_span_base:
  "r = SinceEpoch n \<Longrightarrow> int n \<le> i64_max_int \<Longrightarrow> now_usec r = span_base r"
  by (simp add: now_usec_def span_base_def i64_try_from_def)

section \<open>Properties\<close>



text \<open>
  C14. A deadline bounds the whole call: the race instant and the timeout put into
  the request both end at the deadline (the timeout never below one microsecond),
  with no wrap-around, and without a real deadline the request carries no timeout
  and the race is thirty years away.
\<close>

theorem deadline_bounds_call:
  "(if real_deadline d
    then int (deadline_instant r d) = max 0 (min i64_max_int (sint d - sint (now_usec r)))
      \<and> (\<exists>t. request_timeout r d = Some t \<and> t = max 1 (deadline_instant r d))
    else request_timeout r d = None \<and> deadline_instant r d = 946080000000000)"
proof (cases "real_deadline d")
  case True
  then obtain t where t: "request_timeout r d = Some t"
    using request_timeout_None [of r d] by auto
  then have "t = max 1 (deadline_instant r d)"
    using request_timeout_real [OF True t] deadline_instant_real [OF True, of r] by linarith
  with True t show ?thesis by (simp add: deadline_instant_real)
next
  case False
  then show ?thesis by (simp add: request_timeout_None deadline_instant_far)
qed

text \<open>
  A positive span used as a deadline is never expired at the clock reading it
  was resolved against, and a span of zero or less (that stays after the epoch)
  always is.
\<close>

theorem span_deadline_expiry:
  assumes "r = SinceEpoch n" and "int n \<le> i64_max_int"
    and "is_span tv" and "\<not> infinite_usec (usec tv)" and "0 < int n + sint (usec tv)"
  shows "deadline_already_expired r (to_absolute_usec r tv) \<longleftrightarrow>
     sint (usec tv) \<le> 0 \<and> int n + sint (usec tv) < i64_max_int"
proof -
  have now: "sint (now_usec r) = int n"
    using assms(1,2) by (simp add: now_usec_def sint_of_nat_i64)
  then have base: "sint (span_base r) = int n"
    using now_usec_span_base [OF assms(1,2)] by simp
  have "sint (to_absolute_usec r tv) = max i64_min_int (min i64_max_int (int n + sint (usec tv)))"
    using assms(3,4) base
    by (simp add: to_absolute_usec_def infinite_usec_def sint_saturating_add)
  then show ?thesis
    using assms(5) now by (auto simp: expired_iff real_deadline_def)
qed

theorem span_deadline_expiry_witness:
  "\<not> deadline_already_expired (SinceEpoch 1000)
      (to_absolute_usec (SinceEpoch 1000) \<lparr>usec = 5, is_span = True\<rparr>)
   \<and> deadline_already_expired (SinceEpoch 1000)
      (to_absolute_usec (SinceEpoch 1000) \<lparr>usec = -5, is_span = True\<rparr>)"
  using span_deadline_expiry [OF refl, of 1000 "\<lparr>usec = 5, is_span = True\<rparr>"]
    span_deadline_expiry [OF refl, of 1000 "\<lparr>usec = -5, is_span = True\<rparr>"]
  by (simp add: infinite_usec_iff)

text \<open>
  C40. The infinite past is not treated as an expired deadline: such a call is not
  failed locally, carries no timeout, and races against no deadline.
\<close>

theorem inf_past_has_no_deadline:
  "\<not> deadline_already_expired r (to_absolute_usec r' inf_past)
   \<and> request_timeout r (to_absolute_usec r' inf_past) = None
   \<and> deadline_instant r (to_absolute_usec r' inf_past) = 946080000000000"
proof -
  have "to_absolute_usec r' inf_past = i64_min"
    by (simp add: to_absolute_usec_def inf_past_def)
  moreover have "\<not> real_deadline i64_min" by (simp add: real_deadline_def)
  ultimately show ?thesis
    by (simp add: expired_iff request_timeout_None deadline_instant_far)
qed

end
