(* ===== verification/Store.thy ===== *)
theory Store
  imports Runtime
begin

text \<open>
  State that several PHP objects share. The extension's \<open>Arc\<close> cells are addresses
  in a store: the transport handles with their connectivity state
  (\<open>SharedChannel\<close>), the closed flags observed by calls, the credential plugin
  cells, the persistent channel registry, and the process-wide statics. A TLS
  configuration and an endpoint are the sequence of builder calls made on them.
\<close>

section \<open>Connectivity states\<close>

definition CHANNEL_IDLE :: i64 where "CHANNEL_IDLE = 0"
definition CHANNEL_CONNECTING :: i64 where "CHANNEL_CONNECTING = 1"
definition CHANNEL_READY :: i64 where "CHANNEL_READY = 2"
definition CHANNEL_TRANSIENT_FAILURE :: i64 where "CHANNEL_TRANSIENT_FAILURE = 3"

lemmas channel_states =
  CHANNEL_IDLE_def CHANNEL_CONNECTING_def CHANNEL_READY_def CHANNEL_TRANSIENT_FAILURE_def

section \<open>Builders\<close>

datatype tls_call =
    With_webpki_roots
  | Ca_certificate string
  | Tls_identity string string
  | Domain_name string

type_synonym tls_config = "tls_call list"

datatype endpoint_call =
    Keep_alive_interval nat
  | Keep_alive_timeout nat
  | Max_frame_size nat
  | Initial_stream_window_size nat
  | Initial_connection_window_size nat
  | Adaptive_window bool
  | User_agent string
  | Use_tls tls_config
  | Connect_timeout nat

record endpoint =
  ep_uri :: string
  ep_calls :: "endpoint_call list"

section \<open>The store\<close>

record shared_channel =
  sc_channel :: endpoint
  sc_state :: i64

record 'z store =
  st_rt :: rt_globals
  st_shared :: "nat \<Rightarrow> shared_channel option"
  st_flag :: "nat \<Rightarrow> bool"
  st_plugin :: "nat \<Rightarrow> 'z option"
  st_registry :: "string \<Rightarrow> nat option"
  st_next :: nat
  st_roots_pem :: "string option"
  st_next_cred :: u64

definition empty_store :: "'z store" where
  "empty_store = \<lparr>st_rt = rt_empty, st_shared = (\<lambda>_. None), st_flag = (\<lambda>_. False),
     st_plugin = (\<lambda>_. None), st_registry = (\<lambda>_. None), st_next = 0,
     st_roots_pem = None, st_next_cred = 1\<rparr>"

text \<open>Writing the connectivity state through a shared handle.\<close>

definition set_conn_state :: "nat \<Rightarrow> i64 \<Rightarrow> 'z store \<Rightarrow> 'z store" where
  "set_conn_state a v h =
     (case st_shared h a of
        None \<Rightarrow> h
      | Some sc \<Rightarrow> h\<lparr>st_shared := (st_shared h)(a \<mapsto> sc\<lparr>sc_state := v\<rparr>)\<rparr>)"

definition conn_state :: "'z store \<Rightarrow> nat \<Rightarrow> i64 option" where
  "conn_state h a = map_option sc_state (st_shared h a)"

text \<open>\<open>get_runtime\<close> and \<open>pump\<close> on the statics of the store.\<close>

definition store_runtime :: "rt_env \<Rightarrow> 'z store \<Rightarrow> (grpc_error + nat) \<times> 'z store" where
  "store_runtime E h = (case get_runtime E (st_rt h) of (r, g) \<Rightarrow> (r, h\<lparr>st_rt := g\<rparr>))"

definition store_pump :: "rt_env \<Rightarrow> 'z store \<Rightarrow> (grpc_error + nat) \<times> 'z store" where
  "store_pump E h = (case pump E (st_rt h) of (r, g) \<Rightarrow> (r, h\<lparr>st_rt := g\<rparr>))"

section \<open>Frame lemmas\<close>

lemma conn_state_set:
  "conn_state (set_conn_state a v h) b =
     (if b = a \<and> st_shared h a \<noteq> None then Some v else conn_state h b)"
  by (auto simp: conn_state_def set_conn_state_def split: option.split)

lemma set_conn_state_frame [simp]:
  "st_rt (set_conn_state a v h) = st_rt h"
  "st_flag (set_conn_state a v h) = st_flag h"
  "st_plugin (set_conn_state a v h) = st_plugin h"
  "st_registry (set_conn_state a v h) = st_registry h"
  "st_next (set_conn_state a v h) = st_next h"
  "st_roots_pem (set_conn_state a v h) = st_roots_pem h"
  "st_next_cred (set_conn_state a v h) = st_next_cred h"
  by (simp_all add: set_conn_state_def split: option.split)

lemma dom_shared_set_conn_state [simp]: "dom (st_shared (set_conn_state a v h)) = dom (st_shared h)"
  by (auto simp: set_conn_state_def split: option.split)

lemma store_runtime_frame:
  assumes "store_runtime E h = (r, h')"
  shows "h' = h\<lparr>st_rt := st_rt h'\<rparr>"
  using assms by (auto simp: store_runtime_def split: prod.splits)

lemma store_pump_frame:
  assumes "store_pump E h = (r, h')"
  shows "h' = h\<lparr>st_rt := st_rt h'\<rparr>"
  using assms by (auto simp: store_pump_def split: prod.splits)

end
