(* ===== verification/Stream_Driver.thy ===== *)
theory Stream_Driver
  imports Deadline Store
begin

text \<open>
  The background tasks that drive a response stream (\<open>call.rs\<close>, the bodies
  spawned by \<open>start_server_stream\<close> and \<open>start_bidi_stream\<close>). What the network does
  is an argument: whether the connection became ready, how the request was
  answered, and the sequence of events the select loop sees. The result is the
  sequence of effects the task performs, and whether it has returned.
\<close>

section \<open>What the network does\<close>

datatype 'm ready_outcome = Ready_Ok | Ready_Err "'m tonic_status" | Ready_Elapsed

text \<open>
  An error answer carries the clock reading taken when it is mapped for PHP; an
  opened stream carries the response headers.
\<close>

datatype 'm open_outcome =
    Open_Elapsed
  | Open_Err "'m tonic_status" clock_reading
  | Open_Ok 'm

text \<open>
  One turn of the select loop: a message (and whether the reader still holds its
  end of the channel when it is sent), the end of the stream with what reading
  the trailers gave, a status, the cancellation token, or the deadline timer.
\<close>

datatype 'm stream_event =
    Ev_Message bytes bool
  | Ev_End "'m option option"
  | Ev_Error "'m tonic_status" clock_reading
  | Ev_Cancelled
  | Ev_Deadline

section \<open>What the task does\<close>

text \<open>An item on the message channel: \<open>Result<Option<Bytes>, Status>\<close>.\<close>

type_synonym 'm stream_item = "'m tonic_status + bytes option"

datatype 'm action =
    Write_State i64
  | Send_Meta 'm
  | Send_Msg "'m stream_item"
  | Send_Trailers "'m stream_trailers"

definition STREAM_MSG_BUFFER :: nat where
  "STREAM_MSG_BUFFER = 32"

text \<open>The sentinel followed by the trailers, with which every orderly end closes.\<close>

abbreviation finish_with :: "'m stream_trailers \<Rightarrow> 'm action list" where
  "finish_with t \<equiv> [Send_Msg (Inr None), Send_Trailers t]"

definition status_trailers ::
  "('m, 'v) md_api \<Rightarrow> i64 \<Rightarrow> 'm tonic_status \<Rightarrow> clock_reading \<Rightarrow> 'm stream_trailers" where
  "status_trailers M deadline_usec st r =
     (case status_to_php r st deadline_usec of (code, message) \<Rightarrow>
        \<lparr>tr_code = code, tr_message = message, tr_metadata = status_metadata_for_php M st\<rparr>)"

fun drive_loop ::
  "('m, 'v) md_api \<Rightarrow> i64 \<Rightarrow> 'm stream_event list \<Rightarrow> 'm action list \<times> bool" where
  "drive_loop M d [] = ([], False)"
| "drive_loop M d (Ev_Message b accepted # es) =
     (if accepted then (case drive_loop M d es of (acts, done) \<Rightarrow> (Send_Msg (Inr (Some b)) # acts, done))
      else ([], True))"
| "drive_loop M d (Ev_End tr # es) =
     (finish_with \<lparr>tr_code = 0, tr_message = [],
        tr_metadata = unwrap_or (md_default M) (unwrap_or None tr)\<rparr>, True)"
| "drive_loop M d (Ev_Error st r # es) = (finish_with (status_trailers M d st r), True)"
| "drive_loop M d (Ev_Cancelled # es) =
     (finish_with \<lparr>tr_code = 1, tr_message = ''Call cancelled'', tr_metadata = md_default M\<rparr>, True)"
| "drive_loop M d (Ev_Deadline # es) = (finish_with (deadline_exceeded_trailers M), True)"

text \<open>Once the call was answered, the shared connectivity state is updated.\<close>

definition answer_state :: "bool \<Rightarrow> 'm open_outcome \<Rightarrow> 'm action list" where
  "answer_state has_shared opened =
     (if \<not> has_shared then []
      else (case opened of
              Open_Err st r \<Rightarrow> [Write_State (if st_code st = 14 then CHANNEL_TRANSIENT_FAILURE else CHANNEL_READY)]
            | _ \<Rightarrow> [Write_State CHANNEL_READY]))"

definition server_stream_task ::
  "('m, 'v) md_api \<Rightarrow> i64 \<Rightarrow> bool \<Rightarrow> 'm ready_outcome \<Rightarrow> 'm open_outcome \<Rightarrow> 'm stream_event list
     \<Rightarrow> 'm action list \<times> bool" where
  "server_stream_task M d has_shared ready server_streaming events =
     (case ready of
        Ready_Err st \<Rightarrow> ([Send_Meta (md_default M), Send_Msg (Inl st)], True)
      | Ready_Elapsed \<Rightarrow> (Send_Meta (md_default M) # finish_with (deadline_exceeded_trailers M), True)
      | Ready_Ok \<Rightarrow>
          (case server_streaming of
             Open_Elapsed \<Rightarrow> (Send_Meta (md_default M) # finish_with (deadline_exceeded_trailers M), True)
           | Open_Err st r \<Rightarrow>
               (answer_state has_shared server_streaming @ Send_Meta (md_default M)
                  # finish_with (status_trailers M d st r), True)
           | Open_Ok initial_md \<Rightarrow>
               (case drive_loop M d events of (acts, done) \<Rightarrow>
                  (answer_state has_shared server_streaming @ Send_Meta initial_md # acts, done))))"

definition bidi_stream_task ::
  "('m, 'v) md_api \<Rightarrow> i64 \<Rightarrow> bool \<Rightarrow> 'm ready_outcome \<Rightarrow> 'm open_outcome \<Rightarrow> 'm stream_event list
     \<Rightarrow> 'm action list \<times> bool" where
  "bidi_stream_task M d has_shared ready streaming events =
     (case ready of
        Ready_Ok \<Rightarrow>
          (case streaming of
             Open_Ok initial_md \<Rightarrow>
               (let (acts, done) = drive_loop M d events in
                  (answer_state has_shared (Open_Ok initial_md) @ [Send_Meta initial_md] @ acts, done))
           | Open_Err st r \<Rightarrow>
               (answer_state has_shared (Open_Err st r)
                  @ [Send_Meta (md_default M), Send_Msg (Inr None), Send_Trailers (status_trailers M d st r)], True)
           | Open_Elapsed \<Rightarrow>
               ([Send_Meta (md_default M), Send_Msg (Inr None),
                 Send_Trailers (deadline_exceeded_trailers M)], True))
      | Ready_Err st \<Rightarrow> ([Send_Meta (md_default M), Send_Msg (Inl st)], True)
      | Ready_Elapsed \<Rightarrow>
          ([Send_Meta (md_default M), Send_Msg (Inr None), Send_Trailers (deadline_exceeded_trailers M)], True))"

section \<open>What the reader will be handed\<close>

definition sent_metas :: "'m action list \<Rightarrow> 'm list" where
  "sent_metas acts = List.map_filter (\<lambda>a. case a of Send_Meta m \<Rightarrow> Some m | _ \<Rightarrow> None) acts"

definition sent_msgs :: "'m action list \<Rightarrow> 'm stream_item list" where
  "sent_msgs acts = List.map_filter (\<lambda>a. case a of Send_Msg i \<Rightarrow> Some i | _ \<Rightarrow> None) acts"

definition sent_trailers :: "'m action list \<Rightarrow> 'm stream_trailers list" where
  "sent_trailers acts = List.map_filter (\<lambda>a. case a of Send_Trailers t \<Rightarrow> Some t | _ \<Rightarrow> None) acts"

definition written_states :: "'m action list \<Rightarrow> i64 list" where
  "written_states acts = List.map_filter (\<lambda>a. case a of Write_State s \<Rightarrow> Some s | _ \<Rightarrow> None) acts"

lemmas sent_defs = sent_metas_def sent_msgs_def sent_trailers_def written_states_def map_filter_simps

text \<open>The messages an event sequence delivers before the stream ends.\<close>

fun delivered :: "'m stream_event list \<Rightarrow> bytes list" where
  "delivered (Ev_Message b True # es) = b # delivered es"
| "delivered es = []"

text \<open>The event that ends the loop, if the sequence reaches one.\<close>

fun loop_end :: "'m stream_event list \<Rightarrow> 'm stream_event option" where
  "loop_end [] = None"
| "loop_end (Ev_Message b True # es) = loop_end es"
| "loop_end (e # es) = Some e"

definition end_trailers :: "('m, 'v) md_api \<Rightarrow> i64 \<Rightarrow> 'm stream_event \<Rightarrow> 'm stream_trailers option" where
  "end_trailers M d e =
     (case e of
        Ev_Message b acc \<Rightarrow> None
      | Ev_End tr \<Rightarrow> Some \<lparr>tr_code = 0, tr_message = [],
          tr_metadata = unwrap_or (md_default M) (unwrap_or None tr)\<rparr>
      | Ev_Error st r \<Rightarrow> Some (status_trailers M d st r)
      | Ev_Cancelled \<Rightarrow> Some \<lparr>tr_code = 1, tr_message = ''Call cancelled'', tr_metadata = md_default M\<rparr>
      | Ev_Deadline \<Rightarrow> Some (deadline_exceeded_trailers M))"

lemma drive_loop_spec:
  "drive_loop M d es =
     (map (\<lambda>b. Send_Msg (Inr (Some b))) (delivered es)
        @ (case loop_end es of None \<Rightarrow> []
           | Some e \<Rightarrow> (case end_trailers M d e of None \<Rightarrow> [] | Some t \<Rightarrow> finish_with t)),
      loop_end es \<noteq> None)"
  by (induction M d es rule: drive_loop.induct) (auto simp: end_trailers_def)

lemma sent_msgs_map [simp]:
  "sent_msgs (map (\<lambda>b. Send_Msg (f b)) bs) = map f bs"
  "sent_metas (map (\<lambda>b. Send_Msg (f b)) bs) = []"
  "sent_trailers (map (\<lambda>b. Send_Msg (f b)) bs) = []"
  "written_states (map (\<lambda>b. Send_Msg (f b)) bs) = []"
  by (induction bs) (simp_all add: sent_defs)

lemma sent_append [simp]:
  "sent_msgs (xs @ ys) = sent_msgs xs @ sent_msgs ys"
  "sent_metas (xs @ ys) = sent_metas xs @ sent_metas ys"
  "sent_trailers (xs @ ys) = sent_trailers xs @ sent_trailers ys"
  "written_states (xs @ ys) = written_states xs @ written_states ys"
  by (simp_all add: sent_metas_def sent_msgs_def sent_trailers_def written_states_def
      List.map_filter_def)

lemma sent_simps [simp]:
  "sent_msgs [] = []" "sent_metas [] = []" "sent_trailers [] = []" "written_states [] = []"
  "sent_msgs (a # as) = (case a of Send_Msg i \<Rightarrow> i # sent_msgs as | _ \<Rightarrow> sent_msgs as)"
  "sent_metas (a # as) = (case a of Send_Meta i \<Rightarrow> i # sent_metas as | _ \<Rightarrow> sent_metas as)"
  "sent_trailers (a # as) = (case a of Send_Trailers i \<Rightarrow> i # sent_trailers as | _ \<Rightarrow> sent_trailers as)"
  "written_states (a # as) = (case a of Write_State i \<Rightarrow> i # written_states as | _ \<Rightarrow> written_states as)"
  by (simp_all add: sent_defs split: action.split)

lemma sent_answer_state [simp]:
  "sent_msgs (answer_state hs op) = []" "sent_metas (answer_state hs op) = []"
  "sent_trailers (answer_state hs op) = []"
  by (simp_all add: answer_state_def split: open_outcome.split)

lemma written_answer_state:
  "written_states (answer_state hs op) = (if hs then
     [case op of Open_Err st r \<Rightarrow> if st_code st = 14 then CHANNEL_TRANSIENT_FAILURE else CHANNEL_READY
        | _ \<Rightarrow> CHANNEL_READY] else [])"
  by (simp add: answer_state_def split: open_outcome.split)

section \<open>What a task promises\<close>

definition task_headers :: "('m, 'v) md_api \<Rightarrow> 'm ready_outcome \<Rightarrow> 'm open_outcome \<Rightarrow> 'm" where
  "task_headers M ready opened =
     (case ready of Ready_Ok \<Rightarrow> (case opened of Open_Ok md \<Rightarrow> md | _ \<Rightarrow> md_default M) | _ \<Rightarrow> md_default M)"

definition task_messages :: "'m ready_outcome \<Rightarrow> 'm open_outcome \<Rightarrow> 'm stream_event list \<Rightarrow> bytes list" where
  "task_messages ready opened events =
     (case ready of Ready_Ok \<Rightarrow> (case opened of Open_Ok md \<Rightarrow> delivered events | _ \<Rightarrow> []) | _ \<Rightarrow> [])"

definition task_trailers ::
  "('m, 'v) md_api \<Rightarrow> i64 \<Rightarrow> 'm ready_outcome \<Rightarrow> 'm open_outcome \<Rightarrow> 'm stream_event list
     \<Rightarrow> 'm stream_trailers option" where
  "task_trailers M d ready opened events =
     (case ready of
        Ready_Err st \<Rightarrow> None
      | Ready_Elapsed \<Rightarrow> Some (deadline_exceeded_trailers M)
      | Ready_Ok \<Rightarrow>
          (case opened of
             Open_Elapsed \<Rightarrow> Some (deadline_exceeded_trailers M)
           | Open_Err st r \<Rightarrow> Some (status_trailers M d st r)
           | Open_Ok md \<Rightarrow> (case loop_end events of None \<Rightarrow> None | Some e \<Rightarrow> end_trailers M d e)))"

text \<open>What reaches the reader of a task that ends with a status.\<close>

lemma task_deliveries:
  assumes "task_trailers M d ready opened events = Some t"
  shows "sent_msgs (fst (server_stream_task M d has_shared ready opened events))
      = map (\<lambda>b. Inr (Some b)) (task_messages ready opened events) @ [Inr None]"
    and "sent_trailers (fst (server_stream_task M d has_shared ready opened events)) = [t]"
    and "sent_metas (fst (server_stream_task M d has_shared ready opened events))
      = [task_headers M ready opened]"
  using assms
  by (auto simp: server_stream_task_def task_trailers_def task_headers_def task_messages_def
      drive_loop_spec split: ready_outcome.splits open_outcome.splits option.splits)

text \<open>
  C9. A task that ends with a status follows the stream protocol: it hands over
  the response headers exactly once, then the body messages in the order
  received, then one end-of-stream sentinel, and only after it the trailers; and
  it has returned.
\<close>

theorem stream_task_protocol:
  assumes "task_trailers M d ready opened events = Some t"
  shows "\<exists>pre. server_stream_task M d has_shared ready opened events = (pre @ finish_with t, True)
     \<and> sent_metas pre = [task_headers M ready opened]
     \<and> sent_msgs pre = map (\<lambda>b. Inr (Some b)) (task_messages ready opened events)
     \<and> sent_trailers pre = []"
proof (cases ready)
  case Ready_Ok
  show ?thesis
  proof (cases opened)
    case Open_Elapsed
    with Ready_Ok assms show ?thesis
      by (intro exI [of _ "[Send_Meta (md_default M)]"])
        (simp add: server_stream_task_def task_trailers_def task_headers_def task_messages_def)
  next
    case (Open_Err st r)
    with Ready_Ok assms show ?thesis
      by (intro exI [of _ "answer_state has_shared opened @ [Send_Meta (md_default M)]"])
        (simp add: server_stream_task_def task_trailers_def task_headers_def task_messages_def)
  next
    case (Open_Ok md)
    with Ready_Ok assms show ?thesis
      by (intro exI [of _ "answer_state has_shared opened @ Send_Meta md
            # map (\<lambda>b. Send_Msg (Inr (Some b))) (delivered events)"])
        (auto simp: server_stream_task_def task_trailers_def task_headers_def task_messages_def
          drive_loop_spec split: option.splits)
  qed
next
  case (Ready_Err st)
  with assms show ?thesis by (simp add: task_trailers_def)
next
  case Ready_Elapsed
  with assms show ?thesis
    by (intro exI [of _ "[Send_Meta (md_default M)]"])
      (simp add: server_stream_task_def task_trailers_def task_headers_def task_messages_def)
qed

theorem stream_task_protocol_witness:
  "\<exists>pre. server_stream_task list_md 0 True Ready_Ok (Open_Ok [])
       [Ev_Message ''a'' True, Ev_Message ''b'' True, Ev_Cancelled]
     = (pre @ finish_with \<lparr>tr_code = 1, tr_message = ''Call cancelled'', tr_metadata = []\<rparr>, True)
     \<and> sent_metas pre = [[]] \<and> sent_msgs pre = [Inr (Some ''a''), Inr (Some ''b'')]
     \<and> sent_trailers pre = []"
  using stream_task_protocol [of list_md 0 Ready_Ok "Open_Ok []"
      "[Ev_Message ''a'' True, Ev_Message ''b'' True, Ev_Cancelled]" _ True]
  by (simp add: task_trailers_def task_headers_def task_messages_def end_trailers_def list_md_def)

text \<open>
  Server-streaming and bidirectional calls are driven alike: fed the same
  network behaviour, both tasks perform the same effects in the same order.
\<close>

lemma stream_tasks_agree:
  "bidi_stream_task M d has_shared ready opened events
     = server_stream_task M d has_shared ready opened events"
  by (simp add: bidi_stream_task_def server_stream_task_def split: ready_outcome.split open_outcome.split)


end
