(* ===== verification/Stream_Reader.thy ===== *)
theory Stream_Reader
  imports Stream_Driver
begin

text \<open>
  The PHP side of a stream (\<open>call.rs\<close>): the state kept across \<open>startBatch\<close> calls
  and the reading of initial metadata, messages and the final status from it.
  The channels to the driver task are tokio's: their content is a value of a
  type parameter \<open>'w\<close>, the operations on it are the fields of a record, and the
  contract they keep is the locale \<open>stream_channel\<close>.
\<close>

section \<open>tokio's channels\<close>

datatype 'm try_result = Try_Ok "'m stream_item" | Try_Empty | Try_Disconnected

datatype 'm select_result =
    Sel_Trailers "'m stream_trailers option"
  | Sel_Msg "'m stream_item option"

record ('w, 'm) tokio =
  tk_spawn :: "'m action list \<Rightarrow> 'w"
  tk_closed :: 'w
  tk_try_recv :: "'w \<Rightarrow> 'm try_result \<times> 'w"
  tk_recv :: "'w \<Rightarrow> 'm stream_item option \<times> 'w"
  tk_meta :: "'w \<Rightarrow> 'm option \<times> 'w"
  tk_trailers :: "'w \<Rightarrow> 'm stream_trailers option \<times> 'w"
  tk_select :: "'w \<Rightarrow> 'm select_result \<times> 'w"
  tk_send :: "'w \<Rightarrow> bytes \<Rightarrow> bool \<times> 'w"
  tk_drop_sender :: "'w \<Rightarrow> 'w"

section \<open>The active stream\<close>

text \<open>
  The channel halves that the code holds in options (\<open>msg_tx\<close>, \<open>meta_rx\<close>,
  \<open>trailers_rx\<close>) are flags saying whether the half is still held.
\<close>

record ('w, 'm) active_stream =
  as_msg_tx :: bool
  as_chan :: 'w
  as_initial_metadata :: "'m option"
  as_meta_rx :: bool
  as_cached_trailers :: "'m stream_trailers option"
  as_trailers_rx :: bool

definition expired_stream_state :: "('m, 'v) md_api \<Rightarrow> ('w, 'm) tokio \<Rightarrow> ('w, 'm) active_stream" where
  "expired_stream_state M T =
     \<lparr>as_msg_tx = False, as_chan = tk_closed T, as_initial_metadata = None, as_meta_rx = False,
      as_cached_trailers = Some \<lparr>tr_code = 4, tr_message = ''Deadline Exceeded'', tr_metadata = md_default M\<rparr>,
      as_trailers_rx = False\<rparr>"

definition server_stream_state :: "('w, 'm) tokio \<Rightarrow> 'm action list \<Rightarrow> ('w, 'm) active_stream" where
  "server_stream_state T acts =
     \<lparr>as_msg_tx = False, as_chan = tk_spawn T acts, as_initial_metadata = None, as_meta_rx = True,
      as_cached_trailers = None, as_trailers_rx = True\<rparr>"

definition bidi_stream_state :: "('w, 'm) tokio \<Rightarrow> 'm action list \<Rightarrow> ('w, 'm) active_stream" where
  "bidi_stream_state T acts =
     \<lparr>as_msg_tx = True, as_chan = tk_spawn T acts, as_initial_metadata = None, as_meta_rx = True,
      as_cached_trailers = None, as_trailers_rx = True\<rparr>"

section \<open>Reading\<close>

definition set_property :: "'z php \<Rightarrow> string \<Rightarrow> php_obj \<Rightarrow> string \<Rightarrow> php_val \<Rightarrow> php_exception + php_obj" where
  "set_property Z what ob name v =
     (case set_property_error Z name of
        Some e \<Rightarrow> Inl (default_exception (''set '' @ what @ '': '' @ e))
      | None \<Rightarrow> Inr (ob @ [(name, v)]))"

definition set_metadata ::
  "'z php \<Rightarrow> ('m, 'v) md_api \<Rightarrow> string \<Rightarrow> php_obj \<Rightarrow> 'm option \<Rightarrow> php_exception + php_obj" where
  "set_metadata Z M what ob md =
     (case md of
        Some m \<Rightarrow> bind_res (map_err exception_of_error (metadata_to_php Z M m))
          (\<lambda>v. set_property Z what ob ''metadata'' v)
      | None \<Rightarrow> set_property Z what ob ''metadata'' (P_Map []))"

definition recv_initial_metadata ::
  "'z php \<Rightarrow> ('m, 'v) md_api \<Rightarrow> ('w, 'm) tokio \<Rightarrow> php_obj \<Rightarrow> ('w, 'm) active_stream
     \<Rightarrow> (php_exception + php_obj) \<times> ('w, 'm) active_stream" where
  "recv_initial_metadata Z M T ob s =
     (let s1 = (if as_initial_metadata s = None \<and> as_meta_rx s
                then (case tk_meta T (as_chan s) of (md, w) \<Rightarrow>
                        s\<lparr>as_meta_rx := False, as_initial_metadata := md, as_chan := w\<rparr>)
                else s)
      in (set_metadata Z M ''metadata'' ob (as_initial_metadata s1), s1\<lparr>as_initial_metadata := None\<rparr>))"

definition next_item ::
  "('w, 'm) tokio \<Rightarrow> 'w \<Rightarrow> 'm stream_item option \<times> 'w" where
  "next_item T w =
     (case tk_try_recv T w of
        (Try_Ok m, w') \<Rightarrow> (Some m, w')
      | (Try_Empty, w') \<Rightarrow> tk_recv T w'
      | (Try_Disconnected, w') \<Rightarrow> (None, w'))"

definition recv_message ::
  "'z php \<Rightarrow> ('m, 'v) md_api \<Rightarrow> ('w, 'm) tokio \<Rightarrow> i64 \<Rightarrow> clock_reading \<Rightarrow> php_obj \<Rightarrow> ('w, 'm) active_stream
     \<Rightarrow> (php_exception + php_obj) \<times> ('w, 'm) active_stream" where
  "recv_message Z M T deadline_usec r ob s =
     (if as_cached_trailers s \<noteq> None then (set_property Z ''message'' ob ''message'' P_Null, s)
      else (case next_item T (as_chan s) of (msg, w) \<Rightarrow>
        (case msg of
           Some (Inr (Some b)) \<Rightarrow>
             (set_property Z ''message'' ob ''message'' (bytes_to_php_string_zval b), s\<lparr>as_chan := w\<rparr>)
         | Some (Inr None) \<Rightarrow> (set_property Z ''message'' ob ''message'' P_Null, s\<lparr>as_chan := w\<rparr>)
         | None \<Rightarrow> (set_property Z ''message'' ob ''message'' P_Null, s\<lparr>as_chan := w\<rparr>)
         | Some (Inl st) \<Rightarrow>
             (set_property Z ''message'' ob ''message'' P_Null,
              s\<lparr>as_chan := w, as_cached_trailers := Some (status_trailers M deadline_usec st r)\<rparr>))))"

text \<open>
  Waiting for the trailers while discarding undelivered messages. The loop ends
  only when the trailers arrive or the message channel ends.
\<close>

partial_function (option) drain ::
  "('w, 'm) tokio \<Rightarrow> 'w \<Rightarrow> ('m stream_trailers option \<times> 'w) option" where
  "drain T w =
     (case tk_select T w of (sel, w') \<Rightarrow>
        (case sel of
           Sel_Trailers t \<Rightarrow> Some (t, w')
         | Sel_Msg msg \<Rightarrow>
             (case msg of
                None \<Rightarrow> Some (tk_trailers T w')
              | Some item \<Rightarrow>
                  (case item of
                     Inl st \<Rightarrow> Some (tk_trailers T w')
                   | Inr body \<Rightarrow>
                       (case body of
                          None \<Rightarrow> Some (tk_trailers T w')
                        | Some b \<Rightarrow> drain T w')))))"

definition lost_trailers :: "('m, 'v) md_api \<Rightarrow> 'm stream_trailers" where
  "lost_trailers M =
     \<lparr>tr_code = 2, tr_message = ''stream task terminated unexpectedly'', tr_metadata = md_default M\<rparr>"

definition consumed_trailers :: "('m, 'v) md_api \<Rightarrow> 'm stream_trailers" where
  "consumed_trailers M =
     \<lparr>tr_code = 2, tr_message = ''stream already consumed'', tr_metadata = md_default M\<rparr>"

definition take_trailers ::
  "('m, 'v) md_api \<Rightarrow> ('w, 'm) tokio \<Rightarrow> ('w, 'm) active_stream
     \<Rightarrow> ('m stream_trailers \<times> ('w, 'm) active_stream) option" where
  "take_trailers M T s =
     (case as_cached_trailers s of
        Some t \<Rightarrow> Some (t, s\<lparr>as_cached_trailers := None\<rparr>)
      | None \<Rightarrow>
          (if as_trailers_rx s then
             (case drain T (as_chan s) of
                None \<Rightarrow> None
              | Some (t, w) \<Rightarrow>
                  Some (unwrap_or (lost_trailers M) t, s\<lparr>as_trailers_rx := False, as_chan := w\<rparr>))
           else Some (consumed_trailers M, s)))"

definition status_object ::
  "'z php \<Rightarrow> ('m, 'v) md_api \<Rightarrow> 'm option \<Rightarrow> int \<Rightarrow> string \<Rightarrow> php_exception + php_obj" where
  "status_object Z M md code details =
     bind_res (set_metadata Z M ''status metadata'' [] md) (\<lambda>ob1.
     bind_res (set_property Z ''status code'' ob1 ''code'' (P_Int code)) (\<lambda>ob2.
     set_property Z ''status details'' ob2 ''details'' (P_Str details)))"

definition recv_status ::
  "'z php \<Rightarrow> ('m, 'v) md_api \<Rightarrow> ('w, 'm) tokio \<Rightarrow> php_obj \<Rightarrow> ('w, 'm) active_stream
     \<Rightarrow> ((php_exception + php_obj) \<times> ('w, 'm) active_stream) option" where
  "recv_status Z M T ob s =
     (case take_trailers M T s of
        None \<Rightarrow> None
      | Some (t, s') \<Rightarrow>
          Some (bind_res (status_object Z M (Some (tr_metadata t)) (tr_code t) (tr_message t))
                  (\<lambda>so. set_property Z ''status'' ob ''status'' (P_Obj so)), s'))"

text \<open>Which receive operations a batch asks for.\<close>

record recv_flags =
  rf_initial_metadata :: bool
  rf_message :: bool
  rf_status :: bool

definition read_stream ::
  "'z php \<Rightarrow> ('m, 'v) md_api \<Rightarrow> ('w, 'm) tokio \<Rightarrow> i64 \<Rightarrow> clock_reading \<Rightarrow> recv_flags
     \<Rightarrow> ('w, 'm) active_stream \<Rightarrow> ((php_exception + php_obj) \<times> ('w, 'm) active_stream) option" where
  "read_stream Z M T deadline_usec r flags s0 =
     (case (if rf_initial_metadata flags then recv_initial_metadata Z M T [] s0 else (Inr [], s0)) of
        (Inl e, s1) \<Rightarrow> Some (Inl e, s1)
      | (Inr ob1, s1) \<Rightarrow>
          (case (if rf_message flags then recv_message Z M T deadline_usec r ob1 s1 else (Inr ob1, s1)) of
             (Inl e, s2) \<Rightarrow> Some (Inl e, s2)
           | (Inr ob2, s2) \<Rightarrow>
               (if rf_status flags then recv_status Z M T ob2 s2 else Some (Inr ob2, s2))))"

text \<open>The \<open>RECV_MESSAGE\<close>-only and \<open>RECV_STATUS\<close>-only batches, and a run of the former.\<close>

abbreviation message_only :: recv_flags where
  "message_only \<equiv> \<lparr>rf_initial_metadata = False, rf_message = True, rf_status = False\<rparr>"

abbreviation status_only :: recv_flags where
  "status_only \<equiv> \<lparr>rf_initial_metadata = False, rf_message = False, rf_status = True\<rparr>"

abbreviation metadata_only :: recv_flags where
  "metadata_only \<equiv> \<lparr>rf_initial_metadata = True, rf_message = False, rf_status = False\<rparr>"

fun read_messages ::
  "'z php \<Rightarrow> ('m, 'v) md_api \<Rightarrow> ('w, 'm) tokio \<Rightarrow> i64 \<Rightarrow> clock_reading \<Rightarrow> nat
     \<Rightarrow> ('w, 'm) active_stream \<Rightarrow> ((php_exception + php_obj) list \<times> ('w, 'm) active_stream) option" where
  "read_messages Z M T d r 0 s = Some ([], s)"
| "read_messages Z M T d r (Suc n) s =
     (case read_stream Z M T d r message_only s of
        None \<Rightarrow> None
      | Some (res, s') \<Rightarrow>
          (case read_messages Z M T d r n s' of
             None \<Rightarrow> None
           | Some (rs, s'') \<Rightarrow> Some (res # rs, s'')))"

section \<open>The contract of the channels\<close>

text \<open>
  What tokio documents of a bounded message channel and two one-shot channels
  between the driver and the reader: \<open>pend\<close> are the items the reader has yet to
  receive, in sending order, \<open>pmeta\<close> and \<open>ptrail\<close> what the one-shot channels
  deliver (\<open>None\<close> when their sender is dropped unused). An empty poll loses
  nothing; end-of-channel is reported only when every item was received.
\<close>

definition first_of :: "'a list \<Rightarrow> 'a option" where
  "first_of xs = (case xs of [] \<Rightarrow> None | x # _ \<Rightarrow> Some x)"

locale stream_channel =
  fixes T :: "('w, 'm) tokio"
    and pend :: "'w \<Rightarrow> 'm stream_item list"
    and pmeta :: "'w \<Rightarrow> 'm option"
    and ptrail :: "'w \<Rightarrow> 'm stream_trailers option"
  assumes spawn: "pend (tk_spawn T acts) = sent_msgs acts"
      "pmeta (tk_spawn T acts) = first_of (sent_metas acts)"
      "ptrail (tk_spawn T acts) = first_of (sent_trailers acts)"
    and try_ok: "tk_try_recv T w = (Try_Ok i, w') \<Longrightarrow>
      pend w = i # pend w' \<and> pmeta w' = pmeta w \<and> ptrail w' = ptrail w"
    and try_empty: "tk_try_recv T w = (Try_Empty, w') \<Longrightarrow>
      pend w' = pend w \<and> pmeta w' = pmeta w \<and> ptrail w' = ptrail w"
    and try_disconnected: "tk_try_recv T w = (Try_Disconnected, w') \<Longrightarrow>
      pend w = [] \<and> pend w' = [] \<and> pmeta w' = pmeta w \<and> ptrail w' = ptrail w"
    and recv: "tk_recv T w = (x, w') \<Longrightarrow>
      x = first_of (pend w) \<and> pend w' = tl (pend w) \<and> pmeta w' = pmeta w \<and> ptrail w' = ptrail w"
    and meta: "tk_meta T w = (md, w') \<Longrightarrow> md = pmeta w \<and> pend w' = pend w \<and> ptrail w' = ptrail w"
    and trailers: "tk_trailers T w = (t, w') \<Longrightarrow> t = ptrail w \<and> pend w' = pend w"
    and select_trailers: "tk_select T w = (Sel_Trailers t, w') \<Longrightarrow> t = ptrail w \<and> pend w' = pend w"
    and select_msg: "tk_select T w = (Sel_Msg x, w') \<Longrightarrow>
      x = first_of (pend w) \<and> pend w' = tl (pend w) \<and> ptrail w' = ptrail w"
begin

lemma next_item_spec:
  assumes "next_item T w = (x, w')"
  shows "x = first_of (pend w) \<and> pend w' = tl (pend w) \<and> pmeta w' = pmeta w \<and> ptrail w' = ptrail w"
proof -
  obtain res v where polled: "tk_try_recv T w = (res, v)" by fastforce
  show ?thesis
  proof (cases res)
    case (Try_Ok i)
    with polled assms have "x = Some i" and "w' = v" by (simp_all add: next_item_def)
    with try_ok [of w i v] polled Try_Ok show ?thesis by (simp add: first_of_def)
  next
    case Try_Empty
    with polled assms have "tk_recv T v = (x, w')" by (simp add: next_item_def)
    with try_empty [of w v] recv [of v x w'] polled Try_Empty show ?thesis by simp
  next
    case Try_Disconnected
    with polled assms have "x = None" and "w' = v" by (simp_all add: next_item_def)
    with try_disconnected [of w v] polled Try_Disconnected show ?thesis by (simp add: first_of_def)
  qed
qed

text \<open>
  The drain loop ends, whatever is still queued, with what the trailers channel
  delivers: each turn that continues has consumed one undelivered item.
\<close>

lemma drain_total: "\<exists>w'. drain T w = Some (ptrail w, w')"
proof (induction "length (pend w)" arbitrary: w rule: less_induct)
  case less
  obtain sel v where sel: "tk_select T w = (sel, v)" by fastforce
  show ?case
  proof (cases sel)
    case (Sel_Trailers t)
    with sel select_trailers show ?thesis
      by (subst drain.simps) auto
  next
    case (Sel_Msg x)
    with sel have msg: "x = first_of (pend w)" "pend v = tl (pend w)" "ptrail v = ptrail w"
      using select_msg [of w x v] by simp_all
    obtain t u where "tk_trailers T v = (t, u)" by fastforce
    with msg(3) have after: "tk_trailers T v = (ptrail w, u)" using trailers [of v t u] by simp
    show ?thesis
    proof (cases "\<exists>b. x = Some (Inr (Some b))")
      case True
      then have "pend w \<noteq> []" using msg(1) by (auto simp: first_of_def)
      then have "length (pend v) < length (pend w)" using msg(2) by simp
      then obtain u' where "drain T v = Some (ptrail v, u')" using less by blast
      with True sel Sel_Msg msg(3) show ?thesis by (subst drain.simps) auto
    next
      case False
      with sel Sel_Msg after show ?thesis
        by (subst drain.simps) (auto split: option.split sum.split)
    qed
  qed
qed

lemma take_trailers_total:
  assumes "as_cached_trailers s = None" and "as_trailers_rx s"
  shows "\<exists>s'. take_trailers M T s = Some (unwrap_or (lost_trailers M) (ptrail (as_chan s)), s')"
  using assms drain_total [of "as_chan s"] by (auto simp: take_trailers_def)

lemma take_trailers_returns: "\<exists>t s'. take_trailers M T s = Some (t, s')"
  using drain_total [of "as_chan s"]
  by (cases "as_cached_trailers s") (auto simp: take_trailers_def)

lemma read_stream_returns: "\<exists>res s'. read_stream Z M T d r flags s = Some (res, s')"
proof -
  have status: "\<exists>res s'. recv_status Z M T ob u = Some (res, s')" for ob u
    using take_trailers_returns [of M u] by (auto simp: recv_status_def)
  show ?thesis
    using status by (simp add: read_stream_def split: prod.split sum.split)
qed

end

section \<open>Deliveries of a task\<close>

text \<open>
  The sends of a driver task, read back in the order they were made.
\<close>

record 'm deliveries =
  dl_msgs :: "'m stream_item list"
  dl_meta :: "'m option"
  dl_trailers :: "'m stream_trailers option"

definition deliver :: "'m action list \<Rightarrow> 'm deliveries" where
  "deliver acts = \<lparr>dl_msgs = sent_msgs acts, dl_meta = first_of (sent_metas acts),
     dl_trailers = first_of (sent_trailers acts)\<rparr>"

definition pop_item :: "'m deliveries \<Rightarrow> 'm stream_item option \<times> 'm deliveries" where
  "pop_item w = (first_of (dl_msgs w), w\<lparr>dl_msgs := tl (dl_msgs w)\<rparr>)"

definition delivery_tokio :: "('m deliveries, 'm) tokio" where
  "delivery_tokio = \<lparr>
     tk_spawn = deliver,
     tk_closed = \<lparr>dl_msgs = [], dl_meta = None, dl_trailers = None\<rparr>,
     tk_try_recv = (\<lambda>w. case dl_msgs w of [] \<Rightarrow> (Try_Disconnected, w)
        | i # is \<Rightarrow> (Try_Ok i, w\<lparr>dl_msgs := is\<rparr>)),
     tk_recv = pop_item,
     tk_meta = (\<lambda>w. (dl_meta w, w)),
     tk_trailers = (\<lambda>w. (dl_trailers w, w)),
     tk_select = (\<lambda>w. if dl_msgs w = [] then (Sel_Trailers (dl_trailers w), w)
        else (case pop_item w of (x, w') \<Rightarrow> (Sel_Msg x, w'))),
     tk_send = (\<lambda>w b. (True, w)),
     tk_drop_sender = (\<lambda>w. w) \<rparr>"

interpretation dlv: stream_channel delivery_tokio dl_msgs dl_meta dl_trailers
  by unfold_locales
    (auto simp: delivery_tokio_def deliver_def pop_item_def first_of_def
      split: list.splits if_splits)

section \<open>What PHP reads\<close>

text \<open>The status object PHP receives for given trailers.\<close>

definition php_metadata :: "('m, 'v) md_api \<Rightarrow> 'm \<Rightarrow> php_val" where
  "php_metadata M m = P_Map (map (\<lambda>(k, vs). (k, P_List (map P_Str vs)))
     (filter (\<lambda>(k, vs). \<not> is_reserved_header k) (collect_metadata M m)))"

definition php_status :: "('m, 'v) md_api \<Rightarrow> 'm stream_trailers \<Rightarrow> php_val" where
  "php_status M t = P_Obj [(''metadata'', php_metadata M (tr_metadata t)),
     (''code'', P_Int (tr_code t)), (''details'', P_Str (tr_message t))]"

lemma set_property_ok: "engine_writes Z \<Longrightarrow> set_property Z what ob name v = Inr (ob @ [(name, v)])"
  by (simp add: set_property_def engine_writes_def)

lemma metadata_to_php_ok: "engine_writes Z \<Longrightarrow> metadata_to_php Z M m = Inr (php_metadata M m)"
  using insert_entries_ok [of Z "collect_metadata M m" "[]"]
  by (simp add: metadata_to_php_def php_metadata_def)

lemma set_metadata_ok:
  "engine_writes Z \<Longrightarrow> set_metadata Z M what ob md =
     Inr (ob @ [(''metadata'', case md of None \<Rightarrow> P_Map [] | Some m \<Rightarrow> php_metadata M m)])"
  by (simp add: set_metadata_def metadata_to_php_ok set_property_ok split: option.split)

lemma status_object_ok:
  "engine_writes Z \<Longrightarrow> status_object Z M (Some (tr_metadata t)) (tr_code t) (tr_message t) =
     Inr [(''metadata'', php_metadata M (tr_metadata t)), (''code'', P_Int (tr_code t)),
          (''details'', P_Str (tr_message t))]"
  by (simp add: status_object_def set_metadata_ok set_property_ok)

lemmas engine_ok = set_property_ok metadata_to_php_ok set_metadata_ok status_object_ok

lemma recv_status_ok:
  "engine_writes Z \<Longrightarrow> take_trailers M T s = Some (t, s') \<Longrightarrow>
     recv_status Z M T ob s = Some (Inr (ob @ [(''status'', php_status M t)]), s')"
  by (simp add: recv_status_def engine_ok php_status_def)

context stream_channel
begin

lemma read_one_message:
  assumes "engine_writes Z" and "as_cached_trailers s = None" and "pend (as_chan s) = Inr (Some b) # rest"
  shows "\<exists>s'. read_stream Z M T d r message_only s = Some (Inr [(''message'', P_Str b)], s')
     \<and> as_cached_trailers s' = None \<and> as_trailers_rx s' = as_trailers_rx s
     \<and> pend (as_chan s') = rest \<and> ptrail (as_chan s') = ptrail (as_chan s)"
proof -
  obtain x w where item: "next_item T (as_chan s) = (x, w)" by fastforce
  have "x = Some (Inr (Some b)) \<and> pend w = rest \<and> ptrail w = ptrail (as_chan s)"
    using next_item_spec [OF item] assms(3) by (simp add: first_of_def)
  with assms item show ?thesis
    by (simp add: read_stream_def recv_message_def engine_ok bytes_to_php_string_zval_def)
qed

lemma read_end:
  assumes "engine_writes Z" and "as_cached_trailers s = None"
    and "pend (as_chan s) = [] \<or> pend (as_chan s) = [Inr None]"
  shows "\<exists>s'. read_stream Z M T d r message_only s = Some (Inr [(''message'', P_Null)], s')
     \<and> as_cached_trailers s' = None \<and> as_trailers_rx s' = as_trailers_rx s
     \<and> pend (as_chan s') = [] \<and> ptrail (as_chan s') = ptrail (as_chan s)"
proof -
  obtain x w where item: "next_item T (as_chan s) = (x, w)" by fastforce
  have "(x = None \<or> x = Some (Inr None)) \<and> pend w = [] \<and> ptrail w = ptrail (as_chan s)"
    using next_item_spec [OF item] assms(3) by (auto simp: first_of_def)
  with assms item show ?thesis
    by (auto simp: read_stream_def recv_message_def engine_ok)
qed

lemma read_messages_spec:
  assumes "engine_writes Z" and "as_cached_trailers s = None"
    and "pend (as_chan s) = map (\<lambda>b. Inr (Some b)) bs @ fin" and "fin = [] \<or> fin = [Inr None]"
  shows "\<exists>s'. read_messages Z M T d r n s =
       Some (map (\<lambda>b. Inr [(''message'', P_Str b)]) (take n bs)
               @ replicate (n - length bs) (Inr [(''message'', P_Null)]), s')
     \<and> as_cached_trailers s' = None \<and> as_trailers_rx s' = as_trailers_rx s
     \<and> ptrail (as_chan s') = ptrail (as_chan s)"
  using assms(2-4)
proof (induction n arbitrary: s bs fin)
  case 0
  then show ?case by simp
next
  case (Suc n)
  show ?case
  proof (cases bs)
    case Nil
    with Suc.prems obtain u where u: "read_stream Z M T d r message_only s = Some (Inr [(''message'', P_Null)], u)"
      "as_cached_trailers u = None" "as_trailers_rx u = as_trailers_rx s" "pend (as_chan u) = []"
      "ptrail (as_chan u) = ptrail (as_chan s)"
      using read_end [OF assms(1), of s M d r] by auto
    with Suc.IH [of u "[]" "[]"] Nil show ?thesis by auto
  next
    case (Cons b bs')
    with Suc.prems obtain u where u: "read_stream Z M T d r message_only s = Some (Inr [(''message'', P_Str b)], u)"
      "as_cached_trailers u = None" "as_trailers_rx u = as_trailers_rx s"
      "pend (as_chan u) = map (\<lambda>b. Inr (Some b)) bs' @ fin" "ptrail (as_chan u) = ptrail (as_chan s)"
      using read_one_message [OF assms(1), of s b _ M d r] by auto
    with Suc.IH [of u bs' fin] Suc.prems(3) Cons show ?thesis by auto
  qed
qed

lemma read_error:
  assumes "engine_writes Z" and "as_cached_trailers s = None" and "pend (as_chan s) = Inl st # rest"
  shows "\<exists>s'. read_stream Z M T d r message_only s = Some (Inr [(''message'', P_Null)], s')
     \<and> as_cached_trailers s' = Some (status_trailers M d st r)"
proof -
  obtain x w where item: "next_item T (as_chan s) = (x, w)" by fastforce
  have "x = Some (Inl st)"
    using next_item_spec [OF item] assms(3) by (simp add: first_of_def)
  with assms item show ?thesis
    by (simp add: read_stream_def recv_message_def engine_ok)
qed

lemma read_headers:
  assumes "engine_writes Z" and "as_initial_metadata s = None" and "as_meta_rx s"
  shows "\<exists>s'. read_stream Z M T d r metadata_only s = Some (Inr [(''metadata'',
         case pmeta (as_chan s) of None \<Rightarrow> P_Map [] | Some m \<Rightarrow> php_metadata M m)], s')
     \<and> as_initial_metadata s' = None \<and> \<not> as_meta_rx s'"
proof -
  obtain md w where md: "tk_meta T (as_chan s) = (md, w)" by fastforce
  then have "md = pmeta (as_chan s)" using meta by blast
  with assms md show ?thesis
    by (simp add: read_stream_def recv_initial_metadata_def engine_ok Let_def)
qed

lemma read_status_only:
  assumes "engine_writes Z" and "as_cached_trailers s = None" and "as_trailers_rx s"
  shows "\<exists>s'. read_stream Z M T d r status_only s =
    Some (Inr [(''status'', php_status M (unwrap_or (lost_trailers M) (ptrail (as_chan s))))], s')"
  using take_trailers_total [OF assms(2,3), of M] assms(1)
  by (auto simp: read_stream_def recv_status_ok)

end

text \<open>
  C12. End-to-end delivery. For a stream whose task ends with a status, reading
  messages any number of times gives exactly the body messages the network
  delivered, in order and once each, then null; and asking for the status after
  any number of reads, with any number of messages still undelivered, returns
  that status. The wait for the status never blocks for good.
\<close>

theorem stream_end_to_end:
  assumes "stream_channel T pend pmeta ptrail" and "engine_writes Z"
    and "task_trailers M d ready opened events = Some t"
    and "server_stream_task M d has_shared ready opened events = (acts, True)"
  shows "\<exists>s' s''. read_messages Z M T d r n (server_stream_state T acts) =
       Some (map (\<lambda>b. Inr [(''message'', P_Str b)]) (take n (task_messages ready opened events))
               @ replicate (n - length (task_messages ready opened events)) (Inr [(''message'', P_Null)]), s')
     \<and> read_stream Z M T d r' status_only s' = Some (Inr [(''status'', php_status M t)], s'')"
proof -
  let ?s = "server_stream_state T acts"
  have acts: "acts = fst (server_stream_task M d has_shared ready opened events)"
    using assms(4) by simp
  have chan: "pend (as_chan ?s) = map (\<lambda>b. Inr (Some b)) (task_messages ready opened events) @ [Inr None]"
    "ptrail (as_chan ?s) = Some t"
    using stream_channel.spawn [OF assms(1)] task_deliveries [OF assms(3), of has_shared] acts
    by (simp_all add: server_stream_state_def first_of_def)
  obtain s' where s': "read_messages Z M T d r n ?s =
       Some (map (\<lambda>b. Inr [(''message'', P_Str b)]) (take n (task_messages ready opened events))
               @ replicate (n - length (task_messages ready opened events)) (Inr [(''message'', P_Null)]), s')"
    "as_cached_trailers s' = None" "as_trailers_rx s'" "ptrail (as_chan s') = Some t"
    using stream_channel.read_messages_spec [OF assms(1,2) _ chan(1), of M d r n] chan(2)
    by (auto simp: server_stream_state_def)
  with stream_channel.read_status_only [OF assms(1,2) s'(2,3), of M d r'] show ?thesis by auto
qed

theorem stream_end_to_end_witness:
  "\<exists>s' s''. read_messages plain_php list_md delivery_tokio 0 (SinceEpoch 1) 3
       (server_stream_state delivery_tokio
         (fst (server_stream_task list_md 0 False Ready_Ok (Open_Ok []) [Ev_Message ''a'' True, Ev_End (Some None)])))
     = Some ([Inr [(''message'', P_Str ''a'')], Inr [(''message'', P_Null)], Inr [(''message'', P_Null)]], s')
   \<and> read_stream plain_php list_md delivery_tokio 0 (SinceEpoch 1) status_only s'
     = Some (Inr [(''status'', php_status list_md \<lparr>tr_code = 0, tr_message = [], tr_metadata = []\<rparr>)], s'')"
proof -
  let ?ev = "[Ev_Message ''a'' True, Ev_End (Some None)]"
  have t: "task_trailers list_md 0 Ready_Ok (Open_Ok []) ?ev
      = Some \<lparr>tr_code = 0, tr_message = [], tr_metadata = []\<rparr>"
    by (simp add: task_trailers_def end_trailers_def list_md_def)
  have task: "server_stream_task list_md 0 False Ready_Ok (Open_Ok []) ?ev
      = (fst (server_stream_task list_md 0 False Ready_Ok (Open_Ok []) ?ev), True)"
    by (simp add: server_stream_task_def)
  show ?thesis
    using stream_end_to_end [OF dlv.stream_channel_axioms engine_writes_plain t task, of "SinceEpoch 1" 3 "SinceEpoch 1"]
    by (simp add: task_messages_def eval_nat_numeral)
qed

text \<open>
  The response headers reach PHP exactly once: the first request for initial
  metadata returns them, and every later one returns an empty array.
\<close>

theorem headers_once:
  assumes "stream_channel T pend pmeta ptrail" and "engine_writes Z"
    and "task_trailers M d ready opened events = Some t"
  shows "\<exists>s1 s2. read_stream Z M T d r metadata_only
         (server_stream_state T (fst (server_stream_task M d has_shared ready opened events)))
       = Some (Inr [(''metadata'', php_metadata M (task_headers M ready opened))], s1)
     \<and> read_stream Z M T d r' metadata_only s1 = Some (Inr [(''metadata'', P_Map [])], s2)"
proof -
  let ?s = "server_stream_state T (fst (server_stream_task M d has_shared ready opened events))"
  have "pmeta (as_chan ?s) = Some (task_headers M ready opened)"
    using stream_channel.spawn(2) [OF assms(1)] task_deliveries(3) [OF assms(3), of has_shared]
    by (simp add: server_stream_state_def first_of_def)
  then obtain s1 where s1: "read_stream Z M T d r metadata_only ?s
      = Some (Inr [(''metadata'', php_metadata M (task_headers M ready opened))], s1)"
    "as_initial_metadata s1 = None" "\<not> as_meta_rx s1"
    using stream_channel.read_headers [OF assms(1,2), of ?s M d r] by (auto simp: server_stream_state_def)
  then show ?thesis
    using assms(2) by (auto simp: read_stream_def recv_initial_metadata_def engine_ok Let_def)
qed

theorem headers_once_witness:
  "\<exists>s1 s2. read_stream plain_php list_md delivery_tokio 0 (SinceEpoch 1) metadata_only
       (server_stream_state delivery_tokio (fst (server_stream_task list_md 0 False Ready_Ok
          (Open_Ok [Ascii ''x'' ''1'']) [Ev_Deadline])))
     = Some (Inr [(''metadata'', php_metadata list_md [Ascii ''x'' ''1''])], s1)
   \<and> read_stream plain_php list_md delivery_tokio 0 (SinceEpoch 1) metadata_only s1
     = Some (Inr [(''metadata'', P_Map [])], s2)"
proof -
  have t: "task_trailers list_md 0 Ready_Ok (Open_Ok [Ascii ''x'' ''1'']) [Ev_Deadline]
      = Some (deadline_exceeded_trailers list_md)"
    by (simp add: task_trailers_def end_trailers_def)
  show ?thesis
    using headers_once [OF dlv.stream_channel_axioms engine_writes_plain t, of "SinceEpoch 1" False "SinceEpoch 1"]
    by (simp add: task_headers_def)
qed

text \<open>
  C36. A connection that fails before the request is sent: the status of the
  failure reaches PHP only through a message read. Asked for the status directly,
  the reader discards the failure and reports UNKNOWN.
\<close>

theorem ready_error_status:
  assumes "stream_channel T pend pmeta ptrail" and "engine_writes Z"
  shows "\<exists>s0 s1 s2. read_stream Z M T d r status_only
         (server_stream_state T (fst (server_stream_task M d has_shared (Ready_Err st) opened events)))
       = Some (Inr [(''status'', php_status M (lost_trailers M))], s0)
     \<and> read_stream Z M T d r message_only
         (server_stream_state T (fst (server_stream_task M d has_shared (Ready_Err st) opened events)))
       = Some (Inr [(''message'', P_Null)], s1)
     \<and> read_stream Z M T d r' status_only s1
       = Some (Inr [(''status'', php_status M (status_trailers M d st r))], s2)"
proof -
  let ?s = "server_stream_state T (fst (server_stream_task M d has_shared (Ready_Err st) opened events))"
  have chan: "pend (as_chan ?s) = [Inl st]" "ptrail (as_chan ?s) = None"
    using stream_channel.spawn [OF assms(1)]
    by (simp_all add: server_stream_state_def server_stream_task_def first_of_def)
  obtain s0 where "read_stream Z M T d r status_only ?s
      = Some (Inr [(''status'', php_status M (lost_trailers M))], s0)"
    using stream_channel.read_status_only [OF assms, of ?s M d r] chan(2)
    by (auto simp: server_stream_state_def)
  moreover obtain s1 where s1: "read_stream Z M T d r message_only ?s = Some (Inr [(''message'', P_Null)], s1)"
    "as_cached_trailers s1 = Some (status_trailers M d st r)"
    using stream_channel.read_error [OF assms, of ?s st "[]" M d r] chan(1)
    by (auto simp: server_stream_state_def)
  moreover have "\<exists>s2. read_stream Z M T d r' status_only s1
      = Some (Inr [(''status'', php_status M (status_trailers M d st r))], s2)"
    using s1(2) assms(2) by (simp add: read_stream_def recv_status_ok take_trailers_def)
  ultimately show ?thesis by blast
qed

theorem ready_error_status_witness:
  "\<exists>s0 s1 s2. read_stream plain_php list_md delivery_tokio 0 (SinceEpoch 1) status_only
       (server_stream_state delivery_tokio (fst (server_stream_task list_md 0 False
         (Ready_Err \<lparr>st_code = 14, st_message = ''refused'', st_metadata = [], st_details = []\<rparr>) Open_Elapsed [])))
     = Some (Inr [(''status'', php_status list_md (lost_trailers list_md))], s0)
   \<and> read_stream plain_php list_md delivery_tokio 0 (SinceEpoch 1) message_only
       (server_stream_state delivery_tokio (fst (server_stream_task list_md 0 False
         (Ready_Err \<lparr>st_code = 14, st_message = ''refused'', st_metadata = [], st_details = []\<rparr>) Open_Elapsed [])))
     = Some (Inr [(''message'', P_Null)], s1)
   \<and> read_stream plain_php list_md delivery_tokio 0 (SinceEpoch 1) status_only s1
     = Some (Inr [(''status'', php_status list_md \<lparr>tr_code = 14, tr_message = ''refused'', tr_metadata = []\<rparr>)], s2)"
  using ready_error_status [OF dlv.stream_channel_axioms engine_writes_plain, of list_md 0 "SinceEpoch 1" False
      "\<lparr>st_code = 14, st_message = ''refused'', st_metadata = [], st_details = []\<rparr>" Open_Elapsed "[]" "SinceEpoch 1"]
  by (simp add: status_trailers_def status_to_php_def status_metadata_for_php_def)

text \<open>
  C23. A stream started after its deadline behaves like a stream that failed with
  DEADLINE_EXCEEDED, without touching the network: empty headers, a null message
  and the deadline status, for any combination of receive operations.
\<close>

theorem expired_stream_reads:
  assumes "engine_writes Z"
  shows "\<exists>s'. read_stream Z M T d r flags (expired_stream_state M T) =
     Some (Inr ((if rf_initial_metadata flags then [(''metadata'', P_Map [])] else [])
              @ (if rf_message flags then [(''message'', P_Null)] else [])
              @ (if rf_status flags then [(''status'', php_status M (deadline_exceeded_trailers M))] else [])), s')
     \<and> as_chan s' = tk_closed T"
  using assms
  by (auto simp: read_stream_def expired_stream_state_def recv_initial_metadata_def recv_message_def
      recv_status_ok take_trailers_def engine_ok Let_def deadline_exceeded_trailers_def)

theorem expired_stream_reads_witness:
  "\<exists>s'. read_stream plain_php list_md delivery_tokio 5 (SinceEpoch 9)
       \<lparr>rf_initial_metadata = False, rf_message = True, rf_status = True\<rparr> (expired_stream_state list_md delivery_tokio)
     = Some (Inr [(''message'', P_Null), (''status'', php_status list_md (deadline_exceeded_trailers list_md))], s')
     \<and> as_chan s' = tk_closed delivery_tokio"
  using expired_stream_reads [OF engine_writes_plain, of list_md delivery_tokio 5 "SinceEpoch 9"
      "\<lparr>rf_initial_metadata = False, rf_message = True, rf_status = True\<rparr>"]
  by simp

end
