(* ===== verification/Credentials.thy ===== *)
theory Credentials
  imports Store
begin

text \<open>
  \<open>Grpc\ChannelCredentials\<close> and \<open>Grpc\CallCredentials\<close> (\<open>credentials.rs\<close>): the
  default root certificates, the counter that tells credential objects apart,
  TLS configurations, and plugin cells.
\<close>

datatype credentials_inner =
    Ssl tls_config
  | Composite tls_config nat

record channel_credentials =
  cc_inner :: credentials_inner
  cc_id :: u64

record call_credentials =
  pc_plugin :: nat

definition next_credentials_id :: "'z store \<Rightarrow> u64 \<times> 'z store" where
  "next_credentials_id h = (st_next_cred h, h\<lparr>st_next_cred := st_next_cred h + 1\<rparr>)"

definition create_ssl ::
  "string option \<Rightarrow> string option \<Rightarrow> string option \<Rightarrow> 'z store \<Rightarrow> channel_credentials \<times> 'z store" where
  "create_ssl pem_root_certs pem_private_key pem_cert_chain h =
     (let tls0 = [With_webpki_roots];
          roots = (case pem_root_certs of Some p \<Rightarrow> Some p | None \<Rightarrow> st_roots_pem h);
          tls1 = (case roots of Some pem \<Rightarrow> tls0 @ [Ca_certificate pem] | None \<Rightarrow> tls0);
          tls2 = (case (pem_cert_chain, pem_private_key) of
                    (Some cert_chain, Some private_key) \<Rightarrow> tls1 @ [Tls_identity cert_chain private_key]
                  | _ \<Rightarrow> tls1)
      in case next_credentials_id h of (cid, h') \<Rightarrow> (\<lparr>cc_inner = Ssl tls2, cc_id = cid\<rparr>, h'))"

definition create_insecure :: "channel_credentials option" where
  "create_insecure = None"

definition inner_tls :: "credentials_inner \<Rightarrow> tls_config" where
  "inner_tls i = (case i of Ssl tls \<Rightarrow> tls | Composite tls p \<Rightarrow> tls)"

definition channel_create_composite ::
  "channel_credentials \<Rightarrow> call_credentials \<Rightarrow> 'z store \<Rightarrow> channel_credentials \<times> 'z store" where
  "channel_create_composite channel_creds call_creds h =
     (let tls_config = inner_tls (cc_inner channel_creds)
      in case next_credentials_id h of (cid, h') \<Rightarrow>
           (\<lparr>cc_inner = Composite tls_config (pc_plugin call_creds), cc_id = cid\<rparr>, h'))"

definition create_default :: "'z store \<Rightarrow> channel_credentials \<times> 'z store" where
  "create_default h =
     (let tls0 = [With_webpki_roots];
          tls1 = (case st_roots_pem h of Some pem \<Rightarrow> tls0 @ [Ca_certificate pem] | None \<Rightarrow> tls0)
      in case next_credentials_id h of (cid, h') \<Rightarrow> (\<lparr>cc_inner = Ssl tls1, cc_id = cid\<rparr>, h'))"

definition set_default_roots_pem :: "string \<Rightarrow> 'z store \<Rightarrow> 'z store" where
  "set_default_roots_pem pem h = h\<lparr>st_roots_pem := Some pem\<rparr>"

definition is_default_roots_pem_set :: "'z store \<Rightarrow> bool" where
  "is_default_roots_pem_set h \<longleftrightarrow> st_roots_pem h \<noteq> None"

definition invalidate_default_roots_pem :: "'z store \<Rightarrow> 'z store" where
  "invalidate_default_roots_pem h = h\<lparr>st_roots_pem := None\<rparr>"

text \<open>A fresh plugin cell.\<close>

definition new_plugin_cell :: "'z option \<Rightarrow> 'z store \<Rightarrow> nat \<times> 'z store" where
  "new_plugin_cell v h =
     (st_next h, h\<lparr>st_plugin := (st_plugin h)(st_next h := v), st_next := Suc (st_next h)\<rparr>)"

definition create_from_plugin ::
  "'z php \<Rightarrow> 'z \<Rightarrow> 'z store \<Rightarrow> (php_exception + call_credentials) \<times> 'z store" where
  "create_from_plugin Z callback h =
     (if \<not> zv_is_callable Z callback
      then (Inl (default_exception ''createFromPlugin expects a callable''), h)
      else (case new_plugin_cell (Some callback) h of (a, h') \<Rightarrow> (Inr \<lparr>pc_plugin = a\<rparr>, h')))"

definition call_create_composite ::
  "call_credentials \<Rightarrow> call_credentials \<Rightarrow> 'z store \<Rightarrow> call_credentials \<times> 'z store" where
  "call_create_composite creds1 creds2 h =
     (let plugin1 = st_plugin h (pc_plugin creds1);
          plugin = (case plugin1 of Some z \<Rightarrow> Some z | None \<Rightarrow> st_plugin h (pc_plugin creds2))
      in case new_plugin_cell plugin h of (a, h') \<Rightarrow> (\<lparr>pc_plugin = a\<rparr>, h'))"

section \<open>Properties\<close>

text \<open>The ids of the next \<open>k\<close> credential objects.\<close>

fun alloc_ids :: "nat \<Rightarrow> 'z store \<Rightarrow> u64 list" where
  "alloc_ids 0 h = []"
| "alloc_ids (Suc k) h = (case next_credentials_id h of (cid, h') \<Rightarrow> cid # alloc_ids k h')"

lemma alloc_ids_eq: "alloc_ids k h = map (\<lambda>i. st_next_cred h + of_nat i) [0..<k]"
proof (induction k arbitrary: h)
  case 0
  show ?case by simp
next
  case (Suc k)
  have "[0..<Suc k] = 0 # map Suc [0..<k]" by (simp add: upt_conv_Cons map_Suc_upt del: upt_Suc)
  with Suc show ?case by (simp add: next_credentials_id_def o_def ac_simps)
qed



text \<open>
  \<open>createSsl()\<close> without arguments and \<open>createDefault()\<close> configure TLS alike,
  whatever default roots are set; explicit roots take priority over the default,
  and a client identity is configured only when both its halves are given.
\<close>

theorem create_ssl_precedence:
  "cc_inner (fst (create_ssl None None None h)) = cc_inner (fst (create_default h))
   \<and> cc_inner (fst (create_ssl (Some pem) None None h)) = Ssl [With_webpki_roots, Ca_certificate pem]
   \<and> cc_inner (fst (create_ssl roots (Some k) None h)) = cc_inner (fst (create_ssl roots None None h))
   \<and> cc_inner (fst (create_ssl roots None (Some c) h)) = cc_inner (fst (create_ssl roots None None h))
   \<and> inner_tls (cc_inner (fst (create_ssl roots (Some k) (Some c) h)))
       = inner_tls (cc_inner (fst (create_ssl roots None None h))) @ [Tls_identity c k]"
  by (auto simp: create_ssl_def create_default_def inner_tls_def Let_def split: option.split prod.split)


end
