(* ===== verification/Channel.thy ===== *)
theory Channel
  imports Credentials Deadline "HOL-Library.Multiset" "HOL-Library.Char_ord" "HOL-Library.List_Lexorder"
begin

text \<open>
  \<open>Grpc\Channel\<close> (\<open>channel.rs\<close>): validation of the channel arguments, the key
  under which a transport is persisted, its reuse through the registry, the
  endpoint configuration, connectivity state and its watcher, and closing.
\<close>

record channel_inner =
  ci_shared :: nat
  ci_target :: string
  ci_call_plugin :: "nat option"
  ci_max_decoding :: "nat option"
  ci_max_encoding :: "nat option"

record grpc_channel =
  ch_inner :: "channel_inner option"
  ch_closed_flag :: nat

text \<open>
  What the constructor needs of the libraries: reading a \<open>ChannelCredentials\<close>
  object out of a value, and the errors tonic reports for a URI, a user agent and
  a TLS configuration.
\<close>

record 'z chan_env =
  ce_extract :: "'z \<Rightarrow> channel_credentials option"
  ce_uri_error :: "string \<Rightarrow> string option"
  ce_ua_error :: "string \<Rightarrow> string option"
  ce_tls_error :: "tls_config \<Rightarrow> string option"
  ce_rt :: rt_env

section \<open>Arguments\<close>

fun scan_args :: "'z php \<Rightarrow> 'z hash_table \<Rightarrow> bool \<Rightarrow> string list \<Rightarrow> php_exception + bool \<times> string list" where
  "scan_args Z [] force_new parts = Inr (force_new, parts)"
| "scan_args Z ((key, val) # ht) force_new parts =
     (case key of
        Key_Long n \<Rightarrow> Inl (invalid_argument Z ''args keys must be strings'')
      | other \<Rightarrow>
          (let key_str = key_display Z other in
           if key_str = ''credentials'' then scan_args Z ht force_new parts
           else if key_str = ''force_new'' then
             scan_args Z ht
               (unwrap_or False (zv_bool Z val) \<or> (case zv_long Z val of Some l \<Rightarrow> l \<noteq> 0 | None \<Rightarrow> False)) parts
           else (case zv_long Z val of
                   Some l \<Rightarrow> scan_args Z ht force_new (parts @ [key_str @ ''='' @ int_dec (sint l)])
                 | None \<Rightarrow>
                     (case zv_string Z val of
                        Some s \<Rightarrow> scan_args Z ht force_new (parts @ [key_str @ ''='' @ s])
                      | None \<Rightarrow> Inl (invalid_argument Z ''args values must be int or string'')))))"

definition arg_long :: "'z php \<Rightarrow> 'z hash_table \<Rightarrow> string \<Rightarrow> i64 option" where
  "arg_long Z args name = (case ht_get Z args name of None \<Rightarrow> None | Some v \<Rightarrow> zv_long Z v)"

definition arg_string :: "'z php \<Rightarrow> 'z hash_table \<Rightarrow> string \<Rightarrow> string option" where
  "arg_string Z args name = (case ht_get Z args name of None \<Rightarrow> None | Some v \<Rightarrow> zv_string Z v)"

text \<open>The credentials argument: its id, TLS configuration and plugin cell.\<close>

definition extract_credentials ::
  "'z php \<Rightarrow> 'z chan_env \<Rightarrow> 'z hash_table \<Rightarrow> php_exception + u64 \<times> tls_config option \<times> nat option" where
  "extract_credentials Z CE args =
     (case ht_get Z args ''credentials'' of
        None \<Rightarrow> Inr (0, None, None)
      | Some v \<Rightarrow>
          (if zv_is_null Z v then Inr (0, None, None)
           else (case ce_extract CE v of
                   None \<Rightarrow> Inl (invalid_argument Z ''credentials must be a ChannelCredentials object'')
                 | Some creds \<Rightarrow>
                     (case cc_inner creds of
                        Ssl tls \<Rightarrow> Inr (cc_id creds, Some tls, None)
                      | Composite tls plugin \<Rightarrow> Inr (cc_id creds, Some tls, Some plugin)))))"

text \<open>A message size limit: minus one means unlimited, other non-positive values none.\<close>

definition size_limit :: "'z php \<Rightarrow> 'z hash_table \<Rightarrow> string \<Rightarrow> nat option" where
  "size_limit Z args name =
     (case arg_long Z args name of
        None \<Rightarrow> None
      | Some v \<Rightarrow> if sint v = -1 then Some (2 ^ 64 - 1) else if sint v > 0 then Some (unat v) else None)"

definition persist_key :: "string \<Rightarrow> u64 \<Rightarrow> string list \<Rightarrow> string" where
  "persist_key target creds_id parts =
     target @ ''|creds='' @ nat_dec (unat creds_id) @ ''|'' @ join '','' parts"

section \<open>Endpoint\<close>

definition uri_target :: "string \<Rightarrow> bool \<Rightarrow> string" where
  "uri_target target tls =
     (if contains ''://'' target then target
      else if tls then ''https://'' @ target else ''http://'' @ target)"

definition positive_ms :: "'z php \<Rightarrow> 'z hash_table \<Rightarrow> string \<Rightarrow> nat option" where
  "positive_ms Z args name =
     (case arg_long Z args name of
        Some ms \<Rightarrow> if sint ms > 0 then Some (unat ms) else None
      | None \<Rightarrow> None)"

definition u32_arg :: "'z php \<Rightarrow> 'z hash_table \<Rightarrow> string \<Rightarrow> nat option" where
  "u32_arg Z args name =
     (case arg_long Z args name of
        Some n \<Rightarrow> if 0 \<le> sint n \<and> sint n < 2 ^ 32 then Some (unat n) else None
      | None \<Rightarrow> None)"

definition keepalive_calls :: "'z php \<Rightarrow> 'z hash_table \<Rightarrow> endpoint_call list" where
  "keepalive_calls Z args =
     (case positive_ms Z args ''grpc.keepalive_time_ms'' of Some ms \<Rightarrow> [Keep_alive_interval ms] | None \<Rightarrow> [])
     @ (case positive_ms Z args ''grpc.keepalive_timeout_ms'' of Some ms \<Rightarrow> [Keep_alive_timeout ms] | None \<Rightarrow> [])"

definition http2_calls :: "'z php \<Rightarrow> 'z hash_table \<Rightarrow> endpoint_call list" where
  "http2_calls Z args =
     (case u32_arg Z args ''grpc.http2.max_frame_size'' of
        Some n \<Rightarrow> if 16384 \<le> n \<and> n \<le> 16777215 then [Max_frame_size n] else []
      | None \<Rightarrow> [])
     @ (case u32_arg Z args ''grpc.http2.lookahead_bytes'' of
          Some n \<Rightarrow> if n > 0 then [Initial_stream_window_size n,
                                   Initial_connection_window_size (max n (5 * 1024 * 1024))] else []
        | None \<Rightarrow> [])
     @ (case arg_long Z args ''grpc.http2.bdp_probe'' of
          Some n \<Rightarrow> [Adaptive_window (sint n \<noteq> 0)]
        | None \<Rightarrow> [])"

definition override_tls :: "'z php \<Rightarrow> 'z hash_table \<Rightarrow> tls_config option \<Rightarrow> tls_config option" where
  "override_tls Z args tls =
     (case (arg_string Z args ''grpc.ssl_target_name_override'', tls) of
        (Some name, Some cfg) \<Rightarrow> Some (cfg @ [Domain_name name])
      | _ \<Rightarrow> tls)"

definition build_endpoint ::
  "'z php \<Rightarrow> 'z chan_env \<Rightarrow> string \<Rightarrow> 'z hash_table \<Rightarrow> tls_config option \<Rightarrow> grpc_error + endpoint" where
  "build_endpoint Z CE target args tls_config =
     (let uri = uri_target target (tls_config \<noteq> None) in
      case ce_uri_error CE uri of
        Some e \<Rightarrow> Inl (InvalidUri e)
      | None \<Rightarrow>
          (let calls0 = keepalive_calls Z args;
               tls = override_tls Z args tls_config;
               calls1 = calls0 @ http2_calls Z args in
           bind_res (case arg_string Z args ''grpc.primary_user_agent'' of
                       None \<Rightarrow> Inr calls1
                     | Some ua \<Rightarrow> (case ce_ua_error CE ua of
                                     Some e \<Rightarrow> Inl (InvalidArg e)
                                   | None \<Rightarrow> Inr (calls1 @ [User_agent ua])))
             (\<lambda>calls2.
                case tls of
                  None \<Rightarrow> Inr \<lparr>ep_uri = uri, ep_calls = calls2\<rparr>
                | Some cfg \<Rightarrow> (case ce_tls_error CE cfg of
                                 Some e \<Rightarrow> Inl (Transport e)
                               | None \<Rightarrow> Inr \<lparr>ep_uri = uri, ep_calls = calls2 @ [Use_tls cfg]\<rparr>))))"

section \<open>Construction\<close>

definition new_flag :: "'z store \<Rightarrow> nat \<times> 'z store" where
  "new_flag h = (st_next h, h\<lparr>st_flag := (st_flag h)(st_next h := False), st_next := Suc (st_next h)\<rparr>)"

definition new_shared :: "endpoint \<Rightarrow> 'z store \<Rightarrow> nat \<times> 'z store" where
  "new_shared ep h =
     (st_next h, h\<lparr>st_shared := (st_shared h)(st_next h \<mapsto> \<lparr>sc_channel = ep, sc_state = CHANNEL_IDLE\<rparr>),
                   st_next := Suc (st_next h)\<rparr>)"

definition wrap_channel ::
  "nat \<Rightarrow> string \<Rightarrow> nat option \<Rightarrow> nat option \<Rightarrow> nat option \<Rightarrow> 'z store \<Rightarrow> grpc_channel \<times> 'z store" where
  "wrap_channel shared target call_plugin max_dec max_enc h =
     (case new_flag h of (f, h') \<Rightarrow>
        (\<lparr>ch_inner = Some \<lparr>ci_shared = shared, ci_target = target, ci_call_plugin = call_plugin,
            ci_max_decoding = max_dec, ci_max_encoding = max_enc\<rparr>, ch_closed_flag = f\<rparr>, h'))"

definition channel_key ::
  "'z php \<Rightarrow> 'z chan_env \<Rightarrow> string \<Rightarrow> 'z hash_table
     \<Rightarrow> php_exception + string option \<times> tls_config option \<times> nat option" where
  "channel_key Z CE target args =
     bind_res (scan_args Z args False []) (\<lambda>(force_new, parts).
     bind_res (extract_credentials Z CE args) (\<lambda>(creds_id, tls_config, call_plugin).
       Inr (if call_plugin = None \<and> \<not> force_new
            then Some (persist_key target creds_id (sort parts)) else None,
            tls_config, call_plugin)))"

definition construct_channel ::
  "'z php \<Rightarrow> 'z chan_env \<Rightarrow> string \<Rightarrow> 'z hash_table \<Rightarrow> 'z store
     \<Rightarrow> (php_exception + grpc_channel) \<times> 'z store" where
  "construct_channel Z CE target args h =
     (case channel_key Z CE target args of
        Inl e \<Rightarrow> (Inl e, h)
      | Inr (key, tls_config, call_plugin) \<Rightarrow>
          (let max_dec = size_limit Z args ''grpc.max_receive_message_length'';
               max_enc = size_limit Z args ''grpc.max_send_message_length'' in
           case (case key of None \<Rightarrow> None | Some k \<Rightarrow> st_registry h k) of
             Some shared \<Rightarrow>
               (case wrap_channel shared target call_plugin max_dec max_enc h of (ch, h') \<Rightarrow> (Inr ch, h'))
           | None \<Rightarrow>
               (case build_endpoint Z CE target args tls_config of
                  Inl err \<Rightarrow> (Inl (exception_of_error err), h)
                | Inr ep \<Rightarrow>
                    (case store_runtime (ce_rt CE) h of
                       (Inl err, h1) \<Rightarrow> (Inl (exception_of_error err), h1)
                     | (Inr rt, h1) \<Rightarrow>
                         (case new_shared (ep\<lparr>ep_calls := ep_calls ep @ [Connect_timeout 20000]\<rparr>) h1 of
                            (shared, h2) \<Rightarrow>
                              (let h3 = (case key of None \<Rightarrow> h2
                                         | Some k \<Rightarrow> h2\<lparr>st_registry := (st_registry h2)(k \<mapsto> shared)\<rparr>)
                               in case wrap_channel shared target call_plugin max_dec max_enc h3 of
                                    (ch, h4) \<Rightarrow> (Inr ch, h4)))))))"

section \<open>Methods\<close>

definition get_target :: "'z php \<Rightarrow> grpc_channel \<Rightarrow> php_exception + string" where
  "get_target Z ch =
     bind_res (ok_or (ch_inner ch) (runtime_exception Z ''getTarget error.Channel is already closed.''))
       (\<lambda>inner. Inr (ci_target inner))"

text \<open>
  Work queued on the runtime runs while the PHP thread drives it. What such work
  does to connectivity is a list of writes to shared handles, in order.
\<close>

definition run_background :: "(nat \<times> i64) list \<Rightarrow> 'z store \<Rightarrow> 'z store" where
  "run_background bg h = fold (\<lambda>(a, v). set_conn_state a v) bg h"

definition shared_state :: "'z store \<Rightarrow> nat \<Rightarrow> i64" where
  "shared_state h a = unwrap_or CHANNEL_IDLE (conn_state h a)"

text \<open>
  \<open>bg\<close> are the writes that happen while \<open>pump\<close> runs queued work. The second
  component of the result tells whether a connection probe was spawned.
\<close>

definition get_connectivity_state ::
  "'z php \<Rightarrow> rt_env \<Rightarrow> (nat \<times> i64) list \<Rightarrow> 'z option \<Rightarrow> grpc_channel \<Rightarrow> 'z store
     \<Rightarrow> (php_exception + i64 \<times> bool) \<times> 'z store" where
  "get_connectivity_state Z E bg try_to_connect ch h =
     (if (case try_to_connect of None \<Rightarrow> False | Some zv \<Rightarrow> zv_bool Z zv = None)
      then (Inl (invalid_argument Z ''getConnectivityState expects a bool''), h)
      else (case ch_inner ch of
              None \<Rightarrow> (Inl (runtime_exception Z ''getConnectivityState error.Channel is already closed.''), h)
            | Some inner \<Rightarrow>
                (case store_pump E h of
                   (Inl err, h1) \<Rightarrow> (Inl (exception_of_error err), h1)
                 | (Inr n, h1) \<Rightarrow>
                     (let h2 = run_background bg h1;
                          current = shared_state h2 (ci_shared inner);
                          connect = unwrap_or False (case try_to_connect of None \<Rightarrow> None | Some zv \<Rightarrow> zv_bool Z zv) in
                      if connect \<and> current = CHANNEL_IDLE then
                        (case store_runtime E h2 of
                           (Inl err, h3) \<Rightarrow> (Inl (exception_of_error err), h3)
                         | (Inr rt, h3) \<Rightarrow>
                             (Inr (current, True), set_conn_state (ci_shared inner) CHANNEL_CONNECTING h3))
                      else (Inr (current, False), h2)))))"

text \<open>The completion of a connection probe.\<close>

definition probe_done :: "nat \<Rightarrow> bool \<Rightarrow> 'z store \<Rightarrow> 'z store" where
  "probe_done shared ready h =
     set_conn_state shared (if ready then CHANNEL_READY else CHANNEL_TRANSIENT_FAILURE) h"

text \<open>
  The polling loop of \<open>watchConnectivityState\<close>. Turn \<open>k\<close> reads the clock
  \<open>clock k\<close>, and \<open>bg k\<close> happens while it sleeps; the result lists the sleeps.
\<close>

definition watch_wait :: "i64 \<Rightarrow> i64 \<Rightarrow> i64" where
  "watch_wait deadline_usec now = i64_clamp (saturating_sub deadline_usec now) 1 10000"

partial_function (option) watch_loop ::
  "(nat \<Rightarrow> (nat \<times> i64) list) \<Rightarrow> (nat \<Rightarrow> clock_reading) \<Rightarrow> nat \<Rightarrow> i64 \<Rightarrow> i64 \<Rightarrow> nat \<Rightarrow> 'z store
     \<Rightarrow> (bool \<times> nat list \<times> 'z store) option" where
  "watch_loop bg clock shared last_state deadline_usec k h =
     (if shared_state h shared \<noteq> last_state then Some (True, [], h)
      else if sint (now_usec (clock k)) \<ge> sint deadline_usec then Some (False, [], h)
      else Option.bind
             (watch_loop bg clock shared last_state deadline_usec (Suc k) (run_background (bg k) h))
             (\<lambda>(b, ws, h'). Some (b, unat (watch_wait deadline_usec (now_usec (clock k))) # ws, h')))"

definition watch_connectivity_state ::
  "'z php \<Rightarrow> rt_env \<Rightarrow> clock_reading \<Rightarrow> (nat \<Rightarrow> (nat \<times> i64) list) \<Rightarrow> (nat \<Rightarrow> clock_reading) \<Rightarrow> i64
     \<Rightarrow> grpc_timeval \<Rightarrow> grpc_channel \<Rightarrow> 'z store \<Rightarrow> ((php_exception + bool) \<times> 'z store) option" where
  "watch_connectivity_state Z E r bg clock last_state deadline ch h =
     (case ch_inner ch of
        None \<Rightarrow> Some (Inl (runtime_exception Z ''watchConnectivityState errorChannel is already closed.''), h)
      | Some inner \<Rightarrow>
          (let deadline_usec = to_absolute_usec r deadline in
           case store_runtime E h of
             (Inl err, h1) \<Rightarrow> Some (Inl (exception_of_error err), h1)
           | (Inr rt, h1) \<Rightarrow>
               Option.bind (watch_loop bg clock (ci_shared inner) last_state deadline_usec 0 h1)
                 (\<lambda>(b, ws, h'). Some (Inr b, h'))))"

definition close_channel :: "grpc_channel \<Rightarrow> 'z store \<Rightarrow> grpc_channel \<times> 'z store" where
  "close_channel ch h =
     (ch\<lparr>ch_inner := None\<rparr>, h\<lparr>st_flag := (st_flag h)(ch_closed_flag ch := True)\<rparr>)"

section \<open>What calls read of a channel\<close>

definition get_tonic_channel :: "'z store \<Rightarrow> grpc_channel \<Rightarrow> endpoint option" where
  "get_tonic_channel h ch =
     (case ch_inner ch of None \<Rightarrow> None | Some i \<Rightarrow> map_option sc_channel (st_shared h (ci_shared i)))"

definition get_shared :: "grpc_channel \<Rightarrow> nat option" where
  "get_shared ch = map_option ci_shared (ch_inner ch)"

definition get_target_uri :: "grpc_channel \<Rightarrow> string option" where
  "get_target_uri ch = map_option ci_target (ch_inner ch)"

definition get_closed_flag :: "grpc_channel \<Rightarrow> nat" where
  "get_closed_flag ch = ch_closed_flag ch"

definition get_call_plugin :: "grpc_channel \<Rightarrow> nat option" where
  "get_call_plugin ch = (case ch_inner ch of None \<Rightarrow> None | Some i \<Rightarrow> ci_call_plugin i)"

definition get_max_decoding_message_size :: "grpc_channel \<Rightarrow> nat option" where
  "get_max_decoding_message_size ch = (case ch_inner ch of None \<Rightarrow> None | Some i \<Rightarrow> ci_max_decoding i)"

definition get_max_encoding_message_size :: "grpc_channel \<Rightarrow> nat option" where
  "get_max_encoding_message_size ch = (case ch_inner ch of None \<Rightarrow> None | Some i \<Rightarrow> ci_max_encoding i)"

section \<open>Well-formed stores\<close>

text \<open>
  Handles are allocated below \<open>st_next\<close>, registered handles exist, and no handle
  is registered under two keys.
\<close>

definition wf_store :: "'z store \<Rightarrow> bool" where
  "wf_store h \<longleftrightarrow>
     (\<forall>a. st_shared h a \<noteq> None \<longrightarrow> a < st_next h)
     \<and> (\<forall>k a. st_registry h k = Some a \<longrightarrow> st_shared h a \<noteq> None)
     \<and> (\<forall>k k' a. st_registry h k = Some a \<longrightarrow> st_registry h k' = Some a \<longrightarrow> k = k')"

lemma wf_empty [simp]: "wf_store empty_store"
  by (simp add: wf_store_def empty_store_def)

lemma wf_rt [simp]: "wf_store (h\<lparr>st_rt := g\<rparr>) = wf_store h"
  by (simp add: wf_store_def)

lemma wf_registered: "wf_store h \<Longrightarrow> st_registry h k = Some a \<Longrightarrow> st_shared h a \<noteq> None"
  unfolding wf_store_def by blast

lemma wf_registry_inj:
  "wf_store h \<Longrightarrow> st_registry h k = Some a \<Longrightarrow> st_registry h k' = Some a \<longleftrightarrow> k' = k"
  unfolding wf_store_def by blast

lemma wf_fresh:
  assumes "wf_store h"
  shows "st_shared h (st_next h) = None" and "st_registry h k \<noteq> Some (st_next h)"
  using assms unfolding wf_store_def by blast+

text \<open>
  What a successful construction does, on both paths: the transport that the key
  names is reused, or a new one in state \<open>IDLE\<close> is built and, when it has a key,
  registered; the wrapper gets a closed flag of its own.
\<close>

definition reuses :: "string option \<Rightarrow> 'z store \<Rightarrow> nat option" where
  "reuses key h = (case key of None \<Rightarrow> None | Some k \<Rightarrow> st_registry h k)"

lemma construct_channel_cases:
  assumes "construct_channel Z CE target args h = (r, h')"
  obtains (Failed) e g where "r = Inl e" "h' = h\<lparr>st_rt := g\<rparr>"
  | (Reused) ch key tls plugin inner a where
      "r = Inr ch" "channel_key Z CE target args = Inr (key, tls, plugin)"
      "ch = \<lparr>ch_inner = Some inner, ch_closed_flag = st_next h\<rparr>"
      "ci_shared inner = a" "ci_target inner = target" "ci_call_plugin inner = plugin"
      "reuses key h = Some a"
      "h' = h\<lparr>st_flag := (st_flag h)(st_next h := False), st_next := Suc (st_next h)\<rparr>"
  | (Built) ch key tls plugin inner ep g where
      "r = Inr ch" "channel_key Z CE target args = Inr (key, tls, plugin)"
      "ch = \<lparr>ch_inner = Some inner, ch_closed_flag = Suc (st_next h)\<rparr>"
      "ci_shared inner = st_next h" "ci_target inner = target" "ci_call_plugin inner = plugin"
      "reuses key h = None" "build_endpoint Z CE target args tls = Inr ep"
      "h' = h\<lparr>st_rt := g,
        st_shared := (st_shared h)(st_next h \<mapsto>
          \<lparr>sc_channel = ep\<lparr>ep_calls := ep_calls ep @ [Connect_timeout 20000]\<rparr>, sc_state = CHANNEL_IDLE\<rparr>),
        st_registry := (case key of None \<Rightarrow> st_registry h | Some k \<Rightarrow> (st_registry h)(k \<mapsto> st_next h)),
        st_flag := (st_flag h)(Suc (st_next h) := False), st_next := Suc (Suc (st_next h))\<rparr>"
proof (cases "channel_key Z CE target args")
  case (Inl e)
  with assms show thesis by (intro Failed [of e "st_rt h"]) (auto simp: construct_channel_def)
next
  case (Inr kp)
  obtain key tls plugin where kp: "kp = (key, tls, plugin)" by (cases kp)
  note unfolded = assms [unfolded construct_channel_def Inr kp sum.case prod.case Let_def
      reuses_def [symmetric]]
  show thesis
  proof (cases "reuses key h")
    case (Some a)
    with unfolded Inr kp show thesis
      by (intro Reused) (auto simp: wrap_channel_def new_flag_def)
  next
    case none: None
    show thesis
    proof (cases "build_endpoint Z CE target args tls")
      case (Inl e)
      with unfolded none show thesis
        by (intro Failed [of "exception_of_error e" "st_rt h"]) auto
    next
      case ep: (Inr ep)
      obtain rr g where rt: "store_runtime (ce_rt CE) h = (rr, h\<lparr>st_rt := g\<rparr>)"
        by (cases "get_runtime (ce_rt CE) (st_rt h)") (simp add: store_runtime_def)
      show thesis
      proof (cases rr)
        case (Inl e)
        with unfolded none ep rt show thesis
          by (intro Failed [of "exception_of_error e" g]) auto
      next
        case rr: (Inr b)
        from unfolded none ep rt rr Inr kp show thesis
          by (intro Built [where g = g])
            (auto simp: new_shared_def wrap_channel_def new_flag_def split: option.splits)
      qed
    qed
  qed
qed

lemma construct_channel_wf:
  assumes "construct_channel Z CE target args h = (r, h')" and "wf_store h"
  shows "wf_store h'"
  using assms(1)
proof (cases rule: construct_channel_cases)
  case Failed
  with assms(2) show ?thesis by simp
next
  case Reused
  with assms(2) show ?thesis by (simp add: wf_store_def less_SucI)
next
  case Built
  note fresh = wf_fresh(2) [OF assms(2)]
  with assms(2) Built(9) show ?thesis
    by (auto simp: wf_store_def less_SucI split: option.splits if_splits)
qed

text \<open>After a successful construction under a key, the key names the transport.\<close>

lemma construct_channel_registers:
  assumes "construct_channel Z CE target args h = (Inr ch, h')" and "wf_store h"
    and "channel_key Z CE target args = Inr (key, tls, plugin)"
  shows "\<exists>a. get_shared ch = Some a \<and> st_shared h' a \<noteq> None
     \<and> (\<forall>k. st_registry h' k = Some a \<longleftrightarrow> key = Some k)"
  using assms(1)
proof (cases rule: construct_channel_cases)
  case Failed
  then show ?thesis by simp
next
  case (Reused ch0 key0 tls0 plugin0 inner a)
  then obtain k where k: "key = Some k" "st_registry h k = Some a"
    using assms(3) by (auto simp: reuses_def split: option.splits)
  with Reused wf_registered [OF assms(2) k(2)] wf_registry_inj [OF assms(2) k(2)]
  show ?thesis by (intro exI [of _ a]) (simp add: get_shared_def eq_commute)
next
  case (Built ch0 key0 tls0 plugin0 inner ep g)
  with wf_fresh [OF assms(2)] assms(3) show ?thesis
    by (intro exI [of _ "st_next h"]) (simp add: get_shared_def split: option.split)
qed

lemma construct_channel_source:
  assumes "construct_channel Z CE target args h = (Inr ch, h')" and "wf_store h"
    and "get_shared ch = Some a"
  shows "st_shared h a = None \<or> (\<exists>k. st_registry h k = Some a)"
  using assms(1)
proof (cases rule: construct_channel_cases)
  case (Reused ch0 key tls plugin inner b)
  with assms(3) show ?thesis by (auto simp: get_shared_def reuses_def split: option.splits)
next
  case (Built ch0 key tls plugin inner ep g)
  with assms(3) wf_fresh(1) [OF assms(2)] show ?thesis by (simp add: get_shared_def)
qed simp

lemma construct_channel_flag:
  assumes "construct_channel Z CE target args h = (Inr ch, h')"
  shows "st_next h \<le> ch_closed_flag ch \<and> ch_closed_flag ch < st_next h' \<and> \<not> st_flag h' (ch_closed_flag ch)"
  using assms by (cases rule: construct_channel_cases) auto

lemma construct_channel_keeps:
  assumes "construct_channel Z CE target args h = (r, h')" and "wf_store h"
  shows "st_registry h \<subseteq>\<^sub>m st_registry h' \<and> st_shared h \<subseteq>\<^sub>m st_shared h' \<and> st_next h \<le> st_next h'
     \<and> (\<forall>a. a < st_next h \<longrightarrow> st_flag h' a = st_flag h a)"
  using assms(1)
proof (cases rule: construct_channel_cases)
  case (Built ch key tls plugin inner ep g)
  have "st_shared h \<subseteq>\<^sub>m st_shared h'"
    using Built(9) wf_fresh(1) [OF assms(2)] by (simp add: map_le_def dom_def)
  moreover have "st_registry h \<subseteq>\<^sub>m st_registry h'"
    using Built(7,9) by (auto simp: map_le_def reuses_def split: option.splits)
  ultimately show ?thesis using Built(9) by simp
qed (simp_all add: map_le_def)

section \<open>Which arguments a key stands for\<close>

definition arg_parts :: "'z php \<Rightarrow> 'z hash_table \<Rightarrow> string list" where
  "arg_parts Z args = (case scan_args Z args False [] of Inr (f, ps) \<Rightarrow> ps | Inl e \<Rightarrow> [])"

definition creds_id_of :: "'z php \<Rightarrow> 'z chan_env \<Rightarrow> 'z hash_table \<Rightarrow> u64" where
  "creds_id_of Z CE args = (case extract_credentials Z CE args of Inr (cid, x) \<Rightarrow> cid | Inl e \<Rightarrow> 0)"

definition delimiter_free :: "'z php \<Rightarrow> string \<Rightarrow> 'z hash_table \<Rightarrow> bool" where
  "delimiter_free Z target args \<longleftrightarrow>
     CHR ''|'' \<notin> set target \<and> list_all (\<lambda>p. CHR '','' \<notin> set p) (arg_parts Z args)"

lemma scan_args_nonempty:
  "scan_args Z args f ps = Inr (f', ps') \<Longrightarrow> \<forall>p\<in>set ps. p \<noteq> [] \<Longrightarrow> \<forall>p\<in>set ps'. p \<noteq> []"
  by (induction Z args f ps rule: scan_args.induct)
    (auto simp: Let_def split: array_key.splits if_splits option.splits)

lemma arg_parts_nonempty: "p \<in> set (arg_parts Z args) \<Longrightarrow> p \<noteq> []"
  using scan_args_nonempty [of Z args False "[]"]
  by (cases "scan_args Z args False []") (auto simp: arg_parts_def)

lemma channel_key_SomeD:
  assumes "channel_key Z CE target args = Inr (Some k, tls, plugin)"
  shows "k = persist_key target (creds_id_of Z CE args) (sort (arg_parts Z args)) \<and> plugin = None"
  using assms
  by (auto simp: channel_key_def arg_parts_def creds_id_of_def bind_res_eq_Inr split: if_splits)

lemma nat_dec_no_bar: "CHR ''|'' \<notin> set (nat_dec n)"
  using nat_dec_digits [of "CHR ''|''" n] by (auto simp: digit_val_def)

lemma persist_key_inject:
  assumes "CHR ''|'' \<notin> set t1" and "CHR ''|'' \<notin> set t2"
  shows "persist_key t1 c1 ps1 = persist_key t2 c2 ps2 \<longleftrightarrow>
     t1 = t2 \<and> c1 = c2 \<and> join '','' ps1 = join '','' ps2"
  using delimited_inject [OF assms, of "''creds='' @ nat_dec (unat c1) @ ''|'' @ join '','' ps1"
      "''creds='' @ nat_dec (unat c2) @ ''|'' @ join '','' ps2"]
    delimited_inject [OF nat_dec_no_bar nat_dec_no_bar, of "unat c1" "join '','' ps1" "unat c2" "join '','' ps2"]
  by (auto simp: persist_key_def nat_dec_inject word_unat_eq_iff)

text \<open>
  A concrete environment for statements on concrete arguments: no credentials
  objects, libraries that accept every URI, user agent and TLS configuration, and
  a runtime that can be built.
\<close>

definition plain_rt :: rt_env where
  "plain_rt = \<lparr>env_var = None, env_thread = 0, env_built = Inr 1, env_racing = None\<rparr>"

definition plain_env :: "'z chan_env" where
  "plain_env = \<lparr>ce_extract = (\<lambda>v. None), ce_uri_error = (\<lambda>u. None), ce_ua_error = (\<lambda>u. None),
     ce_tls_error = (\<lambda>c. None), ce_rt = plain_rt\<rparr>"

lemma plain_channel_key:
  "channel_key plain_php plain_env t [] = Inr (Some (persist_key t 0 []), None, None)"
  by (simp add: channel_key_def extract_credentials_def plain_get_def)

lemma plain_runtime: "\<exists>rt h'. store_runtime plain_rt h = (Inr rt, h')"
proof (cases "get_runtime plain_rt (st_rt h)")
  case (Pair r g)
  then have "\<exists>rt. r = Inr rt"
    by (auto simp: get_runtime_def get_mode_def plain_rt_def once_set_def parse_mode_def Let_def
        split: option.splits mode.splits prod.splits)
  with Pair show ?thesis by (auto simp: store_runtime_def)
qed

lemma plain_construct: "\<exists>ch h'. construct_channel plain_php plain_env t [] h = (Inr ch, h')"
proof -
  obtain ep where ep: "build_endpoint plain_php plain_env t [] None = Inr ep"
    by (simp add: build_endpoint_def plain_env_def arg_string_def plain_get_def override_tls_def)
  obtain rt h1 where "store_runtime plain_rt h = (Inr rt, h1)" using plain_runtime by blast
  then show ?thesis
    by (auto simp: construct_channel_def plain_channel_key ep plain_env_def [THEN arg_cong, of ce_rt]
        wrap_channel_def new_flag_def new_shared_def Let_def split: option.split)
qed

section \<open>The endpoint\<close>

text \<open>What the keepalive and HTTP/2 options can contribute.\<close>

lemma keepalive_calls_shape:
  "c \<in> set (keepalive_calls Z args) \<Longrightarrow> \<exists>n. c = Keep_alive_interval n \<or> c = Keep_alive_timeout n"
  by (auto simp: keepalive_calls_def split: option.splits)

lemma http2_calls_ranges:
  "Max_frame_size n \<in> set (http2_calls Z args) \<Longrightarrow> 16384 \<le> n \<and> n \<le> 16777215"
  "Initial_stream_window_size n \<in> set (http2_calls Z args) \<Longrightarrow>
     Initial_connection_window_size (max n 5242880) \<in> set (http2_calls Z args)"
  "Use_tls cfg \<notin> set (http2_calls Z args)"
  by (auto simp: http2_calls_def split: option.splits if_splits)

lemma build_endpoint_shape:
  assumes "build_endpoint Z CE target args tls = Inr ep"
  obtains ua where "\<forall>c\<in>set ua. \<exists>s. c = User_agent s"
    "ep = \<lparr>ep_uri = uri_target target (tls \<noteq> None),
       ep_calls = keepalive_calls Z args @ http2_calls Z args @ ua
         @ (case override_tls Z args tls of None \<Rightarrow> [] | Some cfg \<Rightarrow> [Use_tls cfg])\<rparr>"
proof -
  define tail where "tail = (case override_tls Z args tls of None \<Rightarrow> [] | Some cfg \<Rightarrow> [Use_tls cfg])"
  have "\<exists>ua. (\<forall>c\<in>set ua. \<exists>s. c = User_agent s)
      \<and> ep = \<lparr>ep_uri = uri_target target (tls \<noteq> None),
           ep_calls = keepalive_calls Z args @ http2_calls Z args @ ua @ tail\<rparr>"
  proof (cases "arg_string Z args ''grpc.primary_user_agent''")
    case None
    with assms show ?thesis
      by (intro exI [of _ "[]"])
        (auto simp: build_endpoint_def tail_def Let_def split: option.splits)
  next
    case (Some s)
    with assms show ?thesis
      by (intro exI [of _ "[User_agent s]"])
        (auto simp: build_endpoint_def tail_def Let_def split: option.splits)
  qed
  then show thesis using that unfolding tail_def by blast
qed

lemma override_tls_None: "override_tls Z args tls = None \<longleftrightarrow> tls = None"
  by (auto simp: override_tls_def split: option.splits)

lemma build_endpoint_uri:
  "build_endpoint Z CE target args tls = Inr ep \<Longrightarrow> ep_uri ep = uri_target target (tls \<noteq> None)"
  by (erule build_endpoint_shape) simp

lemma build_endpoint_tls:
  assumes "build_endpoint Z CE target args tls = Inr ep"
  shows "(\<exists>cfg. Use_tls cfg \<in> set (ep_calls ep)) \<longleftrightarrow> tls \<noteq> None"
  using assms override_tls_None [of Z args tls]
  by (elim build_endpoint_shape)
    (auto simp: http2_calls_ranges dest: keepalive_calls_shape split: option.splits)

lemma build_endpoint_calls:
  assumes "build_endpoint Z CE target args tls = Inr ep"
  shows "set (http2_calls Z args) \<subseteq> set (ep_calls ep)"
    and "Max_frame_size n \<in> set (ep_calls ep) \<Longrightarrow> Max_frame_size n \<in> set (http2_calls Z args)"
    and "Initial_stream_window_size n \<in> set (ep_calls ep) \<Longrightarrow>
      Initial_stream_window_size n \<in> set (http2_calls Z args)"
  using assms
  by (auto elim!: build_endpoint_shape dest: keepalive_calls_shape split: option.splits)

section \<open>Properties\<close>

text \<open>
  C8. Two channels of a thread share a transport exactly when both have a
  persistence key (no call credentials plugin, no \<open>force_new\<close>) and the keys are
  equal; each object has a closed flag of its own, and neither is closed.
\<close>

theorem channel_sharing:
  assumes "wf_store h"
    and "construct_channel Z CE t1 args1 h = (Inr ch1, h1)"
    and "construct_channel Z CE t2 args2 h1 = (Inr ch2, h2)"
    and "channel_key Z CE t1 args1 = Inr (key1, tls1, plugin1)"
    and "channel_key Z CE t2 args2 = Inr (key2, tls2, plugin2)"
  shows "(get_shared ch1 = get_shared ch2 \<longleftrightarrow> key1 = key2 \<and> key1 \<noteq> None)
     \<and> ch_closed_flag ch1 \<noteq> ch_closed_flag ch2
     \<and> \<not> st_flag h2 (ch_closed_flag ch1) \<and> \<not> st_flag h2 (ch_closed_flag ch2)"
proof -
  have wf1: "wf_store h1" by (rule construct_channel_wf [OF assms(2,1)])
  obtain a where a: "get_shared ch1 = Some a" "\<And>k. st_registry h1 k = Some a \<longleftrightarrow> key1 = Some k"
    "st_shared h1 a \<noteq> None"
    using construct_channel_registers [OF assms(2,1,4)] by blast
  obtain b where b: "get_shared ch2 = Some b" "\<And>k. st_registry h2 k = Some b \<longleftrightarrow> key2 = Some k"
    using construct_channel_registers [OF assms(3) wf1 assms(5)] by blast
  note keeps = construct_channel_keeps [OF assms(3) wf1]
  then have kept: "st_registry h2 k = Some c" if "st_registry h1 k = Some c" for k c
    using that by (metis map_le_def domI)
  have "a = b \<longleftrightarrow> key1 = key2 \<and> key1 \<noteq> None"
  proof (cases key1)
    case None
    then have "\<not> (st_shared h1 b = None \<or> (\<exists>k. st_registry h1 k = Some b))" if "a = b"
      using a(2,3) that by simp
    with construct_channel_source [OF assms(3) wf1 b(1)] None show ?thesis by blast
  next
    case (Some k)
    then have "st_registry h2 k = Some a" using a(2) kept by blast
    with b(2) [of k] Some show ?thesis by auto
  qed
  moreover have "ch_closed_flag ch1 < st_next h1" "\<not> st_flag h1 (ch_closed_flag ch1)"
    using construct_channel_flag [OF assms(2)] by auto
  moreover have "st_next h1 \<le> ch_closed_flag ch2" "\<not> st_flag h2 (ch_closed_flag ch2)"
    using construct_channel_flag [OF assms(3)] by auto
  ultimately show ?thesis using a(1) b(1) keeps by simp
qed

theorem channel_sharing_witness:
  "\<exists>ch1 h1 ch2 h2.
     construct_channel plain_php plain_env ''localhost:50051'' [] empty_store = (Inr ch1, h1)
     \<and> construct_channel plain_php plain_env ''localhost:50051'' [] h1 = (Inr ch2, h2)
     \<and> get_shared ch1 = get_shared ch2 \<and> ch_closed_flag ch1 \<noteq> ch_closed_flag ch2"
proof -
  let ?t = "''localhost:50051''"
  obtain ch1 h1 where c1: "construct_channel plain_php plain_env ?t [] empty_store = (Inr ch1, h1)"
    using plain_construct by blast
  obtain ch2 h2 where c2: "construct_channel plain_php plain_env ?t [] h1 = (Inr ch2, h2)"
    using plain_construct by blast
  from channel_sharing [OF wf_empty c1 c2 plain_channel_key plain_channel_key] c1 c2
  show ?thesis by blast
qed






section \<open>Watching connectivity\<close>

text \<open>
  What the loop relies on of \<open>tokio::time::sleep\<close> and the clock: a sleep takes at
  least the time asked for.
\<close>

definition sleeps_enough :: "i64 \<Rightarrow> (nat \<Rightarrow> clock_reading) \<Rightarrow> bool" where
  "sleeps_enough deadline_usec clock \<longleftrightarrow>
     (\<forall>k. sint (now_usec (clock k)) < sint deadline_usec \<longrightarrow>
        sint (now_usec (clock k)) + sint (watch_wait deadline_usec (now_usec (clock k)))
          \<le> sint (now_usec (clock (Suc k))))"

lemma sint_watch_wait:
  "sint now < sint d \<Longrightarrow> sint (watch_wait d now) = min 10000 (sint d - sint now)"
  by (auto simp: watch_wait_def i64_clamp_def i64_arith)

text \<open>The store after the background work of the first \<open>n\<close> sleeps.\<close>

fun after_sleeps :: "(nat \<Rightarrow> (nat \<times> i64) list) \<Rightarrow> nat \<Rightarrow> nat \<Rightarrow> 'z store \<Rightarrow> 'z store" where
  "after_sleeps bg k 0 h = h"
| "after_sleeps bg k (Suc n) h = after_sleeps bg (Suc k) n (run_background (bg k) h)"

lemma watch_loop_returns:
  assumes "sleeps_enough d clock"
  shows "\<exists>b ws. watch_loop bg clock a last_state d k h = Some (b, ws, after_sleeps bg k (length ws) h)
     \<and> (b \<longleftrightarrow> shared_state (after_sleeps bg k (length ws) h) a \<noteq> last_state)
     \<and> (\<not> b \<longrightarrow> sint d \<le> sint (now_usec (clock (k + length ws))))
     \<and> int (sum_list ws) \<le> max 0 (sint d - sint (now_usec (clock k)))"
proof (induction "nat (sint d - sint (now_usec (clock k)))" arbitrary: k h rule: less_induct)
  case less
  let ?now = "\<lambda>k. sint (now_usec (clock k))" and ?w = "watch_wait d (now_usec (clock k))"
  show ?case
  proof (cases "shared_state h a \<noteq> last_state \<or> ?now k \<ge> sint d")
    case True
    then show ?thesis
      by (intro exI [of _ "shared_state h a \<noteq> last_state"] exI [of _ "[]"])
        (auto simp: watch_loop.simps [of bg clock a last_state d k h])
  next
    case False
    then have now: "?now k < sint d" and same: "shared_state h a = last_state" by auto
    have w: "1 \<le> sint ?w" "sint ?w \<le> sint d - ?now k" "?now k + sint ?w \<le> ?now (Suc k)"
      using sint_watch_wait [OF now] now assms by (auto simp: sleeps_enough_def)
    then have "nat (sint d - ?now (Suc k)) < nat (sint d - ?now k)" by simp
    from less [OF this, of "run_background (bg k) h"] obtain b ws
      where step: "watch_loop bg clock a last_state d (Suc k) (run_background (bg k) h)
          = Some (b, ws, after_sleeps bg (Suc k) (length ws) (run_background (bg k) h))"
        and rest: "b \<longleftrightarrow> shared_state (after_sleeps bg (Suc k) (length ws) (run_background (bg k) h)) a \<noteq> last_state"
          "\<not> b \<longrightarrow> sint d \<le> ?now (Suc k + length ws)"
          "int (sum_list ws) \<le> max 0 (sint d - ?now (Suc k))" by blast
    have "watch_loop bg clock a last_state d k h
        = Some (b, unat ?w # ws, after_sleeps bg k (length (unat ?w # ws)) h)"
      using step same now by (simp add: watch_loop.simps [of bg clock a last_state d k h])
    moreover have "int (unat ?w) = sint ?w" using w(1) by (simp add: unat_eq_nat_sint)
    ultimately show ?thesis
      using rest w by (intro exI [of _ b] exI [of _ "unat ?w # ws"]) auto
  qed
qed



end
