(* ===== verification/Call.thy ===== *)
theory Call
  imports Stream_Reader Channel
begin

text \<open>
  \<open>Grpc\Call\<close> (\<open>call.rs\<close>): parsing a batch of operations, the fields a call keeps
  between batches, the dispatch of a batch to the unary or the streaming
  machinery, and the results handed to PHP. What the libraries and the network do
  during one method call is a record of outcomes passed as an argument.
\<close>

section \<open>Batches\<close>

definition OP_SEND_INITIAL_METADATA :: i64 where "OP_SEND_INITIAL_METADATA = 0"
definition OP_SEND_MESSAGE :: i64 where "OP_SEND_MESSAGE = 1"
definition OP_SEND_CLOSE_FROM_CLIENT :: i64 where "OP_SEND_CLOSE_FROM_CLIENT = 2"
definition OP_RECV_INITIAL_METADATA :: i64 where "OP_RECV_INITIAL_METADATA = 4"
definition OP_RECV_MESSAGE :: i64 where "OP_RECV_MESSAGE = 5"
definition OP_RECV_STATUS_ON_CLIENT :: i64 where "OP_RECV_STATUS_ON_CLIENT = 6"

lemmas op_codes = OP_SEND_INITIAL_METADATA_def OP_SEND_MESSAGE_def OP_SEND_CLOSE_FROM_CLIENT_def
  OP_RECV_INITIAL_METADATA_def OP_RECV_MESSAGE_def OP_RECV_STATUS_ON_CLIENT_def

record batch_ops =
  bo_send_metadata :: "(string \<times> string) list"
  bo_has_send_initial_metadata :: bool
  bo_send_message :: "bytes option"
  bo_send_close :: bool
  bo_recv_initial_metadata :: bool
  bo_recv_message :: bool
  bo_recv_status :: bool
  bo_has_send_ops :: bool
  bo_has_recv_ops :: bool

definition empty_batch :: batch_ops where
  "empty_batch = \<lparr>bo_send_metadata = [], bo_has_send_initial_metadata = False,
     bo_send_message = None, bo_send_close = False, bo_recv_initial_metadata = False,
     bo_recv_message = False, bo_recv_status = False, bo_has_send_ops = False,
     bo_has_recv_ops = False\<rparr>"

text \<open>The message bytes of a \<open>SEND_MESSAGE\<close> value.\<close>

definition parse_send_message :: "'z php \<Rightarrow> 'z \<Rightarrow> php_exception + bytes" where
  "parse_send_message Z val =
     bind_res (ok_or (zv_array Z val) (invalid_argument Z ''Expected an array for send message'')) (\<lambda>ht.
       if (case ht_get Z ht ''flags'' of Some flags \<Rightarrow> zv_long Z flags = None | None \<Rightarrow> False)
       then Inl (invalid_argument Z ''Expected an int for message flags'')
       else ok_or (case ht_get Z ht ''message'' of None \<Rightarrow> None | Some z \<Rightarrow> zv_zend_str Z z)
              (invalid_argument Z ''Expected a string for send message''))"

fun parse_ops_loop :: "'z php \<Rightarrow> 'z hash_table \<Rightarrow> batch_ops \<Rightarrow> php_exception + batch_ops" where
  "parse_ops_loop Z [] b = Inr b"
| "parse_ops_loop Z ((key, val) # ops) b =
     bind_res (map_err exception_of_error (array_key_to_long Z key)) (\<lambda>op_code.
       if op_code = OP_SEND_INITIAL_METADATA then
         bind_res (ok_or (zv_array Z val) (invalid_argument Z ''Bad metadata value given'')) (\<lambda>ht.
         bind_res (parse_send_metadata Z ht) (\<lambda>md.
           parse_ops_loop Z ops (b\<lparr>bo_has_send_ops := True, bo_has_send_initial_metadata := True,
             bo_send_metadata := md\<rparr>)))
       else if op_code = OP_SEND_MESSAGE then
         bind_res (parse_send_message Z val) (\<lambda>m.
           parse_ops_loop Z ops (b\<lparr>bo_has_send_ops := True, bo_send_message := Some m\<rparr>))
       else if op_code = OP_SEND_CLOSE_FROM_CLIENT then
         parse_ops_loop Z ops (b\<lparr>bo_has_send_ops := True, bo_send_close := True\<rparr>)
       else if op_code = OP_RECV_INITIAL_METADATA then
         parse_ops_loop Z ops (b\<lparr>bo_has_recv_ops := True, bo_recv_initial_metadata := True\<rparr>)
       else if op_code = OP_RECV_MESSAGE then
         parse_ops_loop Z ops (b\<lparr>bo_has_recv_ops := True, bo_recv_message := True\<rparr>)
       else if op_code = OP_RECV_STATUS_ON_CLIENT then
         parse_ops_loop Z ops (b\<lparr>bo_has_recv_ops := True, bo_recv_status := True\<rparr>)
       else Inl (invalid_argument Z ''Unrecognized key in batch''))"

definition parse_ops :: "'z php \<Rightarrow> 'z hash_table \<Rightarrow> php_exception + batch_ops" where
  "parse_ops Z ops = parse_ops_loop Z ops empty_batch"

definition batch_flags :: "batch_ops \<Rightarrow> recv_flags" where
  "batch_flags b = \<lparr>rf_initial_metadata = bo_recv_initial_metadata b,
     rf_message = bo_recv_message b, rf_status = bo_recv_status b\<rparr>"

section \<open>The call\<close>

text \<open>The cancellation token is the flag saying whether it was cancelled.\<close>

record ('w, 'm) grpc_call =
  gc_channel :: endpoint
  gc_method :: string
  gc_target :: string
  gc_deadline_usec :: i64
  gc_host_override :: "string option"
  gc_call_plugin :: "nat option"
  gc_cancelled :: bool
  gc_max_decoding :: "nat option"
  gc_max_encoding :: "nat option"
  gc_pending_metadata :: "(string \<times> string) list"
  gc_pending_message :: "bytes option"
  gc_send_closed :: bool
  gc_initial_metadata_sent :: bool
  gc_finished :: bool
  gc_channel_closed :: nat
  gc_channel_shared :: "nat option"
  gc_stream_state :: "('w, 'm) active_stream option"

section \<open>What the libraries do during a call\<close>

record client =
  cl_channel :: endpoint
  cl_max_decoding :: "nat option"
  cl_max_encoding :: "nat option"

datatype unary_ready = U_Ready | U_Ready_Err string | U_Ready_Elapsed

datatype 'm unary_outcome =
    U_Deadline
  | U_Response 'm bytes
  | U_Status "'m tonic_status"
  | U_Cancelled

datatype sock_addr = Addr_V4 string | Addr_V6 string

text \<open>
  Clock readings at the program points that take one, the check of the method
  path, the outcome of connecting and of the race that a unary call runs, and what
  a driver task will see. Outcomes depend on the request that is sent.
\<close>

record 'm net =
  ne_rt :: rt_env
  ne_expiry_clock :: clock_reading
  ne_request_clock :: clock_reading
  ne_instant_clock :: clock_reading
  ne_status_clock :: clock_reading
  ne_path_error :: "string \<Rightarrow> string option"
  ne_unary_ready :: "client \<Rightarrow> nat \<Rightarrow> unary_ready"
  ne_unary :: "client \<Rightarrow> string \<Rightarrow> (bytes, 'm) tonic_request \<Rightarrow> nat \<Rightarrow> 'm unary_outcome"
  ne_server_stream :: "client \<Rightarrow> string \<Rightarrow> (bytes, 'm) tonic_request
     \<Rightarrow> 'm ready_outcome \<times> 'm open_outcome \<times> 'm stream_event list"
  ne_bidi_stream :: "client \<Rightarrow> string \<Rightarrow> (unit, 'm) tonic_request
     \<Rightarrow> 'm ready_outcome \<times> 'm open_outcome \<times> 'm stream_event list"
  ne_lookup :: "string \<Rightarrow> sock_addr option"

definition call_client :: "('w, 'm) grpc_call \<Rightarrow> client" where
  "call_client c = \<lparr>cl_channel = gc_channel c, cl_max_decoding = gc_max_decoding c,
     cl_max_encoding = gc_max_encoding c\<rparr>"

section \<open>Construction and small methods\<close>

definition construct_call ::
  "'z php \<Rightarrow> clock_reading \<Rightarrow> grpc_channel \<Rightarrow> string \<Rightarrow> grpc_timeval \<Rightarrow> string option \<Rightarrow> 'z store
     \<Rightarrow> php_exception + ('w, 'm) grpc_call" where
  "construct_call Z r ch method deadline host_override h =
     bind_res (ok_or (get_tonic_channel h ch)
         (invalid_argument Z ''Call cannot be constructed from a closed Channel'')) (\<lambda>tonic_channel.
       Inr \<lparr>gc_channel = tonic_channel, gc_method = method,
            gc_target = unwrap_or [] (get_target_uri ch),
            gc_deadline_usec = to_absolute_usec r deadline,
            gc_host_override = host_override, gc_call_plugin = get_call_plugin ch,
            gc_cancelled = False,
            gc_max_decoding = get_max_decoding_message_size ch,
            gc_max_encoding = get_max_encoding_message_size ch,
            gc_pending_metadata = [], gc_pending_message = None, gc_send_closed = False,
            gc_initial_metadata_sent = False, gc_finished = False,
            gc_channel_closed = get_closed_flag ch, gc_channel_shared = get_shared ch,
            gc_stream_state = None\<rparr>)"

definition get_peer :: "'m net \<Rightarrow> ('w, 'm) grpc_call \<Rightarrow> 'z store \<Rightarrow> string \<times> 'z store" where
  "get_peer N c h =
     (case store_runtime (ne_rt N) h of
        (Inl e, h') \<Rightarrow> (gc_target c, h')
      | (Inr rt, h') \<Rightarrow>
          (case ne_lookup N (gc_target c) of
             Some (Addr_V4 a) \<Rightarrow> (''ipv4:'' @ a, h')
           | Some (Addr_V6 a) \<Rightarrow> (''ipv6:'' @ a, h')
           | None \<Rightarrow> (gc_target c, h')))"

definition cancel :: "('w, 'm) grpc_call \<Rightarrow> ('w, 'm) grpc_call" where
  "cancel c = c\<lparr>gc_cancelled := True\<rparr>"

definition set_credentials :: "call_credentials \<Rightarrow> ('w, 'm) grpc_call \<Rightarrow> int \<times> ('w, 'm) grpc_call" where
  "set_credentials creds c = (0, c\<lparr>gc_call_plugin := Some (pc_plugin creds)\<rparr>)"

section \<open>Unary execution\<close>

text \<open>Initial metadata, body, trailing metadata, status code and message.\<close>

type_synonym 'm call_result = "'m option \<times> bytes option \<times> 'm option \<times> int \<times> string"

definition deadline_exceeded_result :: "('m, 'v) md_api \<Rightarrow> 'm call_result" where
  "deadline_exceeded_result M = (None, None, Some (md_default M), 4, ''Deadline Exceeded'')"

definition unary_call ::
  "('m, 'v) md_api \<Rightarrow> 'm net \<Rightarrow> ('w, 'm) grpc_call \<Rightarrow> (string \<times> string) list \<Rightarrow> (string \<times> string) list
     \<Rightarrow> bytes option \<Rightarrow> grpc_error + 'm call_result" where
  "unary_call M N c send_metadata plugin_metadata send_message =
     (case ne_path_error N (gc_method c) of
        Some e \<Rightarrow> Inl (InvalidArg (''invalid method path: '' @ e))
      | None \<Rightarrow>
          (let request = build_request M (ne_request_clock N) send_metadata plugin_metadata
                 (unwrap_or [] send_message) (gc_deadline_usec c);
               grpc_client = call_client c;
               deadline = deadline_instant (ne_instant_clock N) (gc_deadline_usec c) in
           case ne_unary_ready N grpc_client deadline of
             U_Ready_Err e \<Rightarrow> Inl (Transport e)
           | U_Ready_Elapsed \<Rightarrow> Inr (deadline_exceeded_result M)
           | U_Ready \<Rightarrow>
               (case ne_unary N grpc_client (gc_method c) request deadline of
                  U_Deadline \<Rightarrow> Inr (deadline_exceeded_result M)
                | U_Response resp_metadata body \<Rightarrow> Inr (Some resp_metadata, Some body, None, 0, [])
                | U_Status st \<Rightarrow>
                    (case status_to_php (ne_status_clock N) st (gc_deadline_usec c) of (code, msg) \<Rightarrow>
                       Inr (None, None, Some (status_metadata_for_php M st), code, msg))
                | U_Cancelled \<Rightarrow> Inl (Status 1 ''Call cancelled''))))"

definition outcome_state :: "grpc_error + 'm call_result \<Rightarrow> i64" where
  "outcome_state result =
     (case result of
        Inr (md, body, tr, code, msg) \<Rightarrow> if code = 14 then CHANNEL_TRANSIENT_FAILURE else CHANNEL_READY
      | Inl e \<Rightarrow> CHANNEL_TRANSIENT_FAILURE)"

definition execute_call ::
  "('m, 'v) md_api \<Rightarrow> 'm net \<Rightarrow> ('w, 'm) grpc_call \<Rightarrow> (string \<times> string) list \<Rightarrow> (string \<times> string) list
     \<Rightarrow> bytes option \<Rightarrow> 'z store \<Rightarrow> (php_exception + 'm call_result) \<times> 'z store" where
  "execute_call M N c send_metadata plugin_metadata send_message h =
     (case store_runtime (ne_rt N) h of
        (Inl e, h1) \<Rightarrow> (Inl (exception_of_error e), h1)
      | (Inr rt, h1) \<Rightarrow>
          (case store_pump (ne_rt N) h1 of
             (Inl e, h2) \<Rightarrow> (Inl (exception_of_error e), h2)
           | (Inr ticks, h2) \<Rightarrow>
               (if deadline_already_expired (ne_expiry_clock N) (gc_deadline_usec c)
                then (Inr (None, None, Some (md_default M), 4, ''Deadline Exceeded''), h2)
                else (let result = unary_call M N c send_metadata plugin_metadata send_message;
                          h3 = (case gc_channel_shared c of
                                  None \<Rightarrow> h2
                                | Some a \<Rightarrow> set_conn_state a (outcome_state result) h2)
                      in (map_err exception_of_error result, h3)))))"

definition build_unary_result ::
  "'z php \<Rightarrow> ('m, 'v) md_api \<Rightarrow> recv_flags \<Rightarrow> 'm call_result \<Rightarrow> php_exception + php_obj" where
  "build_unary_result Z M flags result =
     (case result of (initial_metadata, body, trailing_metadata, status_code, status_message) \<Rightarrow>
        bind_res (if rf_initial_metadata flags then set_metadata Z M ''metadata'' [] initial_metadata
                  else Inr []) (\<lambda>ob1.
        bind_res (if rf_message flags
                  then set_property Z ''message'' ob1 ''message''
                    (case body of Some bytes \<Rightarrow> bytes_to_php_string_zval bytes | None \<Rightarrow> P_Null)
                  else Inr ob1) (\<lambda>ob2.
        if rf_status flags
        then bind_res (status_object Z M trailing_metadata status_code status_message) (\<lambda>status_obj.
               set_property Z ''status'' ob2 ''status'' (P_Obj status_obj))
        else Inr ob2)))"

section \<open>Streams\<close>

text \<open>A method with a mutable receiver: its result, the call and the store.\<close>

type_synonym ('w, 'm, 'z, 'a) call_m = "(php_exception + 'a) \<times> ('w, 'm) grpc_call \<times> 'z store"

definition with_store :: "('w, 'm) grpc_call \<Rightarrow> (grpc_error + 'a) \<times> 'z store \<Rightarrow> ('w, 'm, 'z, 'a) call_m" where
  "with_store c r = (map_err exception_of_error (fst r), c, snd r)"

definition start_server_stream ::
  "('m, 'v) md_api \<Rightarrow> ('w, 'm) tokio \<Rightarrow> 'm net \<Rightarrow> (string \<times> string) list \<Rightarrow> (string \<times> string) list
     \<Rightarrow> bytes option \<Rightarrow> ('w, 'm) grpc_call \<Rightarrow> 'z store \<Rightarrow> ('w, 'm, 'z, unit) call_m" where
  "start_server_stream M T N send_metadata plugin_metadata send_message c0 h0 =
     bind_st (with_store c0 (store_runtime (ne_rt N) h0)) (\<lambda>rt (c, h).
     bind_st (with_store c (store_pump (ne_rt N) h)) (\<lambda>ticks (c, h).
       if deadline_already_expired (ne_expiry_clock N) (gc_deadline_usec c)
       then (Inr (), c\<lparr>gc_stream_state := Some (expired_stream_state M T)\<rparr>, h)
       else (case ne_path_error N (gc_method c) of
               Some e \<Rightarrow> (Inl (exception_of_error (InvalidArg (''invalid method path: '' @ e))), c, h)
             | None \<Rightarrow>
                 (let request = build_request M (ne_request_clock N) send_metadata plugin_metadata
                        (unwrap_or [] send_message) (gc_deadline_usec c)
                  in case ne_server_stream N (call_client c) (gc_method c) request of
                       (ready, opened, events) \<Rightarrow>
                         (Inr (), c\<lparr>gc_stream_state := Some (server_stream_state T
                            (fst (server_stream_task M (gc_deadline_usec c) (gc_channel_shared c \<noteq> None)
                                    ready opened events)))\<rparr>, h)))))"

definition start_bidi_stream ::
  "('m, 'v) md_api \<Rightarrow> ('w, 'm) tokio \<Rightarrow> 'm net \<Rightarrow> (string \<times> string) list \<Rightarrow> (string \<times> string) list
     \<Rightarrow> ('w, 'm) grpc_call \<Rightarrow> 'z store \<Rightarrow> ('w, 'm, 'z, unit) call_m" where
  "start_bidi_stream M T N send_metadata plugin_metadata c0 h0 =
     bind_st (with_store c0 (store_runtime (ne_rt N) h0)) (\<lambda>rt (c, h).
     bind_st (with_store c (store_pump (ne_rt N) h)) (\<lambda>ticks (c, h).
       if deadline_already_expired (ne_expiry_clock N) (gc_deadline_usec c)
       then (Inr (), c\<lparr>gc_stream_state := Some (expired_stream_state M T)\<rparr>, h)
       else (case ne_path_error N (gc_method c) of
               Some e \<Rightarrow> (Inl (exception_of_error (InvalidArg (''invalid method path: '' @ e))), c, h)
             | None \<Rightarrow>
                 (let request = build_request M (ne_request_clock N) send_metadata plugin_metadata
                        () (gc_deadline_usec c)
                  in case ne_bidi_stream N (call_client c) (gc_method c) request of
                       (ready, opened, events) \<Rightarrow>
                         (Inr (), c\<lparr>gc_stream_state := Some (bidi_stream_state T
                            (fst (bidi_stream_task M (gc_deadline_usec c) (gc_channel_shared c \<noteq> None)
                                    ready opened events)))\<rparr>, h)))))"

definition send_stream_message ::
  "('w, 'm) tokio \<Rightarrow> 'm net \<Rightarrow> bytes \<Rightarrow> ('w, 'm) grpc_call \<Rightarrow> 'z store \<Rightarrow> ('w, 'm, 'z, unit) call_m" where
  "send_stream_message T N message c0 h0 =
     bind_st (with_store c0 (store_runtime (ne_rt N) h0)) (\<lambda>rt (c, h).
       case gc_stream_state c of
         None \<Rightarrow> (Inl (default_exception ''no active stream''), c, h)
       | Some state \<Rightarrow>
           (if \<not> as_msg_tx state
            then (Inl (default_exception ''stream does not support sending''), c, h)
            else (case tk_send T (as_chan state) message of (sent, w) \<Rightarrow>
                    (if sent then Inr () else Inl (default_exception ''stream send channel closed''),
                     c\<lparr>gc_stream_state := Some (state\<lparr>as_chan := w\<rparr>)\<rparr>, h))))"

definition close_stream_send :: "('w, 'm) tokio \<Rightarrow> ('w, 'm) grpc_call \<Rightarrow> ('w, 'm) grpc_call" where
  "close_stream_send T c =
     (case gc_stream_state c of
        None \<Rightarrow> c
      | Some state \<Rightarrow>
          c\<lparr>gc_stream_state := Some (state\<lparr>as_msg_tx := False,
              as_chan := (if as_msg_tx state then tk_drop_sender T (as_chan state) else as_chan state)\<rparr>)\<rparr>)"

definition build_stream_result ::
  "'z php \<Rightarrow> ('m, 'v) md_api \<Rightarrow> ('w, 'm) tokio \<Rightarrow> 'm net \<Rightarrow> recv_flags \<Rightarrow> ('w, 'm) grpc_call \<Rightarrow> 'z store
     \<Rightarrow> ('w, 'm, 'z, php_obj) call_m option" where
  "build_stream_result Z M T N flags c h0 =
     (case store_runtime (ne_rt N) h0 of
        (Inl e, h) \<Rightarrow> Some (Inl (exception_of_error e), c, h)
      | (Inr rt, h) \<Rightarrow>
          (case gc_stream_state c of
             None \<Rightarrow> Some (Inl (default_exception ''no active stream''), c, h)
           | Some state \<Rightarrow>
               (case read_stream Z M T (gc_deadline_usec c) (ne_status_clock N) flags state of
                  None \<Rightarrow> None
                | Some (r, state') \<Rightarrow> Some (r, c\<lparr>gc_stream_state := Some state'\<rparr>, h))))"

section \<open>Dispatch\<close>

definition call_plugin_metadata ::
  "'z php \<Rightarrow> ('w, 'm) grpc_call \<Rightarrow> 'z store \<Rightarrow> php_exception + (string \<times> string) list" where
  "call_plugin_metadata Z c h =
     (case gc_call_plugin c of
        None \<Rightarrow> Inr []
      | Some plugin \<Rightarrow> map_err exception_of_error (invoke_call_plugin Z (st_plugin h plugin) (gc_method c)))"

text \<open>A batch that only sends.\<close>

definition dispatch_send_only ::
  "'z php \<Rightarrow> ('m, 'v) md_api \<Rightarrow> ('w, 'm) tokio \<Rightarrow> 'm net \<Rightarrow> batch_ops \<Rightarrow> ('w, 'm) grpc_call \<Rightarrow> 'z store
     \<Rightarrow> ('w, 'm, 'z, php_obj) call_m" where
  "dispatch_send_only Z M T N b c h =
     (if gc_stream_state c \<noteq> None then
        bind_st (case bo_send_message b of None \<Rightarrow> (Inr (), c, h)
                 | Some msg \<Rightarrow> send_stream_message T N msg c h) (\<lambda>u (c, h).
          (Inr [], (if bo_send_close b then close_stream_send T c else c), h))
      else if \<not> bo_send_close b \<and> bo_send_message b \<noteq> None then
        (let send_metadata = gc_pending_metadata c;
             c1 = c\<lparr>gc_pending_metadata := []\<rparr> in
         case call_plugin_metadata Z c1 h of
           Inl e \<Rightarrow> (Inl e, c1, h)
         | Inr plugin_metadata \<Rightarrow>
             bind_st (start_bidi_stream M T N send_metadata plugin_metadata c1 h) (\<lambda>u (c, h).
             bind_st (case bo_send_message b of None \<Rightarrow> (Inr (), c, h)
                      | Some msg \<Rightarrow> send_stream_message T N msg c h) (\<lambda>u (c, h). (Inr [], c, h))))
      else
        (let c1 = c\<lparr>gc_pending_metadata := bo_send_metadata b, gc_pending_message := bo_send_message b\<rparr> in
         case call_plugin_metadata Z c1 h of
           Inl e \<Rightarrow> (Inl e, c1, h)
         | Inr plugin_md \<Rightarrow>
             (let c2 = c1\<lparr>gc_pending_metadata := gc_pending_metadata c1 @ plugin_md\<rparr> in
              if bo_send_close b then
                bind_st (start_server_stream M T N (gc_pending_metadata c2) [] (gc_pending_message c2)
                           (c2\<lparr>gc_pending_metadata := [], gc_pending_message := None\<rparr>) h)
                  (\<lambda>u (c, h). (Inr [], c, h))
              else (Inr [], c2, h))))"

text \<open>A batch with receive operations while a stream is active.\<close>

definition dispatch_active ::
  "'z php \<Rightarrow> ('m, 'v) md_api \<Rightarrow> ('w, 'm) tokio \<Rightarrow> 'm net \<Rightarrow> batch_ops \<Rightarrow> ('w, 'm) grpc_call \<Rightarrow> 'z store
     \<Rightarrow> ('w, 'm, 'z, php_obj) call_m option" where
  "dispatch_active Z M T N b c h =
     (let send_msg = (if bo_has_send_ops b then bo_send_message b else None);
          do_close = (bo_has_send_ops b \<and> bo_send_close b) in
      case (case send_msg of None \<Rightarrow> (Inr (), c, h) | Some msg \<Rightarrow> send_stream_message T N msg c h) of
        (Inl e, c1, h1) \<Rightarrow> Some (Inl e, c1, h1)
      | (Inr u, c1, h1) \<Rightarrow>
          build_stream_result Z M T N (batch_flags b) (if do_close then close_stream_send T c1 else c1) h1)"

text \<open>A batch with receive operations and no stream yet.\<close>

definition dispatch_fresh ::
  "'z php \<Rightarrow> ('m, 'v) md_api \<Rightarrow> ('w, 'm) tokio \<Rightarrow> 'm net \<Rightarrow> batch_ops \<Rightarrow> ('w, 'm) grpc_call \<Rightarrow> 'z store
     \<Rightarrow> ('w, 'm, 'z, php_obj) call_m option" where
  "dispatch_fresh Z M T N b c h =
     (let flags = batch_flags b;
          send_metadata = (if bo_has_send_ops b then bo_send_metadata b else gc_pending_metadata c);
          send_message = (if bo_has_send_ops b then bo_send_message b else gc_pending_message c);
          c1 = (if bo_has_send_ops b then c else c\<lparr>gc_pending_metadata := [], gc_pending_message := None\<rparr>) in
      case (if bo_has_send_ops b then call_plugin_metadata Z c1 h else Inr []) of
        Inl e \<Rightarrow> Some (Inl e, c1, h)
      | Inr plugin_metadata \<Rightarrow>
          (let unary = (case execute_call M N c1 send_metadata plugin_metadata send_message h of
                          (Inl e, h1) \<Rightarrow> Some (Inl e, c1, h1)
                        | (Inr result, h1) \<Rightarrow> Some (build_unary_result Z M flags result, c1, h1)) in
           if bo_recv_message b \<and> bo_recv_status b then unary
           else if gc_send_closed c1 then
             (case start_server_stream M T N send_metadata plugin_metadata send_message c1 h of
                (Inl e, c2, h1) \<Rightarrow> Some (Inl e, c2, h1)
              | (Inr u, c2, h1) \<Rightarrow> build_stream_result Z M T N flags c2 h1)
           else unary))"

definition dispatch_batch ::
  "'z php \<Rightarrow> ('m, 'v) md_api \<Rightarrow> ('w, 'm) tokio \<Rightarrow> 'm net \<Rightarrow> batch_ops \<Rightarrow> ('w, 'm) grpc_call \<Rightarrow> 'z store
     \<Rightarrow> ('w, 'm, 'z, php_obj) call_m option" where
  "dispatch_batch Z M T N b c h =
     (if bo_has_send_ops b \<and> \<not> bo_has_recv_ops b then Some (dispatch_send_only Z M T N b c h)
      else if gc_stream_state c \<noteq> None then dispatch_active Z M T N b c h
      else dispatch_fresh Z M T N b c h)"

section \<open>The batch method\<close>

fun ack_props :: "'z php \<Rightarrow> php_obj \<Rightarrow> (bool \<times> string) list \<Rightarrow> php_exception + php_obj" where
  "ack_props Z ob [] = Inr ob"
| "ack_props Z ob ((done, name) # rest) =
     (if done then bind_res (set_property Z name ob name (P_Bool True)) (\<lambda>ob'. ack_props Z ob' rest)
      else ack_props Z ob rest)"

definition start_batch ::
  "'z php \<Rightarrow> ('m, 'v) md_api \<Rightarrow> ('w, 'm) tokio \<Rightarrow> 'm net \<Rightarrow> 'z hash_table \<Rightarrow> ('w, 'm) grpc_call \<Rightarrow> 'z store
     \<Rightarrow> ('w, 'm, 'z, php_obj) call_m option" where
  "start_batch Z M T N ops c h =
     (if st_flag h (gc_channel_closed c)
      then Some (Inl (runtime_exception Z ''startBatch Error. Channel is closed''), c, h)
      else if gc_cancelled c
      then Some (Inl (exception_of_error (Status 1 ''Call has been cancelled'')), c, h)
      else
        (case parse_ops Z ops of
           Inl e \<Rightarrow> Some (Inl e, c, h)
         | Inr b \<Rightarrow>
             (if \<not> bo_has_send_ops b \<and> \<not> bo_has_recv_ops b then Some (Inr [], c, h)
              else if gc_finished c
              then Some (Inl (logic_exception Z ''start_batch was called incorrectly'' 8), c, h)
              else if bo_has_send_initial_metadata b \<and> gc_initial_metadata_sent c
              then Some (Inl (logic_exception Z ''start_batch was called incorrectly'' 8), c, h)
              else
                (let c1 = (if bo_has_send_initial_metadata b then c\<lparr>gc_initial_metadata_sent := True\<rparr> else c);
                     c2 = (if bo_send_close b then c1\<lparr>gc_send_closed := True\<rparr> else c1) in
                 case dispatch_batch Z M T N b c2 h of
                   None \<Rightarrow> None
                 | Some (Inl e, c3, h3) \<Rightarrow> Some (Inl e, c3, h3)
                 | Some (Inr result_obj, c3, h3) \<Rightarrow>
                     (let c4 = (if bo_recv_status b then c3\<lparr>gc_finished := True\<rparr> else c3) in
                      Some (ack_props Z result_obj
                              [(bo_has_send_initial_metadata b, ''send_metadata''),
                               (bo_send_message b \<noteq> None, ''send_message''),
                               (bo_send_close b, ''send_close'')], c4, h3))))))"

section \<open>Parsing a batch\<close>

text \<open>The operations a parsed batch stands for.\<close>

definition op_set :: "batch_ops \<Rightarrow> i64 set" where
  "op_set b = {op. op = OP_SEND_INITIAL_METADATA \<and> bo_has_send_initial_metadata b
     \<or> op = OP_SEND_MESSAGE \<and> bo_send_message b \<noteq> None
     \<or> op = OP_SEND_CLOSE_FROM_CLIENT \<and> bo_send_close b
     \<or> op = OP_RECV_INITIAL_METADATA \<and> bo_recv_initial_metadata b
     \<or> op = OP_RECV_MESSAGE \<and> bo_recv_message b
     \<or> op = OP_RECV_STATUS_ON_CLIENT \<and> bo_recv_status b}"

definition batch_wf :: "batch_ops \<Rightarrow> bool" where
  "batch_wf b \<longleftrightarrow>
     bo_has_send_ops b = (bo_has_send_initial_metadata b \<or> bo_send_message b \<noteq> None \<or> bo_send_close b)
     \<and> bo_has_recv_ops b = (bo_recv_initial_metadata b \<or> bo_recv_message b \<or> bo_recv_status b)"

lemma op_recorded [simp]:
  "op_set (b\<lparr>bo_has_send_ops := True, bo_has_send_initial_metadata := True, bo_send_metadata := md\<rparr>)
     = insert OP_SEND_INITIAL_METADATA (op_set b)"
  "op_set (b\<lparr>bo_has_send_ops := True, bo_send_message := Some m\<rparr>) = insert OP_SEND_MESSAGE (op_set b)"
  "op_set (b\<lparr>bo_has_send_ops := True, bo_send_close := True\<rparr>) = insert OP_SEND_CLOSE_FROM_CLIENT (op_set b)"
  "op_set (b\<lparr>bo_has_recv_ops := True, bo_recv_initial_metadata := True\<rparr>)
     = insert OP_RECV_INITIAL_METADATA (op_set b)"
  "op_set (b\<lparr>bo_has_recv_ops := True, bo_recv_message := True\<rparr>) = insert OP_RECV_MESSAGE (op_set b)"
  "op_set (b\<lparr>bo_has_recv_ops := True, bo_recv_status := True\<rparr>) = insert OP_RECV_STATUS_ON_CLIENT (op_set b)"
  by (auto simp: op_set_def)

lemma wf_recorded [simp]:
  assumes "batch_wf b"
  shows "batch_wf (b\<lparr>bo_has_send_ops := True, bo_has_send_initial_metadata := True, bo_send_metadata := md\<rparr>)"
    "batch_wf (b\<lparr>bo_has_send_ops := True, bo_send_message := Some m\<rparr>)"
    "batch_wf (b\<lparr>bo_has_send_ops := True, bo_send_close := True\<rparr>)"
    "batch_wf (b\<lparr>bo_has_recv_ops := True, bo_recv_initial_metadata := True\<rparr>)"
    "batch_wf (b\<lparr>bo_has_recv_ops := True, bo_recv_message := True\<rparr>)"
    "batch_wf (b\<lparr>bo_has_recv_ops := True, bo_recv_status := True\<rparr>)"
  using assms by (simp_all add: batch_wf_def)

lemma parse_ops_loop_step:
  assumes "parse_ops_loop Z ((key, val) # ops) b0 = Inr b" and "batch_wf b0"
  obtains op b1 where "array_key_to_long Z key = Inr op" "parse_ops_loop Z ops b1 = Inr b"
    "op_set b1 = insert op (op_set b0)" "batch_wf b1"
proof -
  obtain op where op: "array_key_to_long Z key = Inr op"
    using assms(1) by (cases "array_key_to_long Z key") auto
  note found = that [OF op]
  from assms(1) op show thesis
    by (simp split: if_splits add: bind_res_eq_Inr)
      (((elim exE conjE)?, rule found, assumption, simp, simp add: assms(2))+)
qed

lemma parse_ops_loop_spec:
  "parse_ops_loop Z ops b0 = Inr b \<Longrightarrow> batch_wf b0 \<Longrightarrow>
     \<exists>codes. map (\<lambda>kv. array_key_to_long Z (fst kv)) ops = map Inr codes
       \<and> op_set b = op_set b0 \<union> set codes \<and> batch_wf b"
proof (induction ops arbitrary: b0)
  case Nil
  then show ?case by (intro exI [of _ "[]"]) simp
next
  case (Cons kv ops)
  obtain key val where kv: "kv = (key, val)" by (cases kv)
  with Cons.prems obtain op b1 where step: "array_key_to_long Z key = Inr op"
    "parse_ops_loop Z ops b1 = Inr b" "op_set b1 = insert op (op_set b0)" "batch_wf b1"
    using parse_ops_loop_step by metis
  from Cons.IH [OF step(2,4)] obtain codes where
    "map (\<lambda>kv. array_key_to_long Z (fst kv)) ops = map Inr codes"
    "op_set b = op_set b1 \<union> set codes" "batch_wf b" by blast
  with step kv show ?case by (intro exI [of _ "op # codes"]) auto
qed

lemma batch_wf_empty: "batch_wf empty_batch" "op_set empty_batch = {}"
  by (simp_all add: batch_wf_def op_set_def empty_batch_def)

lemma parse_ops_spec:
  assumes "parse_ops Z ops = Inr b"
  shows "\<exists>codes. map (\<lambda>kv. array_key_to_long Z (fst kv)) ops = map Inr codes \<and> op_set b = set codes \<and> batch_wf b"
  using parse_ops_loop_spec [OF assms [unfolded parse_ops_def] batch_wf_empty(1)] batch_wf_empty(2) by simp

text \<open>
  C11. A parsed batch says exactly which operations the array asked for: each key
  is one of the six client operations, each flag is set iff its operation is
  present, and the send and receive summaries agree with them; any other key
  makes the batch fail.
\<close>

theorem parse_ops_exact:
  assumes "parse_ops Z ops = Inr b"
  shows "\<exists>codes. map (\<lambda>kv. array_key_to_long Z (fst kv)) ops = map Inr codes
     \<and> set codes \<subseteq> {0, 1, 2, 4, 5, 6}
     \<and> bo_has_send_initial_metadata b = (0 \<in> set codes) \<and> (bo_send_message b \<noteq> None) = (1 \<in> set codes)
     \<and> bo_send_close b = (2 \<in> set codes) \<and> bo_recv_initial_metadata b = (4 \<in> set codes)
     \<and> bo_recv_message b = (5 \<in> set codes) \<and> bo_recv_status b = (6 \<in> set codes)
     \<and> bo_has_send_ops b = (set codes \<inter> {0, 1, 2} \<noteq> {})
     \<and> bo_has_recv_ops b = (set codes \<inter> {4, 5, 6} \<noteq> {})"
proof -
  obtain codes where codes: "map (\<lambda>kv. array_key_to_long Z (fst kv)) ops = map Inr codes"
    "op_set b = set codes" "batch_wf b"
    using parse_ops_spec [OF assms] by blast
  have mem: "op \<in> set codes \<longleftrightarrow> op = 0 \<and> bo_has_send_initial_metadata b \<or> op = 1 \<and> bo_send_message b \<noteq> None
      \<or> op = 2 \<and> bo_send_close b \<or> op = 4 \<and> bo_recv_initial_metadata b
      \<or> op = 5 \<and> bo_recv_message b \<or> op = 6 \<and> bo_recv_status b" for op
    unfolding codes(2) [symmetric] op_set_def op_codes by simp
  show ?thesis
    by (intro exI [of _ codes] conjI codes(1)) (use codes(3) in \<open>auto simp: mem batch_wf_def\<close>)
qed

theorem parse_ops_exact_witness:
  "\<exists>b. parse_ops plain_php [(Key_Long 0, Z_Array []), (Key_Long 2, Z_Null), (Key_Long 6, Z_Null)] = Inr b
     \<and> bo_has_send_initial_metadata b \<and> bo_send_message b = None \<and> bo_send_close b \<and> bo_recv_status b
     \<and> \<not> bo_recv_message b"
proof -
  let ?ops = "[(Key_Long 0, Z_Array []), (Key_Long 2, Z_Null), (Key_Long 6, Z_Null)]"
  obtain b where b: "parse_ops plain_php ?ops = Inr b"
    by (simp add: parse_ops_def array_key_to_long_def parse_send_metadata_def op_codes)
  obtain codes where codes: "map (\<lambda>kv. array_key_to_long plain_php (fst kv)) ?ops = map Inr codes"
    "bo_has_send_initial_metadata b = (0 \<in> set codes)" "(bo_send_message b \<noteq> None) = (1 \<in> set codes)"
    "bo_send_close b = (2 \<in> set codes)" "bo_recv_message b = (5 \<in> set codes)"
    "bo_recv_status b = (6 \<in> set codes)"
    using parse_ops_exact [OF b] by (elim exE conjE) (rule that)
  have "(map Inr codes :: (grpc_error + i64) list) = map Inr [0, 2, 6]"
    using codes(1) by (simp add: array_key_to_long_def)
  then have "codes = [0, 2, 6]" by (simp only: inj_map_eq_map [OF inj_Inr])
  then have "0 \<in> set codes" "1 \<notin> set codes" "2 \<in> set codes" "5 \<notin> set codes" "6 \<in> set codes"
    by simp_all
  with codes(2-6) have "bo_has_send_initial_metadata b" "bo_send_message b = None" "bo_send_close b"
    "bo_recv_status b" "\<not> bo_recv_message b" by simp_all
  with b show ?thesis by (intro exI [of _ b] conjI)
qed

end
