(* ===== verification/Connectivity.thy ===== *)
theory Connectivity
  imports Channel "HOL-Library.Sublist"
begin

text \<open>
  Connectivity of the channels of a thread: operations on channel objects, call
  outcomes and connection probes interleave in any order. The step relation is
  over the operations of \<open>Channel\<close>; its invariant and what no run undoes are
  proved once per step and lifted to every reachable state.
\<close>

section \<open>Interleavings\<close>

text \<open>
  All channel objects of a thread, the store they share and the connection
  probes still running. Background work may complete between any two operations.
\<close>

record 'z world =
  w_store :: "'z store"
  w_channels :: "grpc_channel list"
  w_probes :: "nat multiset"

definition start_world :: "'z world \<Rightarrow> bool" where
  "start_world w \<longleftrightarrow> w = \<lparr>w_store = empty_store, w_channels = [], w_probes = {#}\<rparr>"

definition spawned_probe :: "grpc_channel \<Rightarrow> php_exception + i64 \<times> bool \<Rightarrow> nat multiset" where
  "spawned_probe ch r =
     (case (r, get_shared ch) of (Inr (c, True), Some a) \<Rightarrow> {#a#} | _ \<Rightarrow> {#})"

inductive chan_step :: "'z world \<Rightarrow> 'z world \<Rightarrow> bool" where
  construct_err: "construct_channel Z CE target args (w_store w) = (Inl e, h')
     \<Longrightarrow> chan_step w (w\<lparr>w_store := h'\<rparr>)"
| construct_ok: "construct_channel Z CE target args (w_store w) = (Inr ch, h')
     \<Longrightarrow> chan_step w (w\<lparr>w_store := h', w_channels := w_channels w @ [ch]\<rparr>)"
| query: "i < length (w_channels w)
     \<Longrightarrow> get_connectivity_state Z E [] try_to_connect (w_channels w ! i) (w_store w) = (r, h')
     \<Longrightarrow> chan_step w (w\<lparr>w_store := h', w_probes := w_probes w + spawned_probe (w_channels w ! i) r\<rparr>)"
| probe: "a \<in># w_probes w
     \<Longrightarrow> chan_step w (w\<lparr>w_store := probe_done a ready (w_store w), w_probes := w_probes w - {#a#}\<rparr>)"
| outcome: "v = CHANNEL_READY \<or> v = CHANNEL_TRANSIENT_FAILURE
     \<Longrightarrow> chan_step w (w\<lparr>w_store := set_conn_state a v (w_store w)\<rparr>)"
| close: "i < length (w_channels w) \<Longrightarrow> close_channel (w_channels w ! i) (w_store w) = (ch', h')
     \<Longrightarrow> chan_step w (w\<lparr>w_store := h', w_channels := (w_channels w)[i := ch']\<rparr>)"

text \<open>
  The invariant: the store is well formed; a handle that is \<open>CONNECTING\<close> has a
  probe running, an \<open>IDLE\<close> one has none, and no handle has two; every channel
  object's handle exists, its flag is its own, and the flag tells whether the
  object was closed.
\<close>

definition conn_ok :: "(nat \<Rightarrow> shared_channel option) \<Rightarrow> nat multiset \<Rightarrow> bool" where
  "conn_ok sh P \<longleftrightarrow>
     (\<forall>a sc. sh a = Some sc \<longrightarrow>
        sc_state sc \<in> {CHANNEL_IDLE, CHANNEL_CONNECTING, CHANNEL_READY, CHANNEL_TRANSIENT_FAILURE}
        \<and> (sc_state sc = CHANNEL_CONNECTING \<longrightarrow> a \<in># P)
        \<and> (a \<in># P \<longrightarrow> sc_state sc \<noteq> CHANNEL_IDLE))
     \<and> (\<forall>a. count P a \<le> 1 \<and> (a \<in># P \<longrightarrow> sh a \<noteq> None))"

definition objects_ok :: "'z store \<Rightarrow> grpc_channel list \<Rightarrow> bool" where
  "objects_ok h chs \<longleftrightarrow>
     distinct (map ch_closed_flag chs)
     \<and> (\<forall>ch\<in>set chs. ch_closed_flag ch < st_next h
          \<and> (st_flag h (ch_closed_flag ch) \<longleftrightarrow> ch_inner ch = None)
          \<and> (\<forall>a. get_shared ch = Some a \<longrightarrow> st_shared h a \<noteq> None))"

definition world_ok :: "'z world \<Rightarrow> bool" where
  "world_ok w \<longleftrightarrow> wf_store (w_store w) \<and> conn_ok (st_shared (w_store w)) (w_probes w)
     \<and> objects_ok (w_store w) (w_channels w)"

text \<open>Later stores: nothing registered, built, closed or already used is undone.\<close>

definition store_le :: "'z store \<Rightarrow> 'z store \<Rightarrow> bool" where
  "store_le h h' \<longleftrightarrow>
     st_registry h \<subseteq>\<^sub>m st_registry h' \<and> st_next h \<le> st_next h'
     \<and> (\<forall>a. a < st_next h \<longrightarrow> st_flag h a \<longrightarrow> st_flag h' a)
     \<and> (\<forall>a sc. st_shared h a = Some sc \<longrightarrow>
          (\<exists>sc'. st_shared h' a = Some sc' \<and> sc_channel sc' = sc_channel sc
             \<and> (sc_state sc \<noteq> CHANNEL_IDLE \<longrightarrow> sc_state sc' \<noteq> CHANNEL_IDLE)))"

lemma get_connectivity_state_cases:
  assumes "get_connectivity_state Z E [] try_to_connect ch h = (r, h')"
  obtains (Read) g where "h' = h\<lparr>st_rt := g\<rparr>" "spawned_probe ch r = {#}"
  | (Connect) g a where "h' = set_conn_state a CHANNEL_CONNECTING (h\<lparr>st_rt := g\<rparr>)"
      "get_shared ch = Some a" "shared_state h a = CHANNEL_IDLE" "r = Inr (CHANNEL_IDLE, True)"
proof -
  obtain pr g1 where pump: "store_pump E h = (pr, h\<lparr>st_rt := g1\<rparr>)"
    by (metis prod.exhaust store_pump_frame)
  obtain rr g2 where rt: "store_runtime E (h\<lparr>st_rt := g1\<rparr>) = (rr, h\<lparr>st_rt := g2\<rparr>)"
    by (cases "get_runtime E g1") (auto simp: store_runtime_def)
  have state: "shared_state (h\<lparr>st_rt := g\<rparr>) a = shared_state h a" for g a
    by (simp add: shared_state_def conn_state_def)
  let ?bad = "case try_to_connect of None \<Rightarrow> False | Some zv \<Rightarrow> zv_bool Z zv = None"
  let ?connect = "unwrap_or False (case try_to_connect of None \<Rightarrow> None | Some zv \<Rightarrow> zv_bool Z zv)"
  note res = assms [unfolded get_connectivity_state_def run_background_def pump prod.case Let_def
      fold_Nil id_apply rt state]
  consider "?bad \<or> ch_inner ch = None" | e where "\<not> ?bad" "ch_inner ch \<noteq> None" "pr = Inl e"
    | inner n where "\<not> ?bad" "ch_inner ch = Some inner" "pr = Inr n"
    by (cases "ch_inner ch"; cases pr) blast+
  then show thesis
  proof cases
    case 1
    with res have "h' = h" "\<exists>e. r = Inl e" by (auto split: if_splits)
    then show thesis by (intro Read [of "st_rt h"]) (auto simp: spawned_probe_def)
  next
    case 2
    with res have "h' = h\<lparr>st_rt := g1\<rparr>" "\<exists>e. r = Inl e" by auto
    then show thesis by (intro Read [of g1]) (auto simp: spawned_probe_def)
  next
    case 3
    let ?a = "ci_shared inner"
    show thesis
    proof (cases "?connect \<and> shared_state h ?a = CHANNEL_IDLE")
      case False
      with res 3 have "h' = h\<lparr>st_rt := g1\<rparr>" "r = Inr (shared_state h ?a, False)" by simp_all
      then show thesis by (intro Read [of g1]) (simp_all add: spawned_probe_def)
    next
      case idle: True
      show thesis
      proof (cases rr)
        case (Inl e)
        with res 3 idle have "h' = h\<lparr>st_rt := g2\<rparr>" "r = Inl (exception_of_error e)" by simp_all
        then show thesis by (intro Read [of g2]) (simp_all add: spawned_probe_def)
      next
        case (Inr n)
        with res 3 idle show thesis
          by (intro Connect [of ?a g2]) (simp_all add: get_shared_def)
      qed
    qed
  qed
qed

section \<open>Connectivity writes\<close>

lemma set_conn_state_shared:
  "st_shared (set_conn_state a v h) =
     (case st_shared h a of None \<Rightarrow> st_shared h
      | Some sc \<Rightarrow> (st_shared h)(a \<mapsto> sc\<lparr>sc_state := v\<rparr>))"
  by (simp add: set_conn_state_def split: option.split)

lemma conn_ok_answer:
  assumes "conn_ok (st_shared h) P" and "v = CHANNEL_READY \<or> v = CHANNEL_TRANSIENT_FAILURE"
  shows "conn_ok (st_shared (set_conn_state a v h)) P"
  using assms by (auto simp: conn_ok_def set_conn_state_shared channel_states split: option.splits)

lemma conn_ok_probe_done:
  assumes "conn_ok (st_shared h) P" and "a \<in># P"
  shows "conn_ok (st_shared (probe_done a ready h)) (P - {#a#})"
proof -
  let ?v = "if ready then CHANNEL_READY else CHANNEL_TRANSIENT_FAILURE"
  have "count P a \<le> 1" using assms(1) by (simp add: conn_ok_def)
  moreover have "0 < count P a" using assms(2) by simp
  ultimately have one: "count P a = 1" by linarith
  then have mem: "b \<in># P - {#a#} \<longleftrightarrow> b \<in># P \<and> b \<noteq> a" for b
    by (cases "b = a") (simp_all add: in_diff_count)
  from assms(2) assms(1) obtain sc where sc: "st_shared h a = Some sc"
    unfolding conn_ok_def by blast
  have "conn_ok (st_shared (set_conn_state a ?v h)) P"
    by (rule conn_ok_answer [OF assms(1)]) simp
  then show ?thesis
    unfolding conn_ok_def probe_done_def mem
    by (auto simp: set_conn_state_shared sc channel_states split: if_splits)
qed

lemma conn_ok_spawn:
  assumes "conn_ok sh P" and "sh a = Some sc" and "sc_state sc = CHANNEL_IDLE"
  shows "conn_ok (sh(a \<mapsto> sc\<lparr>sc_state := CHANNEL_CONNECTING\<rparr>)) (add_mset a P)"
proof -
  have "a \<notin># P" using assms unfolding conn_ok_def by blast
  then have "count P a = 0" by (simp add: not_in_iff)
  with assms(1) show ?thesis by (auto simp: conn_ok_def channel_states)
qed

lemma conn_ok_new:
  assumes "conn_ok sh P" and "sh a = None"
  shows "conn_ok (sh(a \<mapsto> \<lparr>sc_channel = ep, sc_state = CHANNEL_IDLE\<rparr>)) P"
proof -
  have "a \<notin># P" using assms unfolding conn_ok_def by blast
  with assms show ?thesis by (auto simp: conn_ok_def channel_states)
qed

section \<open>Every step keeps the invariant\<close>

lemma shared_None_iff [simp]: "st_shared (set_conn_state a v h) b = None \<longleftrightarrow> st_shared h b = None"
  by (simp add: set_conn_state_shared split: option.split)

lemma wf_set_conn_state [simp]: "wf_store (set_conn_state a v h) = wf_store h"
  by (simp only: wf_store_def shared_None_iff set_conn_state_frame)

lemma objects_ok_mono:
  assumes "objects_ok h chs" and "st_next h \<le> st_next h'" and "dom (st_shared h) \<subseteq> dom (st_shared h')"
    and "\<forall>a. a < st_next h \<longrightarrow> st_flag h' a = st_flag h a"
  shows "objects_ok h' chs"
proof -
  have "st_shared h' a \<noteq> None" if "st_shared h a \<noteq> None" for a
    using assms(3) that by auto
  with assms(1,2,4) show ?thesis
    unfolding objects_ok_def by (meson order_less_le_trans)
qed

lemma objects_ok_set_conn_state [simp]: "objects_ok (set_conn_state a v h) chs = objects_ok h chs"
  by (simp only: objects_ok_def shared_None_iff set_conn_state_frame)

lemma objects_ok_rt [simp]: "objects_ok (h\<lparr>st_rt := g\<rparr>) chs = objects_ok h chs"
  by (simp add: objects_ok_def)

lemma objects_ok_close:
  assumes ok: "objects_ok h chs" and i: "i < length chs"
  shows "objects_ok (h\<lparr>st_flag := (st_flag h)(ch_closed_flag (chs ! i) := True)\<rparr>)
           (chs[i := (chs ! i)\<lparr>ch_inner := None\<rparr>])"
proof -
  let ?ch = "(chs ! i)\<lparr>ch_inner := None\<rparr>"
  have flags: "map ch_closed_flag (chs[i := ?ch]) = map ch_closed_flag chs"
    using i by (simp add: map_update list_update_same_conv)
  have others: "ch_closed_flag ch \<noteq> ch_closed_flag (chs ! i)"
    if "ch \<in> set (chs[i := ?ch])" "ch \<noteq> ?ch" for ch
  proof -
    from that(1) obtain j where j: "j < length chs" "ch = chs[i := ?ch] ! j"
      by (auto simp: in_set_conv_nth)
    with that(2) i have ne: "j \<noteq> i" by auto
    with j have "ch = chs ! j" by simp
    note j = j(1) ne this
    with ok i show ?thesis
      by (simp add: objects_ok_def distinct_conv_nth)
  qed
  have member: "ch \<in> set chs" if "ch \<in> set (chs[i := ?ch])" "ch \<noteq> ?ch" for ch
    using that set_update_subset_insert by fastforce
  have "chs ! i \<in> set chs" using i by simp
  with ok have "ch_closed_flag (chs ! i) < st_next h" by (simp add: objects_ok_def)
  moreover have "distinct (map ch_closed_flag (chs[i := ?ch]))"
    using ok flags by (simp only: objects_ok_def)
  ultimately show ?thesis
    unfolding objects_ok_def
  proof (intro conjI ballI, goal_cases)
    case (2 ch)
    then show ?case using member [of ch] ok by (cases "ch = ?ch") (auto simp: objects_ok_def)
  next
    case (3 ch)
    then show ?case
      using member [of ch] others [of ch] ok by (cases "ch = ?ch") (auto simp: objects_ok_def)
  next
    case (4 ch)
    then show ?case
      using member [of ch] ok by (cases "ch = ?ch") (auto simp: objects_ok_def get_shared_def)
  qed simp
qed

lemma construct_conn_ok:
  assumes "construct_channel Z CE target args h = (r, h')" and "wf_store h"
    and "conn_ok (st_shared h) P"
  shows "conn_ok (st_shared h') P"
  using assms(1)
proof (cases rule: construct_channel_cases)
  case Built
  then show ?thesis using conn_ok_new [OF assms(3) wf_fresh(1) [OF assms(2)]] by simp
qed (use assms(3) in simp_all)

lemma construct_objects_ok:
  assumes "construct_channel Z CE target args h = (r, h')" and "wf_store h" and "objects_ok h chs"
  shows "objects_ok h' chs"
  using construct_channel_keeps [OF assms(1,2)] map_le_implies_dom_le
  by (intro objects_ok_mono [OF assms(3)]) blast+

lemma construct_new_object:
  assumes "construct_channel Z CE target args h = (Inr ch, h')" and "wf_store h" and "objects_ok h chs"
  shows "objects_ok h' (chs @ [ch])"
proof -
  obtain kp where kp: "channel_key Z CE target args = Inr kp"
    using assms(1) by (cases rule: construct_channel_cases) auto
  obtain key tls plugin where "kp = (key, tls, plugin)" by (cases kp)
  with kp have "\<exists>a. get_shared ch = Some a \<and> st_shared h' a \<noteq> None"
    using construct_channel_registers [OF assms(1,2)] by blast
  moreover have "st_next h \<le> ch_closed_flag ch" "ch_closed_flag ch < st_next h'"
    "\<not> st_flag h' (ch_closed_flag ch)"
    using construct_channel_flag [OF assms(1)] by auto
  moreover have "ch_inner ch \<noteq> None"
    using calculation(1) by (auto simp: get_shared_def)
  moreover have "ch_closed_flag ch \<notin> ch_closed_flag ` set chs"
    using assms(3) calculation(2) by (auto simp: objects_ok_def)
  ultimately show ?thesis
    using construct_objects_ok [OF assms] by (auto simp: objects_ok_def)
qed

lemma world_ok_start: "start_world w \<Longrightarrow> world_ok w"
  by (simp add: start_world_def world_ok_def conn_ok_def objects_ok_def empty_store_def wf_store_def)

lemma world_ok_query:
  assumes ok: "world_ok w" and i: "i < length (w_channels w)"
    and get: "get_connectivity_state Z E [] try_to_connect (w_channels w ! i) (w_store w) = (r, h')"
  shows "world_ok (w\<lparr>w_store := h', w_probes := w_probes w + spawned_probe (w_channels w ! i) r\<rparr>)"
  using get
proof (cases rule: get_connectivity_state_cases)
  case Read
  with ok show ?thesis by (simp add: world_ok_def)
next
  case (Connect g a)
  have "w_channels w ! i \<in> set (w_channels w)" using i by simp
  with ok Connect(2) obtain sc where sc: "st_shared (w_store w) a = Some sc"
    by (auto simp: world_ok_def objects_ok_def)
  with Connect(3) have "sc_state sc = CHANNEL_IDLE"
    by (simp add: shared_state_def conn_state_def)
  with ok sc have "conn_ok ((st_shared (w_store w))(a \<mapsto> sc\<lparr>sc_state := CHANNEL_CONNECTING\<rparr>))
      (add_mset a (w_probes w))"
    by (intro conn_ok_spawn) (simp_all add: world_ok_def)
  with ok sc Connect show ?thesis
    by (simp add: world_ok_def spawned_probe_def set_conn_state_shared)
qed

lemma world_ok_step:
  assumes "world_ok w" and "chan_step w w'"
  shows "world_ok w'"
  using assms(2,1)
proof (cases rule: chan_step.cases)
  case (construct_err Z CE target args e h')
  with assms(1) show ?thesis
    by (simp add: world_ok_def construct_channel_wf construct_conn_ok construct_objects_ok)
next
  case (construct_ok Z CE target args ch h')
  with assms(1) show ?thesis
    by (simp add: world_ok_def construct_channel_wf construct_conn_ok construct_new_object)
next
  case (query i Z E try_to_connect r h')
  with assms(1) show ?thesis by (simp add: world_ok_query)
next
  case (probe a ready)
  with assms(1) show ?thesis
    by (simp add: world_ok_def conn_ok_probe_done) (simp add: probe_done_def)
next
  case (outcome v a)
  with assms(1) show ?thesis by (simp add: world_ok_def conn_ok_answer)
next
  case (close i ch' h')
  with assms(1) objects_ok_close [of "w_store w" "w_channels w" i] show ?thesis
    by (auto simp: world_ok_def close_channel_def wf_store_def)
qed

section \<open>What no run undoes\<close>

lemma store_le_refl: "store_le h h"
  by (simp add: store_le_def)

lemma store_le_trans: "store_le h1 h2 \<Longrightarrow> store_le h2 h3 \<Longrightarrow> store_le h1 h3"
  unfolding store_le_def by (elim conjE, intro conjI; (blast intro: map_le_trans order_trans)?)
    (metis (no_types, lifting) order_less_le_trans)+

lemma store_le_rt: "store_le h (h\<lparr>st_rt := g\<rparr>)"
  by (simp add: store_le_def)

lemma store_le_set_conn_state: "v \<noteq> CHANNEL_IDLE \<Longrightarrow> store_le h (set_conn_state a v h)"
  by (simp add: store_le_def set_conn_state_shared split: option.split)

lemma store_le_construct:
  assumes "construct_channel Z CE target args h = (r, h')" and "wf_store h"
  shows "store_le h h'"
proof -
  note keeps = construct_channel_keeps [OF assms]
  have "st_shared h' a = Some sc" if "st_shared h a = Some sc" for a sc
    using keeps that by (metis map_le_def domI)
  with keeps show ?thesis unfolding store_le_def by blast
qed

lemma store_le_query:
  assumes "get_connectivity_state Z E [] try_to_connect ch h = (r, h')"
  shows "store_le h h'"
  using assms
proof (cases rule: get_connectivity_state_cases)
  case Read
  then show ?thesis by (simp add: store_le_rt)
next
  case (Connect g a)
  have "store_le (h\<lparr>st_rt := g\<rparr>) h'"
    unfolding Connect(1) by (rule store_le_set_conn_state) (simp add: channel_states)
  then show ?thesis by (rule store_le_trans [OF store_le_rt])
qed

text \<open>On well-formed worlds; elsewhere a step promises nothing.\<close>

definition world_le :: "'z world \<Rightarrow> 'z world \<Rightarrow> bool" where
  "world_le w w' \<longleftrightarrow>
     (world_ok w \<longrightarrow> world_ok w' \<and> store_le (w_store w) (w_store w')
        \<and> prefix (map ch_closed_flag (w_channels w)) (map ch_closed_flag (w_channels w')))"

lemma world_le_step:
  assumes "chan_step w w'"
  shows "world_le w w'"
proof -
  have "store_le (w_store w) (w_store w')
      \<and> prefix (map ch_closed_flag (w_channels w)) (map ch_closed_flag (w_channels w'))" if ok: "world_ok w"
    using assms
  proof (cases rule: chan_step.cases)
    case (construct_err Z CE target args e h')
    with ok show ?thesis by (simp add: world_ok_def store_le_construct)
  next
    case (construct_ok Z CE target args ch h')
    with ok show ?thesis by (simp add: world_ok_def store_le_construct)
  next
    case (query i Z E try_to_connect r h')
    then show ?thesis by (simp add: store_le_query)
  next
    case (probe a ready)
    then show ?thesis by (simp add: probe_done_def store_le_set_conn_state channel_states)
  next
    case (outcome v a)
    then show ?thesis by (auto simp: store_le_set_conn_state channel_states)
  next
    case (close i ch' h')
    then have "map ch_closed_flag (w_channels w') = map ch_closed_flag (w_channels w)"
      by (auto simp: close_channel_def map_update list_update_same_conv)
    with close show ?thesis by (auto simp: close_channel_def store_le_def)
  qed
  then show ?thesis using world_ok_step [OF _ assms] by (simp add: world_le_def)
qed

interpretation conn: invariant_machine start_world chan_step world_ok
  by unfold_locales (auto intro: world_ok_start world_ok_step)

lemma world_le_trans: "world_le w1 w2 \<Longrightarrow> world_le w2 w3 \<Longrightarrow> world_le w1 w3"
  unfolding world_le_def by (blast intro: store_le_trans prefix_order.order_trans)

interpretation kept: monotone_machine chan_step world_le
proof unfold_locales
  show "world_le w w" for w :: "'z world" by (simp add: world_le_def store_le_refl)
qed (rule world_le_trans, assumption+, rule world_le_step)

section \<open>Properties\<close>

text \<open>
  Running queued work inside \<open>getConnectivityState\<close> is the same as running it
  just before the call, so steps may treat completions as separate events.
\<close>

lemma query_after_background:
  assumes "ch_inner ch \<noteq> None" and "\<forall>zv. try_to_connect = Some zv \<longrightarrow> zv_bool Z zv \<noteq> None"
    and "store_pump E h = (Inr n, h1)"
  shows "get_connectivity_state Z E bg try_to_connect ch h
       = get_connectivity_state Z E [] try_to_connect ch (run_background bg h)"
proof -
  have rt: "st_rt (run_background bg h) = st_rt h"
    by (induction bg arbitrary: h) (auto simp: run_background_def)
  have upd: "set_conn_state a v (h'\<lparr>st_rt := g\<rparr>) = (set_conn_state a v h')\<lparr>st_rt := g\<rparr>"
    for a v g and h' :: "'a store"
    by (simp add: set_conn_state_def split: option.split)
  have commute: "run_background bg (h\<lparr>st_rt := g\<rparr>) = (run_background bg h)\<lparr>st_rt := g\<rparr>" for g
    by (induction bg arbitrary: h) (auto simp: run_background_def upd)
  have "store_pump E (run_background bg h) = (Inr n, run_background bg h1)"
    using assms(3) rt commute by (auto simp: store_pump_def split: prod.splits)
  with assms show ?thesis
    by (auto simp: get_connectivity_state_def run_background_def [of "[]"] Let_def split: option.split)
qed

text \<open>
  C6. However channel operations, call outcomes and connection probes interleave:
  every transport is in one of the four connectivity states, a transport that is
  connecting has exactly one probe running (so it leaves that state), an idle one
  has none, and a call sees its channel as closed exactly when that object was
  closed.
\<close>

theorem connectivity_safe:
  assumes "start_world w0" and "chan_step\<^sup>*\<^sup>* w0 w"
  shows "(\<forall>a sc. st_shared (w_store w) a = Some sc \<longrightarrow>
       sc_state sc \<in> {CHANNEL_IDLE, CHANNEL_CONNECTING, CHANNEL_READY, CHANNEL_TRANSIENT_FAILURE}
       \<and> (sc_state sc = CHANNEL_CONNECTING \<longrightarrow> count (w_probes w) a = 1)
       \<and> (sc_state sc = CHANNEL_IDLE \<longrightarrow> count (w_probes w) a = 0))
     \<and> (\<forall>ch\<in>set (w_channels w). st_flag (w_store w) (ch_closed_flag ch) \<longleftrightarrow> ch_inner ch = None)"
proof -
  have ok: "conn_ok (st_shared (w_store w)) (w_probes w)" "objects_ok (w_store w) (w_channels w)"
    using conn.reachable_inv [OF assms] by (simp_all add: world_ok_def)
  have once: "count (w_probes w) a = 1" if "a \<in># w_probes w" for a
  proof -
    have "count (w_probes w) a \<le> 1" using ok(1) by (simp add: conn_ok_def)
    moreover have "0 < count (w_probes w) a" using that by simp
    ultimately show ?thesis by linarith
  qed
  show ?thesis
  proof (intro conjI allI impI)
    fix a sc
    assume sc: "st_shared (w_store w) a = Some sc"
    show "sc_state sc \<in> {CHANNEL_IDLE, CHANNEL_CONNECTING, CHANNEL_READY, CHANNEL_TRANSIENT_FAILURE}"
      using ok(1) sc unfolding conn_ok_def by blast
    show "count (w_probes w) a = 1" if "sc_state sc = CHANNEL_CONNECTING"
      using ok(1) sc that once unfolding conn_ok_def by blast
    show "count (w_probes w) a = 0" if "sc_state sc = CHANNEL_IDLE"
      using ok(1) sc that unfolding conn_ok_def not_in_iff [symmetric] by blast
  qed (use ok(2) in \<open>simp add: objects_ok_def\<close>)
qed

theorem connectivity_safe_witness:
  "\<exists>w0 w :: zval world. start_world w0 \<and> chan_step\<^sup>*\<^sup>* w0 w \<and> length (w_channels w) = 1
     \<and> (\<forall>ch\<in>set (w_channels w). st_flag (w_store w) (ch_closed_flag ch) \<longleftrightarrow> ch_inner ch = None)"
proof -
  let ?w0 = "\<lparr>w_store = empty_store, w_channels = [], w_probes = {#}\<rparr> :: zval world"
  obtain ch h where "construct_channel plain_php plain_env ''h:1'' [] empty_store = (Inr ch, h)"
    using plain_construct by blast
  then have step: "chan_step\<^sup>*\<^sup>* ?w0 (?w0\<lparr>w_store := h, w_channels := w_channels ?w0 @ [ch]\<rparr>)"
    by (intro r_into_rtranclp chan_step.construct_ok) simp
  have start: "start_world ?w0" by (simp add: start_world_def)
  show ?thesis
    using connectivity_safe [OF start step] start step by (intro exI conjI) auto
qed

text \<open>
  C13. No later operation undoes an earlier one: in every continuation of a run a
  transport stays the one that was built and never becomes idle again once it was
  used, a registered key keeps naming its transport (closing an object does not
  close the transport), and a closed channel object stays closed.
\<close>

theorem connectivity_irreversible:
  assumes "start_world w0" and "chan_step\<^sup>*\<^sup>* w0 w" and "chan_step\<^sup>*\<^sup>* w w'"
  shows "st_registry (w_store w) \<subseteq>\<^sub>m st_registry (w_store w')
     \<and> (\<forall>a sc. st_shared (w_store w) a = Some sc \<longrightarrow>
          (\<exists>sc'. st_shared (w_store w') a = Some sc' \<and> sc_channel sc' = sc_channel sc
             \<and> (sc_state sc \<noteq> CHANNEL_IDLE \<longrightarrow> sc_state sc' \<noteq> CHANNEL_IDLE)))
     \<and> (\<forall>ch\<in>set (w_channels w). ch_inner ch = None \<longrightarrow> st_flag (w_store w') (ch_closed_flag ch))"
proof -
  have ok: "world_ok w" by (rule conn.reachable_inv [OF assms(1,2)])
  with kept.steps_le [OF assms(3)] have le: "store_le (w_store w) (w_store w')"
    by (simp add: world_le_def)
  have "st_flag (w_store w') (ch_closed_flag ch)" if "ch \<in> set (w_channels w)" "ch_inner ch = None" for ch
    using ok le that by (auto simp: world_ok_def objects_ok_def store_le_def)
  with le show ?thesis by (simp add: store_le_def)
qed

theorem connectivity_irreversible_witness:
  "\<exists>w0 w :: zval world. start_world w0 \<and> chan_step\<^sup>*\<^sup>* w0 w
     \<and> st_registry (w_store w0) \<subseteq>\<^sub>m st_registry (w_store w) \<and> w_channels w \<noteq> []"
proof -
  let ?w0 = "\<lparr>w_store = empty_store, w_channels = [], w_probes = {#}\<rparr> :: zval world"
  obtain ch h where "construct_channel plain_php plain_env ''h:1'' [] empty_store = (Inr ch, h)"
    using plain_construct by blast
  then have step: "chan_step\<^sup>*\<^sup>* ?w0 (?w0\<lparr>w_store := h, w_channels := w_channels ?w0 @ [ch]\<rparr>)"
    by (intro r_into_rtranclp chan_step.construct_ok) simp
  have start: "start_world ?w0" by (simp add: start_world_def)
  show ?thesis
    using connectivity_irreversible [OF start rtranclp.rtrancl_refl step] start step
    by (intro exI conjI) auto
qed

end
