(* ===== verification/Call_Frames.thy ===== *)
theory Call_Frames
  imports Call Connectivity
begin

text \<open>
  What the parts of \<open>Grpc\Call\<close> leave alone. Dispatching a batch writes only the
  buffered send data and the stream of the call, and in the store only the runtime
  cells and the connectivity of the call's own transport.
\<close>

definition call_frame :: "('w, 'm) grpc_call \<Rightarrow> ('w, 'm) grpc_call \<Rightarrow> bool" where
  "call_frame c c' \<longleftrightarrow>
     c' = c\<lparr>gc_pending_metadata := gc_pending_metadata c', gc_pending_message := gc_pending_message c',
            gc_stream_state := gc_stream_state c'\<rparr>
     \<and> (gc_stream_state c \<noteq> None \<longrightarrow> gc_stream_state c' \<noteq> None)"

definition store_frame :: "nat option \<Rightarrow> 'z store \<Rightarrow> 'z store \<Rightarrow> bool" where
  "store_frame shared h h' \<longleftrightarrow>
     h' = h\<lparr>st_rt := st_rt h', st_shared := st_shared h'\<rparr> \<and> store_le h h'
     \<and> (\<forall>a. shared \<noteq> Some a \<longrightarrow> st_shared h' a = st_shared h a)"

definition frame :: "('w, 'm) grpc_call \<times> 'z store \<Rightarrow> ('w, 'm) grpc_call \<times> 'z store \<Rightarrow> bool" where
  "frame s s' \<longleftrightarrow> call_frame (fst s) (fst s') \<and> store_frame (gc_channel_shared (fst s)) (snd s) (snd s')"

section \<open>Frames compose\<close>

lemma call_frame_refl [simp]: "call_frame c c"
  by (simp add: call_frame_def)

lemma call_frame_trans: "call_frame c c1 \<Longrightarrow> call_frame c1 c2 \<Longrightarrow> call_frame c c2"
  unfolding call_frame_def
  by (metis (no_types, lifting) grpc_call.surjective grpc_call.update_convs(10,11,17))

lemma call_frame_fields:
  assumes "call_frame c c'"
  shows "gc_channel c' = gc_channel c" "gc_method c' = gc_method c" "gc_target c' = gc_target c"
    "gc_deadline_usec c' = gc_deadline_usec c" "gc_call_plugin c' = gc_call_plugin c"
    "gc_cancelled c' = gc_cancelled c" "gc_send_closed c' = gc_send_closed c"
    "gc_initial_metadata_sent c' = gc_initial_metadata_sent c" "gc_finished c' = gc_finished c"
    "gc_channel_closed c' = gc_channel_closed c" "gc_channel_shared c' = gc_channel_shared c"
    "gc_max_decoding c' = gc_max_decoding c" "gc_max_encoding c' = gc_max_encoding c"
    "gc_stream_state c \<noteq> None \<Longrightarrow> gc_stream_state c' \<noteq> None"
proof -
  obtain md m s where "c' = c\<lparr>gc_pending_metadata := md, gc_pending_message := m, gc_stream_state := s\<rparr>"
    using assms unfolding call_frame_def by blast
  then show "gc_channel c' = gc_channel c" "gc_method c' = gc_method c" "gc_target c' = gc_target c"
    "gc_deadline_usec c' = gc_deadline_usec c" "gc_call_plugin c' = gc_call_plugin c"
    "gc_cancelled c' = gc_cancelled c" "gc_send_closed c' = gc_send_closed c"
    "gc_initial_metadata_sent c' = gc_initial_metadata_sent c" "gc_finished c' = gc_finished c"
    "gc_channel_closed c' = gc_channel_closed c" "gc_channel_shared c' = gc_channel_shared c"
    "gc_max_decoding c' = gc_max_decoding c" "gc_max_encoding c' = gc_max_encoding c"
    by simp_all
  show "gc_stream_state c \<noteq> None \<Longrightarrow> gc_stream_state c' \<noteq> None"
    using assms by (simp add: call_frame_def)
qed

lemma store_frame_refl [simp]: "store_frame a h h"
  by (simp add: store_frame_def store_le_refl)

lemma store_frame_trans: "store_frame a h h1 \<Longrightarrow> store_frame a h1 h2 \<Longrightarrow> store_frame a h h2"
  unfolding store_frame_def
  by (metis (no_types, lifting) store_le_trans store.surjective store.update_convs(1,2))

lemma store_frame_rt: "store_frame a h (h\<lparr>st_rt := g\<rparr>)"
  by (simp add: store_frame_def store_le_rt)

lemma store_frame_runtime: "store_runtime E h = (r, h') \<Longrightarrow> store_frame a h h'"
  using store_frame_rt by (auto simp: store_runtime_def split: prod.splits)

lemma store_frame_pump: "store_pump E h = (r, h') \<Longrightarrow> store_frame a h h'"
  using store_frame_rt by (auto simp: store_pump_def split: prod.splits)

lemma store_frame_set_conn_state: "v \<noteq> CHANNEL_IDLE \<Longrightarrow> store_frame (Some a) h (set_conn_state a v h)"
  unfolding store_frame_def
  by (intro conjI store_le_set_conn_state) (simp_all add: set_conn_state_def split: option.split)

lemma frame_refl [simp]: "frame s s"
  by (simp add: frame_def)

lemma frame_trans: "frame s s1 \<Longrightarrow> frame s1 s2 \<Longrightarrow> frame s s2"
  using call_frame_fields(11) [of "fst s" "fst s1"] unfolding frame_def
  by (auto intro: call_frame_trans store_frame_trans)

lemma frame_store: "store_frame (gc_channel_shared c) h h' \<Longrightarrow> frame (c, h) (c, h')"
  by (simp add: frame_def)

lemma frame_call: "call_frame c c' \<Longrightarrow> frame (c, h) (c', h)"
  by (simp add: frame_def)

text \<open>Sequencing: a continuation that keeps the frame keeps it after any first step.\<close>

lemma frame_bind:
  assumes "bind_st m f = (r, s')" and "frame s (snd m)"
    and "\<And>x t r' t'. f x t = (r', t') \<Longrightarrow> frame t t'"
  shows "frame s s'"
proof -
  obtain res t where m: "m = (res, t)" by (cases m)
  show ?thesis
  proof (cases res)
    case (Inr x)
    with assms(1) m have "frame t s'" by (intro assms(3)) simp
    with assms(2) m show ?thesis by (auto intro: frame_trans)
  qed (use assms(1,2) m in simp)
qed

lemma frame_with_store: "store_frame (gc_channel_shared c) h (snd r) \<Longrightarrow> frame (c, h) (snd (with_store c r))"
  by (simp add: with_store_def frame_store)

section \<open>The parts of a call\<close>

lemma execute_call_frame:
  assumes "execute_call M N c send_md plugin_md msg h = (r, h')"
  shows "store_frame (gc_channel_shared c) h h'"
proof -
  have answer: "outcome_state x \<noteq> CHANNEL_IDLE" for x :: "grpc_error + 'a call_result"
    by (auto simp: outcome_state_def channel_states split: sum.split)
  obtain r1 h1 where rt: "store_runtime (ne_rt N) h = (r1, h1)" by fastforce
  obtain r2 h2 where pump: "store_pump (ne_rt N) h1 = (r2, h2)" by fastforce
  note frames = store_frame_runtime [OF rt, of "gc_channel_shared c"]
    store_frame_pump [OF pump, of "gc_channel_shared c"]
  consider "h' = h1" | "h' = h2" | a v where "gc_channel_shared c = Some a" "v \<noteq> CHANNEL_IDLE" "h' = set_conn_state a v h2"
    using assms rt pump answer
    by (auto simp: execute_call_def Let_def split: sum.splits if_splits option.splits)
  then show ?thesis
  proof cases
    case (3 a v)
    then have "store_frame (gc_channel_shared c) h2 h'" by (simp add: store_frame_set_conn_state)
    with frames show ?thesis by (blast intro: store_frame_trans)
  qed (use frames in \<open>auto intro: store_frame_trans\<close>)
qed

lemma frame_runtime: "frame (c, h) (snd (with_store c (store_runtime E h)))"
  by (rule frame_with_store, rule store_frame_runtime [of E h "fst (store_runtime E h)"]) simp

lemma frame_pump: "frame (c, h) (snd (with_store c (store_pump E h)))"
  by (rule frame_with_store, rule store_frame_pump [of E h "fst (store_pump E h)"]) simp

lemma frame_stream [simp]: "frame (c, h) (c\<lparr>gc_stream_state := Some s\<rparr>, h)"
  by (simp add: frame_def call_frame_def)

lemma start_server_stream_frame:
  assumes "start_server_stream M T N send_md plugin_md msg c h = (r, s')"
  shows "frame (c, h) s'"
  using assms unfolding start_server_stream_def
  by (rule frame_bind [OF _ frame_runtime])
    (auto elim!: frame_bind [OF _ frame_pump] simp: Let_def split: if_splits option.splits prod.splits)

lemma start_bidi_stream_frame:
  assumes "start_bidi_stream M T N send_md plugin_md c h = (r, s')"
  shows "frame (c, h) s'"
  using assms unfolding start_bidi_stream_def
  by (rule frame_bind [OF _ frame_runtime])
    (auto elim!: frame_bind [OF _ frame_pump] simp: Let_def split: if_splits option.splits prod.splits)

lemma send_stream_message_frame:
  assumes "send_stream_message T N m c h = (r, s')"
  shows "frame (c, h) s'"
  using assms unfolding send_stream_message_def
  by (rule frame_bind [OF _ frame_runtime]) (auto split: if_splits option.splits prod.splits)

lemma close_stream_send_frame [simp]: "frame (c, h) (close_stream_send T c, h)"
  by (simp add: close_stream_send_def split: option.split)

lemma build_stream_result_frame:
  assumes "build_stream_result Z M T N flags c h = Some (r, s')"
  shows "frame (c, h) s'"
proof -
  obtain r1 h1 where rt: "store_runtime (ne_rt N) h = (r1, h1)" by fastforce
  then have "frame (c, h) (c, h1)" by (intro frame_store store_frame_runtime)
  moreover have "frame (c, h1) s'"
    using assms rt by (auto simp: build_stream_result_def split: sum.splits option.splits)
  ultimately show ?thesis by (rule frame_trans)
qed

lemma frame_pending [simp]:
  "frame (c, h) (c\<lparr>gc_pending_metadata := md\<rparr>, h)"
  "frame (c, h) (c\<lparr>gc_pending_metadata := md, gc_pending_message := m\<rparr>, h)"
  by (simp_all add: frame_def call_frame_def)

text \<open>An optional message, as the send and receive paths forward it.\<close>

lemma forward_message_frame:
  "frame (c, h) (snd (case msg of None \<Rightarrow> (Inr (), c, h) | Some m \<Rightarrow> send_stream_message T N m c h))"
  using send_stream_message_frame [OF prod.collapse [symmetric]] by (cases msg) auto

lemma send_only_bidi_frame:
  assumes "dispatch_send_only Z M T N b c h = (r, s')"
    and bidi: "gc_stream_state c = None" "\<not> bo_send_close b" "bo_send_message b \<noteq> None"
  shows "frame (c, h) s'"
proof -
  let ?forward = "\<lambda>c h. case bo_send_message b of None \<Rightarrow> (Inr (), c, h) | Some m \<Rightarrow> send_stream_message T N m c h"
  let ?c = "c\<lparr>gc_pending_metadata := []\<rparr>"
  have "frame (?c, h) s'"
  proof (cases "call_plugin_metadata Z ?c h")
    case (Inl e)
    with assms show ?thesis by (simp add: dispatch_send_only_def)
  next
    case (Inr plugin_md)
    let ?m = "start_bidi_stream M T N (gc_pending_metadata c) plugin_md ?c h"
    have "frame (?c, h) (snd ?m)"
      by (rule start_bidi_stream_frame [of M T N _ _ _ _ "fst ?m"]) simp
    moreover have "bind_st ?m (\<lambda>u (c, h). bind_st (?forward c h) (\<lambda>u (c, h). (Inr [], c, h))) = (r, s')"
      using assms Inr by (simp add: dispatch_send_only_def)
    ultimately show ?thesis
      by (elim frame_bind) (auto elim!: frame_bind [OF _ forward_message_frame])
  qed
  then show ?thesis by (rule frame_trans [OF frame_pending(1)])
qed

lemma send_only_buffer_frame:
  assumes "dispatch_send_only Z M T N b c h = (r, s')"
    and buffer: "gc_stream_state c = None" "bo_send_close b \<or> bo_send_message b = None"
  shows "frame (c, h) s'"
proof -
  let ?c = "c\<lparr>gc_pending_metadata := bo_send_metadata b, gc_pending_message := bo_send_message b\<rparr>"
  let ?c2 = "c\<lparr>gc_pending_metadata := [], gc_pending_message := None\<rparr>"
  consider (Failed) e where "call_plugin_metadata Z ?c h = Inl e"
    | (Started) md where "call_plugin_metadata Z ?c h = Inr md" "bo_send_close b"
    | (Buffered) md where "call_plugin_metadata Z ?c h = Inr md" "\<not> bo_send_close b"
    by (cases "call_plugin_metadata Z ?c h") auto
  then have "frame (?c, h) s'"
  proof cases
    case Failed
    with assms show ?thesis by (auto simp: dispatch_send_only_def)
  next
    case Started
    let ?m = "start_server_stream M T N (bo_send_metadata b @ md) [] (bo_send_message b) ?c2 h"
    have "frame (?c2, h) (snd ?m)"
      by (rule start_server_stream_frame [of M T N _ _ _ _ _ "fst ?m"]) simp
    moreover have "bind_st ?m (\<lambda>u (c, h). (Inr [], c, h)) = (r, s')"
      using assms Started by (simp add: dispatch_send_only_def)
    ultimately have "frame (?c2, h) s'" by (elim frame_bind) auto
    moreover have "frame (?c, h) (?c2, h)" by (simp add: frame_def call_frame_def)
    ultimately show ?thesis by (blast intro: frame_trans)
  next
    case Buffered
    with assms show ?thesis by (auto simp: dispatch_send_only_def frame_def call_frame_def)
  qed
  then show ?thesis by (rule frame_trans [OF frame_pending(2)])
qed

lemma dispatch_send_only_frame:
  assumes "dispatch_send_only Z M T N b c h = (r, s')"
  shows "frame (c, h) s'"
proof (cases "gc_stream_state c = None")
  case False
  with assms show ?thesis
    by (auto simp: dispatch_send_only_def elim!: frame_bind [OF _ forward_message_frame])
next
  case True
  with assms show ?thesis by (cases "bo_send_close b \<or> bo_send_message b = None")
    (auto intro: send_only_bidi_frame send_only_buffer_frame)
qed

lemma dispatch_active_frame:
  assumes "dispatch_active Z M T N b c h = Some (r, s')"
  shows "frame (c, h) s'"
proof -
  let ?msg = "if bo_has_send_ops b then bo_send_message b else None"
  let ?m = "case ?msg of None \<Rightarrow> (Inr (), c, h) | Some m \<Rightarrow> send_stream_message T N m c h"
  obtain r1 c1 h1 where m: "?m = (r1, c1, h1)" by (cases ?m)
  then have fwd: "frame (c, h) (c1, h1)"
    using forward_message_frame [where c = c and h = h and msg = ?msg and T = T and N = N] by (simp only: snd_conv)
  let ?c2 = "if bo_has_send_ops b \<and> bo_send_close b then close_stream_send T c1 else c1"
  have "frame (c1, h1) s'"
  proof (cases r1)
    case (Inl e)
    with assms m show ?thesis by (simp add: dispatch_active_def Let_def)
  next
    case (Inr u)
    with assms m have "build_stream_result Z M T N (batch_flags b) ?c2 h1 = Some (r, s')"
      by (simp add: dispatch_active_def Let_def)
    then have "frame (?c2, h1) s'" by (rule build_stream_result_frame)
    moreover have "frame (c1, h1) (?c2, h1)" by simp
    ultimately show ?thesis by (blast intro: frame_trans)
  qed
  with fwd show ?thesis by (rule frame_trans)
qed

lemma dispatch_fresh_frame:
  assumes "dispatch_fresh Z M T N b c h = Some (r, s')"
  shows "frame (c, h) s'"
proof -
  define c1 where "c1 = (if bo_has_send_ops b then c else c\<lparr>gc_pending_metadata := [], gc_pending_message := None\<rparr>)"
  have first: "frame (c, h) (c1, h)" by (simp add: c1_def)
  let ?md = "if bo_has_send_ops b then bo_send_metadata b else gc_pending_metadata c"
  let ?m = "if bo_has_send_ops b then bo_send_message b else gc_pending_message c"
  have "frame (c1, h) s'"
  proof (cases "if bo_has_send_ops b then call_plugin_metadata Z c1 h else Inr []")
    case (Inl e)
    with assms show ?thesis by (simp add: dispatch_fresh_def c1_def [symmetric])
  next
    case (Inr pm)
    obtain r1 h1 where exec: "execute_call M N c1 ?md pm ?m h = (r1, h1)" by fastforce
    obtain r2 c2 h2 where start: "start_server_stream M T N ?md pm ?m c1 h = (r2, c2, h2)"
      by (cases "start_server_stream M T N ?md pm ?m c1 h")
    note frames = frame_store [OF execute_call_frame [OF exec]] start_server_stream_frame [OF start]
    note eq = assms [unfolded dispatch_fresh_def Let_def c1_def [symmetric] Inr sum.case exec start prod.case]
    show ?thesis
    proof (cases "bo_recv_message b \<and> bo_recv_status b \<or> \<not> gc_send_closed c1")
      case True
      with eq have "s' = (c1, h1)" by (auto split: sum.splits if_splits)
      with frames(1) show ?thesis by simp
    next
      case False
      with eq have "s' = (c2, h2) \<or> build_stream_result Z M T N (batch_flags b) c2 h2 = Some (r, s')"
        by (auto split: sum.splits if_splits)
      with frames(2) show ?thesis by (blast intro: frame_trans build_stream_result_frame)
    qed
  qed
  with first show ?thesis by (rule frame_trans)
qed

lemma dispatch_batch_frame:
  assumes "dispatch_batch Z M T N b c h = Some (r, s')"
  shows "frame (c, h) s'"
  using assms dispatch_send_only_frame dispatch_active_frame dispatch_fresh_frame
  unfolding dispatch_batch_def by (metis option.inject)

end
