(* ===== verification/Call_Results.thy ===== *)
theory Call_Results
  imports Call_Frames
begin

text \<open>
  What the batches of a call return: the unary result, the split unary pattern
  (send batch, then receive batch) against the single batch, calls whose deadline
  had passed before they were dispatched, and the paths on which metadata or a
  status is lost.
\<close>

section \<open>Accepted batches\<close>

text \<open>A call on which no batch has run yet, and whose channel is open.\<close>

definition open_call :: "('w, 'm) grpc_call \<Rightarrow> 'z store \<Rightarrow> bool" where
  "open_call c h \<longleftrightarrow> \<not> st_flag h (gc_channel_closed c) \<and> \<not> gc_cancelled c \<and> \<not> gc_finished c
     \<and> \<not> gc_initial_metadata_sent c \<and> gc_stream_state c = None"

text \<open>The flags a batch sets before it is dispatched, and after it succeeded.\<close>

definition mark_sent :: "batch_ops \<Rightarrow> ('w, 'm) grpc_call \<Rightarrow> ('w, 'm) grpc_call" where
  "mark_sent b c = c\<lparr>gc_initial_metadata_sent := (bo_has_send_initial_metadata b \<or> gc_initial_metadata_sent c),
     gc_send_closed := (bo_send_close b \<or> gc_send_closed c)\<rparr>"

definition mark_finished :: "batch_ops \<Rightarrow> ('w, 'm) grpc_call \<Rightarrow> ('w, 'm) grpc_call" where
  "mark_finished b c = c\<lparr>gc_finished := (bo_recv_status b \<or> gc_finished c)\<rparr>"

definition acks :: "batch_ops \<Rightarrow> php_obj" where
  "acks b = (if bo_has_send_initial_metadata b then [(''send_metadata'', P_Bool True)] else [])
     @ (if bo_send_message b \<noteq> None then [(''send_message'', P_Bool True)] else [])
     @ (if bo_send_close b then [(''send_close'', P_Bool True)] else [])"

lemma ack_props_ok:
  "engine_writes Z \<Longrightarrow> ack_props Z ob [(bo_has_send_initial_metadata b, ''send_metadata''),
     (bo_send_message b \<noteq> None, ''send_message''), (bo_send_close b, ''send_close'')] = Inr (ob @ acks b)"
  by (simp add: acks_def set_property_ok)

lemma mark_sent_simps [simp]:
  "gc_stream_state (mark_sent b c) = gc_stream_state c"
  "gc_deadline_usec (mark_sent b c) = gc_deadline_usec c"
  "gc_method (mark_sent b c) = gc_method c"
  "gc_channel_shared (mark_sent b c) = gc_channel_shared c"
  "gc_channel_closed (mark_sent b c) = gc_channel_closed c"
  "gc_cancelled (mark_sent b c) = gc_cancelled c"
  "gc_finished (mark_sent b c) = gc_finished c"
  "gc_call_plugin (mark_sent b c) = gc_call_plugin c"
  "gc_pending_metadata (mark_sent b c) = gc_pending_metadata c"
  "call_client (mark_sent b c) = call_client c"
  "call_plugin_metadata Z (mark_sent b c) h = call_plugin_metadata Z c h"
  by (simp_all add: mark_sent_def call_client_def call_plugin_metadata_def split: option.split)

text \<open>An accepted batch is dispatched, then marked and acknowledged.\<close>

lemma start_batch_accepted:
  assumes "\<not> st_flag h (gc_channel_closed c)" and "\<not> gc_cancelled c" and "\<not> gc_finished c"
    and "parse_ops Z ops = Inr b" and "op_set b \<noteq> {}"
    and "\<not> (bo_has_send_initial_metadata b \<and> gc_initial_metadata_sent c)"
  shows "start_batch Z M T N ops c h =
     (case dispatch_batch Z M T N b (mark_sent b c) h of
        None \<Rightarrow> None
      | Some (Inl e, c', h') \<Rightarrow> Some (Inl e, c', h')
      | Some (Inr ob, c', h') \<Rightarrow>
          Some (ack_props Z ob [(bo_has_send_initial_metadata b, ''send_metadata''),
             (bo_send_message b \<noteq> None, ''send_message''), (bo_send_close b, ''send_close'')],
             mark_finished b c', h'))"
proof -
  have wf: "batch_wf b" using parse_ops_spec [OF assms(4)] by blast
  have some: "(\<not> bo_has_send_ops b \<and> \<not> bo_has_recv_ops b) = False"
    using wf assms(5) by (auto simp: op_set_def batch_wf_def)
  have once: "(bo_has_send_initial_metadata b \<and> gc_initial_metadata_sent c) = False"
    using assms(6) by simp
  have sent: "(if bo_send_close b
       then (if bo_has_send_initial_metadata b then c\<lparr>gc_initial_metadata_sent := True\<rparr> else c)\<lparr>gc_send_closed := True\<rparr>
       else (if bo_has_send_initial_metadata b then c\<lparr>gc_initial_metadata_sent := True\<rparr> else c)) = mark_sent b c"
    by (simp add: mark_sent_def)
  have finished: "(if bo_recv_status b then c'\<lparr>gc_finished := True\<rparr> else c') = mark_finished b c'"
    for c' :: "('b, 'c) grpc_call"
    by (simp add: mark_finished_def)
  note eq = start_batch_def [of Z M T N ops c h, unfolded assms(4) sum.case some once Let_def sent finished]
  show ?thesis using assms(1-3) by (simp add: eq)
qed

lemma start_batch_ok:
  assumes "engine_writes Z"
    and "\<not> st_flag h (gc_channel_closed c)" and "\<not> gc_cancelled c" and "\<not> gc_finished c"
    and "parse_ops Z ops = Inr b" and "op_set b \<noteq> {}"
    and "\<not> (bo_has_send_initial_metadata b \<and> gc_initial_metadata_sent c)"
    and "dispatch_batch Z M T N b (mark_sent b c) h = Some (Inr ob, c', h')"
  shows "start_batch Z M T N ops c h = Some (Inr (ob @ acks b), mark_finished b c', h')"
  unfolding start_batch_accepted [OF assms(2-7)] assms(8)
  using ack_props_ok [OF assms(1), of ob b] by (simp del: ack_props.simps)

section \<open>Runtime\<close>

lemma store_runtime_pump:
  assumes "store_runtime E h = (Inr rt, h1)"
  shows "store_runtime E h1 = (Inr rt, h1)" and "store_pump E h1 = (Inr 4, h1)"
proof -
  obtain g where g: "get_runtime E (st_rt h) = (Inr rt, g)" "h1 = h\<lparr>st_rt := g\<rparr>"
    using assms by (auto simp: store_runtime_def split: prod.splits)
  then have stable: "get_runtime E g = (Inr rt, g)" using get_runtime_stable [OF g(1)] by simp
  with g show "store_runtime E h1 = (Inr rt, h1)" by (simp add: store_runtime_def)
  have "yields 4 0 = 4" by (simp add: eval_nat_numeral)
  with g stable show "store_pump E h1 = (Inr 4, h1)" by (simp add: store_pump_def pump_def)
qed

lemma with_store_Inr: "bind_st (with_store c (Inr x, h)) f = f x (c, h)"
  by (simp add: with_store_def)

lemma runtime_flags:
  "store_runtime E h = (r, h1) \<Longrightarrow>
     st_flag h1 = st_flag h \<and> st_shared h1 = st_shared h \<and> st_plugin h1 = st_plugin h"
  by (auto simp: store_runtime_def split: prod.splits)

section \<open>Unary calls\<close>

text \<open>What PHP receives for the outcome of a unary call.\<close>

definition failed_reply :: "('m, 'v) md_api \<Rightarrow> 'm stream_trailers \<Rightarrow> php_obj" where
  "failed_reply M t = [(''metadata'', P_Map []), (''message'', P_Null), (''status'', php_status M t)]"

fun unary_reply :: "('m, 'v) md_api \<Rightarrow> i64 \<Rightarrow> clock_reading \<Rightarrow> 'm unary_outcome \<Rightarrow> php_exception + php_obj" where
  "unary_reply M d r (U_Response md body) =
     Inr [(''metadata'', php_metadata M md), (''message'', P_Str body),
          (''status'', P_Obj [(''metadata'', P_Map []), (''code'', P_Int 0), (''details'', P_Str [])])]"
| "unary_reply M d r (U_Status st) = Inr (failed_reply M (status_trailers M d st r))"
| "unary_reply M d r U_Deadline = Inr (failed_reply M (deadline_exceeded_trailers M))"
| "unary_reply M d r U_Cancelled = Inl (exception_of_error (Status 1 ''Call cancelled''))"

abbreviation all_flags :: recv_flags where
  "all_flags \<equiv> \<lparr>rf_initial_metadata = True, rf_message = True, rf_status = True\<rparr>"

text \<open>The request a batch sends, with the metadata of the credentials plugin.\<close>

definition unary_request ::
  "('m, 'v) md_api \<Rightarrow> 'm net \<Rightarrow> ('w, 'm) grpc_call \<Rightarrow> batch_ops \<Rightarrow> (string \<times> string) list
     \<Rightarrow> (bytes, 'm) tonic_request" where
  "unary_request M N c b plugin_md = build_request M (ne_request_clock N) (bo_send_metadata b) plugin_md
     (unwrap_or [] (bo_send_message b)) (gc_deadline_usec c)"

text \<open>The library lets the request reach the wire: a runtime, time left, a valid path.\<close>

definition dispatchable :: "'m net \<Rightarrow> ('w, 'm) grpc_call \<Rightarrow> 'z store \<Rightarrow> bool" where
  "dispatchable N c h \<longleftrightarrow> (\<exists>rt h1. store_runtime (ne_rt N) h = (Inr rt, h1))
     \<and> \<not> deadline_already_expired (ne_expiry_clock N) (gc_deadline_usec c)
     \<and> ne_path_error N (gc_method c) = None"

definition unary_outcome_of :: "'m net \<Rightarrow> ('w, 'm) grpc_call \<Rightarrow> (bytes, 'm) tonic_request \<Rightarrow> 'm unary_outcome" where
  "unary_outcome_of N c q = ne_unary N (call_client c) (gc_method c) q
     (deadline_instant (ne_instant_clock N) (gc_deadline_usec c))"

lemma build_unary_result_ok:
  assumes "engine_writes Z"
  shows "build_unary_result Z M all_flags (md, body, tr, code, msg) =
     Inr [(''metadata'', case md of None \<Rightarrow> P_Map [] | Some m \<Rightarrow> php_metadata M m),
          (''message'', case body of None \<Rightarrow> P_Null | Some b \<Rightarrow> P_Str b),
          (''status'', P_Obj [(''metadata'', case tr of None \<Rightarrow> P_Map [] | Some m \<Rightarrow> php_metadata M m),
             (''code'', P_Int code), (''details'', P_Str msg)])]"
  using assms
  by (simp add: build_unary_result_def status_object_def set_metadata_ok set_property_ok
      bytes_to_php_string_zval_def split: option.split)

lemma execute_call_dispatched:
  assumes "dispatchable N c h"
    and "ne_unary_ready N (call_client c) (deadline_instant (ne_instant_clock N) (gc_deadline_usec c)) = U_Ready"
    and "q = build_request M (ne_request_clock N) send_md plugin_md (unwrap_or [] msg) (gc_deadline_usec c)"
    and "engine_writes Z"
  shows "\<exists>h'. st_flag h' = st_flag h \<and>
     (case execute_call M N c send_md plugin_md msg h of
        (Inl e, h1) \<Rightarrow> (Inl e, h1) | (Inr res, h1) \<Rightarrow> (build_unary_result Z M all_flags res, h1))
     = (unary_reply M (gc_deadline_usec c) (ne_status_clock N) (unary_outcome_of N c q), h')"
proof -
  obtain rt h1 where rt: "store_runtime (ne_rt N) h = (Inr rt, h1)"
    using assms(1) by (auto simp: dispatchable_def)
  note pump = store_runtime_pump(2) [OF rt]
  have flags: "st_flag h1 = st_flag h" using runtime_flags [OF rt] by simp
  let ?res = "unary_call M N c send_md plugin_md msg"
  let ?h' = "case gc_channel_shared c of None \<Rightarrow> h1 | Some a \<Rightarrow> set_conn_state a (outcome_state ?res) h1"
  have exec: "execute_call M N c send_md plugin_md msg h = (map_err exception_of_error ?res, ?h')"
    using assms(1) rt pump by (simp add: execute_call_def dispatchable_def Let_def)
  have "(case map_err exception_of_error ?res of Inl e \<Rightarrow> Inl e | Inr res \<Rightarrow> build_unary_result Z M all_flags res)
      = unary_reply M (gc_deadline_usec c) (ne_status_clock N) (unary_outcome_of N c q)"
    using assms
    by (cases "unary_outcome_of N c q")
      (simp_all add: unary_call_def dispatchable_def unary_outcome_of_def Let_def build_unary_result_ok
        deadline_exceeded_result_def failed_reply_def php_status_def status_trailers_def
        deadline_exceeded_trailers_def split: prod.split)
  moreover have "st_flag ?h' = st_flag h" using flags by (simp split: option.split)
  ultimately show ?thesis
    unfolding exec by (intro exI [of _ ?h']) (simp split: sum.split_asm sum.split)
qed

lemma full_batch:
  assumes "parse_ops Z ops = Inr b" and "op_set b = {0, 1, 2, 4, 5, 6}"
  shows "bo_has_send_ops b" "bo_has_recv_ops b" "bo_recv_message b" "bo_recv_status b" "bo_send_close b"
    "bo_has_send_initial_metadata b" "bo_send_message b \<noteq> None" "batch_flags b = all_flags"
proof -
  have wf: "batch_wf b" using parse_ops_spec [OF assms(1)] by blast
  have "0 \<in> op_set b" "1 \<in> op_set b" "2 \<in> op_set b" "4 \<in> op_set b" "5 \<in> op_set b" "6 \<in> op_set b"
    using assms(2) by simp_all
  then have ops: "bo_has_send_initial_metadata b" "bo_send_message b \<noteq> None" "bo_send_close b"
    "bo_recv_initial_metadata b" "bo_recv_message b" "bo_recv_status b"
    by (simp_all add: op_set_def op_codes)
  then show "bo_recv_message b" "bo_recv_status b" "bo_send_close b" "bo_has_send_initial_metadata b"
    "bo_send_message b \<noteq> None" by simp_all
  from ops wf show "bo_has_send_ops b" "bo_has_recv_ops b" by (simp_all add: batch_wf_def)
  from ops show "batch_flags b = all_flags" by (simp add: batch_flags_def)
qed

lemma unary_batch_dispatch:
  assumes "engine_writes Z" and "gc_stream_state c = None" and "dispatchable N c h"
    and "parse_ops Z ops = Inr b" and "op_set b = {0, 1, 2, 4, 5, 6}"
    and "call_plugin_metadata Z c h = Inr plugin_md"
    and "ne_unary_ready N (call_client c) (deadline_instant (ne_instant_clock N) (gc_deadline_usec c)) = U_Ready"
  shows "\<exists>h'. dispatch_batch Z M T N b (mark_sent b c) h =
     Some (unary_reply M (gc_deadline_usec c) (ne_status_clock N)
             (unary_outcome_of N c (unary_request M N c b plugin_md)), mark_sent b c, h')"
proof -
  let ?c = "mark_sent b c"
  note full = full_batch [OF assms(4,5)]
  have disp: "dispatchable N ?c h" using assms(3) by (simp add: dispatchable_def)
  have outcome: "unary_outcome_of N ?c q = unary_outcome_of N c q" for q
    by (simp add: unary_outcome_of_def)
  have ready: "ne_unary_ready N (call_client ?c) (deadline_instant (ne_instant_clock N) (gc_deadline_usec ?c)) = U_Ready"
    using assms(7) by simp
  obtain h' where h': "(case execute_call M N ?c (bo_send_metadata b) plugin_md (bo_send_message b) h of
        (Inl e, h1) \<Rightarrow> (Inl e, h1) | (Inr res, h1) \<Rightarrow> (build_unary_result Z M all_flags res, h1))
     = (unary_reply M (gc_deadline_usec c) (ne_status_clock N)
          (unary_outcome_of N c (unary_request M N c b plugin_md)), h')"
    using execute_call_dispatched [OF disp ready refl assms(1), of M "bo_send_metadata b" plugin_md "bo_send_message b"]
      outcome by (auto simp: unary_request_def)
  have "dispatch_batch Z M T N b ?c h = dispatch_fresh Z M T N b ?c h"
    using assms(2) full(1,2) by (simp add: dispatch_batch_def)
  also have "\<dots> = (case execute_call M N ?c (bo_send_metadata b) plugin_md (bo_send_message b) h of
        (Inl e, h1) \<Rightarrow> Some (Inl e, ?c, h1) | (Inr res, h1) \<Rightarrow> Some (build_unary_result Z M all_flags res, ?c, h1))"
    using assms(6) full by (simp add: dispatch_fresh_def Let_def)
  also have "\<dots> = Some (unary_reply M (gc_deadline_usec c) (ne_status_clock N)
             (unary_outcome_of N c (unary_request M N c b plugin_md)), ?c, h')"
    using h' by (auto split: prod.splits sum.splits)
  finally show ?thesis by blast
qed

lemma unary_batch_start:
  assumes "engine_writes Z" and "open_call c h" and "dispatchable N c h"
    and "parse_ops Z ops = Inr b" and "op_set b = {0, 1, 2, 4, 5, 6}"
    and "call_plugin_metadata Z c h = Inr plugin_md"
    and "ne_unary_ready N (call_client c) (deadline_instant (ne_instant_clock N) (gc_deadline_usec c)) = U_Ready"
    and "unary_reply M (gc_deadline_usec c) (ne_status_clock N)
           (unary_outcome_of N c (unary_request M N c b plugin_md)) = Inr ob"
  shows "\<exists>c' h'. start_batch Z M T N ops c h =
       Some (Inr (ob @ [(''send_metadata'', P_Bool True), (''send_message'', P_Bool True),
                        (''send_close'', P_Bool True)]), c', h') \<and> gc_finished c'"
proof -
  have "gc_stream_state c = None" using assms(2) by (simp add: open_call_def)
  with unary_batch_dispatch [OF assms(1) _ assms(3-7), of M T] assms(8) obtain h' where
    "dispatch_batch Z M T N b (mark_sent b c) h = Some (Inr ob, mark_sent b c, h')" by auto
  moreover have "op_set b \<noteq> {}" using assms(5) by auto
  ultimately have "start_batch Z M T N ops c h
      = Some (Inr (ob @ acks b), mark_finished b (mark_sent b c), h')"
    using assms(1,2,4) by (intro start_batch_ok) (simp_all add: open_call_def)
  then show ?thesis using full_batch [OF assms(4,5)] by (simp add: acks_def mark_finished_def)
qed


text \<open>
  An echo server for statements on concrete arguments: it answers with the
  message and metadata of the request.
\<close>

definition echo_net :: "'m net" where
  "echo_net = \<lparr>ne_rt = plain_rt, ne_expiry_clock = SinceEpoch 5, ne_request_clock = SinceEpoch 5,
     ne_instant_clock = SinceEpoch 5, ne_status_clock = SinceEpoch 5, ne_path_error = (\<lambda>p. None),
     ne_unary_ready = (\<lambda>cl d. U_Ready),
     ne_unary = (\<lambda>cl p q d. U_Response (rq_metadata q) (rq_message q)),
     ne_server_stream = (\<lambda>cl p q. (Ready_Ok, Open_Ok (rq_metadata q),
        [Ev_Message (rq_message q) True, Ev_End (Some None)])),
     ne_bidi_stream = (\<lambda>cl p q. (Ready_Ok, Open_Ok (rq_metadata q), [Ev_End (Some None)])),
     ne_lookup = (\<lambda>t. None)\<rparr>"

definition plain_call :: "i64 \<Rightarrow> ('w, 'm) grpc_call" where
  "plain_call d = \<lparr>gc_channel = \<lparr>ep_uri = ''http://h'', ep_calls = []\<rparr>, gc_method = ''/s/m'', gc_target = ''h'',
     gc_deadline_usec = d, gc_host_override = None, gc_call_plugin = None, gc_cancelled = False,
     gc_max_decoding = None, gc_max_encoding = None, gc_pending_metadata = [], gc_pending_message = None,
     gc_send_closed = False, gc_initial_metadata_sent = False, gc_finished = False,
     gc_channel_closed = 1, gc_channel_shared = Some 0, gc_stream_state = None\<rparr>"

definition plain_store :: "zval store" where
  "plain_store = empty_store\<lparr>st_next := 2, st_shared := [0 \<mapsto>
     \<lparr>sc_channel = \<lparr>ep_uri = ''http://h'', ep_calls = []\<rparr>, sc_state = CHANNEL_IDLE\<rparr>]\<rparr>"

abbreviation send_ops :: "bytes \<Rightarrow> zval hash_table" where
  "send_ops m \<equiv> [(Key_Long 0, Z_Array []), (Key_Long 1, Z_Array [(Key_Str ''message'', Z_Str m)]), (Key_Long 2, Z_Bool True)]"

abbreviation recv_ops :: "zval hash_table" where
  "recv_ops \<equiv> [(Key_Long 4, Z_Bool True), (Key_Long 5, Z_Bool True), (Key_Long 6, Z_Bool True)]"

definition full_ops_batch :: "bytes \<Rightarrow> batch_ops" where
  "full_ops_batch m = \<lparr>bo_send_metadata = [], bo_has_send_initial_metadata = True, bo_send_message = Some m,
     bo_send_close = True, bo_recv_initial_metadata = True, bo_recv_message = True, bo_recv_status = True,
     bo_has_send_ops = True, bo_has_recv_ops = True\<rparr>"

lemmas parse_eval = parse_ops_def array_key_to_long_def parse_send_metadata_def parse_send_message_def
  plain_get_def op_codes empty_batch_def

lemma parse_full_ops: "parse_ops plain_php (send_ops m @ recv_ops) = Inr (full_ops_batch m)"
  "op_set (full_ops_batch m) = {0, 1, 2, 4, 5, 6}"
  by (simp add: parse_eval full_ops_batch_def) (auto simp: op_set_def op_codes full_ops_batch_def)

lemma plain_call_ok:
  "open_call (plain_call d) plain_store" "call_plugin_metadata Z (plain_call d) h = Inr []"
  "gc_deadline_usec (plain_call d) = d"
  by (simp_all add: open_call_def plain_call_def plain_store_def empty_store_def call_plugin_metadata_def)

lemma plain_dispatchable: "\<not> deadline_already_expired (SinceEpoch 5) d \<Longrightarrow> dispatchable echo_net (plain_call d) h"
  using plain_runtime [of h] by (simp add: dispatchable_def echo_net_def plain_call_ok)

lemma not_expired_max: "\<not> deadline_already_expired r i64_max"
  by (simp add: deadline_already_expired_def)


section \<open>The split unary pattern\<close>

lemma apply_metadata_append:
  "apply_metadata M (xs @ ys) m = apply_metadata M ys (apply_metadata M xs m)"
  by (induction M xs m rule: apply_metadata.induct) (simp_all split: option.split)

lemma build_request_append:
  "build_request M r (send_md @ plugin_md) [] msg d = build_request M r send_md plugin_md msg d"
  by (simp add: build_request_def apply_metadata_append)

text \<open>The network gives a unary call and a server stream the same answer.\<close>

fun same_answer :: "clock_reading \<Rightarrow> 'm unary_outcome \<Rightarrow> 'm open_outcome \<Rightarrow> 'm stream_event list \<Rightarrow> bool" where
  "same_answer r (U_Response md body) (Open_Ok md') events \<longleftrightarrow>
     md' = md \<and> events = [Ev_Message body True, Ev_End (Some None)]"
| "same_answer r (U_Status st) (Open_Err st' r') events \<longleftrightarrow> st' = st \<and> r' = r"
| "same_answer r U_Deadline Open_Elapsed events \<longleftrightarrow> True"
| "same_answer r u opened events \<longleftrightarrow> False"

context stream_channel
begin

lemma read_all:
  assumes "engine_writes Z" and "as_initial_metadata s = None" and "as_meta_rx s"
    and "as_cached_trailers s = None" and "as_trailers_rx s"
    and "pmeta (as_chan s) = Some md" and "pend (as_chan s) = Inr x # rest" and "ptrail (as_chan s) = Some t"
  shows "\<exists>s'. read_stream Z M T d r all_flags s =
     Some (Inr [(''metadata'', php_metadata M md), (''message'', case x of None \<Rightarrow> P_Null | Some b \<Rightarrow> P_Str b),
                (''status'', php_status M t)], s')"
proof -
  obtain v w where md: "tk_meta T (as_chan s) = (v, w)" by fastforce
  with meta [OF md] assms have w: "v = Some md" "pend w = Inr x # rest" "ptrail w = Some t" by simp_all
  obtain i u where item: "next_item T w = (i, u)" by fastforce
  with next_item_spec [OF item] w have u: "i = Some (Inr x)" "ptrail u = Some t"
    by (simp_all add: first_of_def)
  let ?s = "s\<lparr>as_meta_rx := False, as_initial_metadata := None, as_chan := u\<rparr>"
  obtain s' where s': "take_trailers M T ?s = Some (t, s')"
    using take_trailers_total [of ?s M] assms(4,5) u(2) by auto
  have "recv_initial_metadata Z M T [] s = (Inr [(''metadata'', php_metadata M md)],
      s\<lparr>as_meta_rx := False, as_initial_metadata := None, as_chan := w\<rparr>)"
    using assms(1-3) md w(1) by (simp add: recv_initial_metadata_def Let_def engine_ok)
  moreover have "recv_message Z M T d r ob (s\<lparr>as_meta_rx := False, as_initial_metadata := None, as_chan := w\<rparr>)
      = (Inr (ob @ [(''message'', case x of None \<Rightarrow> P_Null | Some b \<Rightarrow> P_Str b)]), ?s)" for ob
    using assms(1,4) item u(1)
    by (simp add: recv_message_def engine_ok bytes_to_php_string_zval_def split: option.split)
  ultimately show ?thesis
    using recv_status_ok [OF assms(1) s'] by (simp add: read_stream_def)
qed

end

text \<open>A read of everything from a stream that got the same answer.\<close>

lemma same_answer_read:
  assumes "stream_channel T pend pmeta ptrail" and "engine_writes Z" and "md_laws M"
    and "same_answer r u opened events" and "unary_reply M d r u = Inr ob"
  shows "\<exists>s'. read_stream Z M T d r' all_flags
     (server_stream_state T (fst (server_stream_task M d has_shared Ready_Ok opened events))) = Some (Inr ob, s')"
proof -
  have empty: "php_metadata M (md_default M) = P_Map []"
    using assms(3) by (simp add: php_metadata_def collect_metadata_def md_laws_def)
  note read = stream_channel.read_all [OF assms(1,2), of "server_stream_state T acts" for acts]
  note spawn = stream_channel.spawn [OF assms(1)]
  from assms(4) show ?thesis
  proof (cases "(r, u, opened, events)" rule: same_answer.cases)
    case (1 r0 md body md' events0)
    with assms(4,5) read [of _ md "Some body" "[Inr None]"
        "\<lparr>tr_code = 0, tr_message = [], tr_metadata = md_default M\<rparr>" M d r'] show ?thesis
      by (simp add: server_stream_state_def server_stream_task_def answer_state_def spawn first_of_def
          php_status_def empty)
  next
    case (2 r0 st st' r'' events0)
    with assms(4,5) read [of _ "md_default M" None "[]" "status_trailers M d st r''" M d r'] show ?thesis
      by (simp add: server_stream_state_def server_stream_task_def answer_state_def spawn first_of_def
          failed_reply_def empty)
  next
    case (3 r0 events0)
    with assms(4,5) read [of _ "md_default M" None "[]" "deadline_exceeded_trailers M" M d r'] show ?thesis
      by (simp add: server_stream_state_def server_stream_task_def answer_state_def spawn first_of_def
          failed_reply_def empty)
  qed simp_all
qed

lemma send_batch:
  assumes "parse_ops Z ops = Inr b" and "op_set b = {0, 1, 2}"
  shows "bo_has_send_ops b" "\<not> bo_has_recv_ops b" "bo_send_close b" "\<not> bo_recv_status b"
    "acks b = [(''send_metadata'', P_Bool True), (''send_message'', P_Bool True), (''send_close'', P_Bool True)]"
proof -
  have wf: "batch_wf b" using parse_ops_spec [OF assms(1)] by blast
  have "0 \<in> op_set b" "1 \<in> op_set b" "2 \<in> op_set b" "4 \<notin> op_set b" "5 \<notin> op_set b" "6 \<notin> op_set b"
    using assms(2) by simp_all
  then have ops: "bo_has_send_initial_metadata b" "bo_send_message b \<noteq> None" "bo_send_close b"
    "\<not> bo_recv_initial_metadata b" "\<not> bo_recv_message b" "\<not> bo_recv_status b"
    by (simp_all add: op_set_def op_codes)
  then show "bo_send_close b" "\<not> bo_recv_status b" by simp_all
  from ops wf show "bo_has_send_ops b" "\<not> bo_has_recv_ops b" by (simp_all add: batch_wf_def)
  from ops show "acks b = [(''send_metadata'', P_Bool True), (''send_message'', P_Bool True), (''send_close'', P_Bool True)]"
    by (simp add: acks_def)
qed

lemma recv_batch:
  assumes "parse_ops Z ops = Inr b" and "op_set b = {4, 5, 6}"
  shows "\<not> bo_has_send_ops b" "bo_recv_status b" "\<not> bo_has_send_initial_metadata b" "acks b = []"
    "batch_flags b = all_flags"
proof -
  have wf: "batch_wf b" using parse_ops_spec [OF assms(1)] by blast
  have "0 \<notin> op_set b" "1 \<notin> op_set b" "2 \<notin> op_set b" "4 \<in> op_set b" "5 \<in> op_set b" "6 \<in> op_set b"
    using assms(2) by simp_all
  then have ops: "\<not> bo_has_send_initial_metadata b" "bo_send_message b = None" "\<not> bo_send_close b"
    "bo_recv_initial_metadata b" "bo_recv_message b" "bo_recv_status b"
    by (simp_all add: op_set_def op_codes)
  then show "bo_recv_status b" "\<not> bo_has_send_initial_metadata b" "acks b = []" "batch_flags b = all_flags"
    by (simp_all add: acks_def batch_flags_def)
  from ops wf show "\<not> bo_has_send_ops b" by (simp add: batch_wf_def)
qed

lemma start_server_stream_dispatched:
  assumes "store_runtime (ne_rt N) h = (Inr rt, h1)"
    and "\<not> deadline_already_expired (ne_expiry_clock N) (gc_deadline_usec c)"
    and "ne_path_error N (gc_method c) = None"
    and "ne_server_stream N (call_client c) (gc_method c)
       (build_request M (ne_request_clock N) send_md plugin_md (unwrap_or [] msg) (gc_deadline_usec c))
       = (ready, opened, events)"
  shows "start_server_stream M T N send_md plugin_md msg c h =
     (Inr (), c\<lparr>gc_stream_state := Some (server_stream_state T
        (fst (server_stream_task M (gc_deadline_usec c) (gc_channel_shared c \<noteq> None) ready opened events)))\<rparr>, h1)"
  using assms store_runtime_pump [OF assms(1)]
  by (simp add: start_server_stream_def with_store_Inr)

text \<open>The send half of a split call starts the request at once.\<close>

lemma split_send:
  assumes "engine_writes Z" and "open_call c h" and "store_runtime (ne_rt N) h = (Inr rt, h1)"
    and "dispatchable N c h" and "parse_ops Z ops = Inr b" and "op_set b = {0, 1, 2}"
    and "call_plugin_metadata Z c h = Inr plugin_md"
    and "ne_server_stream N (call_client c) (gc_method c) (unary_request M N c b plugin_md) = (ready, opened, events)"
  shows "\<exists>c1. start_batch Z M T N ops c h = Some (Inr (acks b), c1, h1)
     \<and> gc_stream_state c1 = Some (server_stream_state T (fst (server_stream_task M (gc_deadline_usec c)
           (gc_channel_shared c \<noteq> None) ready opened events)))
     \<and> gc_channel_closed c1 = gc_channel_closed c \<and> \<not> gc_cancelled c1 \<and> \<not> gc_finished c1
     \<and> gc_deadline_usec c1 = gc_deadline_usec c"
proof -
  note send = send_batch [OF assms(5,6)]
  let ?c = "(mark_sent b c)\<lparr>gc_pending_metadata := [], gc_pending_message := None\<rparr>"
  let ?s = "server_stream_state T (fst (server_stream_task M (gc_deadline_usec c)
      (gc_channel_shared c \<noteq> None) ready opened events))"
  have "call_client ?c = call_client c" by (simp add: call_client_def mark_sent_def)
  then have "start_server_stream M T N (bo_send_metadata b @ plugin_md) [] (bo_send_message b) ?c h
      = (Inr (), ?c\<lparr>gc_stream_state := Some ?s\<rparr>, h1)"
    using assms(4,8) start_server_stream_dispatched [OF assms(3), of ?c M "bo_send_metadata b @ plugin_md"
        "[]" "bo_send_message b" ready opened events T]
    by (simp add: dispatchable_def build_request_append unary_request_def)
  moreover have "gc_stream_state c = None" using assms(2) by (simp add: open_call_def)
  moreover have "call_plugin_metadata Z ((mark_sent b c)\<lparr>gc_pending_metadata := md, gc_pending_message := m\<rparr>) h
      = Inr plugin_md" for md m
    using assms(7) by (simp add: call_plugin_metadata_def mark_sent_def split: option.splits)
  ultimately have "dispatch_batch Z M T N b (mark_sent b c) h = Some (Inr [], ?c\<lparr>gc_stream_state := Some ?s\<rparr>, h1)"
    using send by (simp add: dispatch_batch_def dispatch_send_only_def Let_def)
  moreover have "op_set b \<noteq> {}" using assms(6) by auto
  ultimately have "start_batch Z M T N ops c h = Some (Inr (acks b), mark_finished b (?c\<lparr>gc_stream_state := Some ?s\<rparr>), h1)"
    using start_batch_ok [OF assms(1), of h c ops b M T N "[]"] assms(2,5) by (simp add: open_call_def)
  moreover have "mark_finished b (?c\<lparr>gc_stream_state := Some ?s\<rparr>) = ?c\<lparr>gc_stream_state := Some ?s\<rparr>"
    using send(4) by (simp add: mark_finished_def)
  ultimately show ?thesis using assms(2) by (simp add: open_call_def mark_sent_def)
qed

text \<open>A receive batch on a call with an active stream reads the stream.\<close>

lemma split_receive:
  assumes "engine_writes Z" and "store_runtime (ne_rt N) h = (Inr rt, h1)"
    and "\<not> st_flag h (gc_channel_closed c)" and "\<not> gc_cancelled c" and "\<not> gc_finished c"
    and "parse_ops Z ops = Inr b" and "op_set b = {4, 5, 6}" and "gc_stream_state c = Some s"
    and "read_stream Z M T (gc_deadline_usec c) (ne_status_clock N) all_flags s = Some (Inr ob, s')"
  shows "\<exists>c' h'. start_batch Z M T N ops c h = Some (Inr ob, c', h') \<and> gc_finished c'"
proof -
  note recv = recv_batch [OF assms(6,7)]
  have sent: "mark_sent b c = c" using recv(3) parse_ops_spec [OF assms(6)] recv(1)
    by (auto simp: mark_sent_def batch_wf_def)
  have "dispatch_batch Z M T N b c h = Some (Inr ob, c\<lparr>gc_stream_state := Some s'\<rparr>, h1)"
    using assms(2,8,9) recv
    by (simp add: dispatch_batch_def dispatch_active_def build_stream_result_def)
  moreover have "op_set b \<noteq> {}" using assms(7) by auto
  ultimately have "start_batch Z M T N ops c h
      = Some (Inr (ob @ acks b), mark_finished b (c\<lparr>gc_stream_state := Some s'\<rparr>), h1)"
    using assms(1,3-6) recv(3) sent by (intro start_batch_ok) simp_all
  with recv(2,4) show ?thesis by (simp add: mark_finished_def)
qed


definition send_ops_batch :: "bytes \<Rightarrow> batch_ops" where
  "send_ops_batch m = empty_batch\<lparr>bo_has_send_initial_metadata := True, bo_send_message := Some m,
     bo_send_close := True, bo_has_send_ops := True\<rparr>"

definition recv_ops_batch :: batch_ops where
  "recv_ops_batch = empty_batch\<lparr>bo_recv_initial_metadata := True, bo_recv_message := True,
     bo_recv_status := True, bo_has_recv_ops := True\<rparr>"

lemma parse_split_ops:
  "parse_ops plain_php (send_ops m) = Inr (send_ops_batch m)" "op_set (send_ops_batch m) = {0, 1, 2}"
  "parse_ops plain_php recv_ops = Inr recv_ops_batch" "op_set recv_ops_batch = {4, 5, 6}"
  by (simp_all add: parse_eval send_ops_batch_def recv_ops_batch_def)
    (auto simp: op_set_def op_codes)


section \<open>Calls whose deadline has passed\<close>

text \<open>Two networks that the call cannot tell apart before it sends anything.\<close>

definition same_locally :: "'m net \<Rightarrow> 'm net \<Rightarrow> bool" where
  "same_locally N N' \<longleftrightarrow> ne_rt N' = ne_rt N \<and> ne_expiry_clock N' = ne_expiry_clock N
     \<and> ne_status_clock N' = ne_status_clock N"

lemma expired_dispatch:
  assumes "same_locally N N'" and "deadline_already_expired (ne_expiry_clock N) (gc_deadline_usec c)"
  shows "execute_call M N' c send_md plugin_md msg h = execute_call M N c send_md plugin_md msg h"
    and "start_server_stream M T N' send_md plugin_md msg c h = start_server_stream M T N send_md plugin_md msg c h"
    and "start_bidi_stream M T N' send_md plugin_md c h = start_bidi_stream M T N send_md plugin_md c h"
    and "send_stream_message T N' m c h = send_stream_message T N m c h"
    and "build_stream_result Z M T N' flags c h = build_stream_result Z M T N flags c h"
  using assms
  by (auto simp: same_locally_def execute_call_def start_server_stream_def start_bidi_stream_def
      send_stream_message_def build_stream_result_def with_store_def bind_st_def
      split: prod.split sum.split option.split)

lemma bind_st_cong:
  assumes "\<And>x s. r = (Inr x, s) \<Longrightarrow> f x s = g x s"
  shows "bind_st r f = bind_st r g"
  using assms by (cases r; cases "fst r") (auto simp: bind_st_def)

lemma frame_deadline: "frame (c, h) (c', h') \<Longrightarrow> gc_deadline_usec c' = gc_deadline_usec c"
  by (simp add: frame_def call_frame_fields)

lemma close_stream_send_deadline [simp]: "gc_deadline_usec (close_stream_send T c) = gc_deadline_usec c"
  by (rule frame_deadline [OF close_stream_send_frame])

lemma expired_send_only:
  assumes "same_locally N N'" and "deadline_already_expired (ne_expiry_clock N) (gc_deadline_usec c)"
  shows "dispatch_send_only Z M T N' b c h = dispatch_send_only Z M T N b c h"
proof -
  note same = expired_dispatch [OF assms(1)]
  have forward: "(case bo_send_message b of None \<Rightarrow> (Inr (), c', h') | Some m \<Rightarrow> send_stream_message T N' m c' h')
      = (case bo_send_message b of None \<Rightarrow> (Inr (), c', h') | Some m \<Rightarrow> send_stream_message T N m c' h')"
    if "gc_deadline_usec c' = gc_deadline_usec c" for c' and h' :: "'c store"
    using assms(2) that by (simp add: same(4) split: option.split)
  let ?k = "\<lambda>N u (c', h'). bind_st (case bo_send_message b of None \<Rightarrow> (Inr (), c', h')
      | Some m \<Rightarrow> send_stream_message T N m c' h') (\<lambda>u (c, h). (Inr [], c, h))"
  have bidi: "bind_st (start_bidi_stream M T N md pm c1 h) (?k N') = bind_st (start_bidi_stream M T N md pm c1 h) (?k N)"
    if d: "gc_deadline_usec c1 = gc_deadline_usec c" for md pm c1
  proof (rule bind_st_cong)
    fix x s
    assume start: "start_bidi_stream M T N md pm c1 h = (Inr x, s)"
    obtain c' h' where s: "s = (c', h')" by (cases s)
    have "gc_deadline_usec c' = gc_deadline_usec c"
      using frame_deadline [OF start_bidi_stream_frame [OF start [unfolded s]]] d by simp
    then show "?k N' x s = ?k N x s" by (simp only: s prod.case forward)
  qed
  note expired = assms(2)
  consider "gc_stream_state c \<noteq> None"
    | "gc_stream_state c = None" "\<not> bo_send_close b" "bo_send_message b \<noteq> None"
    | "gc_stream_state c = None" "bo_send_close b \<or> bo_send_message b = None" by blast
  then show ?thesis
  proof cases
    case 1
    then show ?thesis by (simp add: dispatch_send_only_def forward)
  next
    case 2
    have both: "bind_st (start_bidi_stream M T N' md pm (c\<lparr>gc_pending_metadata := []\<rparr>) h) (?k N')
        = bind_st (start_bidi_stream M T N md pm (c\<lparr>gc_pending_metadata := []\<rparr>) h) (?k N)" for md pm
      using expired same(3) [of "c\<lparr>gc_pending_metadata := []\<rparr>" M T md pm h]
        bidi [of "c\<lparr>gc_pending_metadata := []\<rparr>" md pm] by simp
    show ?thesis unfolding dispatch_send_only_def Let_def both using 2 by simp
  next
    case 3
    have "start_server_stream M T N' md pm m (c\<lparr>gc_pending_metadata := [], gc_pending_message := None\<rparr>) h
        = start_server_stream M T N md pm m (c\<lparr>gc_pending_metadata := [], gc_pending_message := None\<rparr>) h" for md pm m
      using expired by (intro same(2)) simp
    with 3 show ?thesis by (auto simp: dispatch_send_only_def Let_def split: sum.split)
  qed
qed

lemma expired_active:
  assumes "same_locally N N'" and "deadline_already_expired (ne_expiry_clock N) (gc_deadline_usec c)"
  shows "dispatch_active Z M T N' b c h = dispatch_active Z M T N b c h"
proof -
  note same = expired_dispatch [OF assms(1)]
  let ?fwd = "\<lambda>N. case (if bo_has_send_ops b then bo_send_message b else None) of
      None \<Rightarrow> (Inr (), c, h) | Some m \<Rightarrow> send_stream_message T N m c h"
  obtain r1 c1 h1 where m: "?fwd N = (r1, c1, h1)" by (cases "?fwd N")
  have "gc_deadline_usec c1 = gc_deadline_usec c"
    using forward_message_frame [where c = c and h = h and T = T and N = N
        and msg = "if bo_has_send_ops b then bo_send_message b else None"] m
    by (simp add: frame_deadline)
  moreover have "?fwd N' = ?fwd N" using assms(2) by (simp add: same(4) split: option.split)
  ultimately show ?thesis
    using m assms(2) by (simp add: dispatch_active_def Let_def same(5) split: sum.split)
qed

lemma expired_fresh:
  assumes "same_locally N N'" and "deadline_already_expired (ne_expiry_clock N) (gc_deadline_usec c)"
  shows "dispatch_fresh Z M T N' b c h = dispatch_fresh Z M T N b c h"
proof -
  define c1 where "c1 = (if bo_has_send_ops b then c else c\<lparr>gc_pending_metadata := [], gc_pending_message := None\<rparr>)"
  have d: "gc_deadline_usec c1 = gc_deadline_usec c" by (simp add: c1_def)
  then have exp: "deadline_already_expired (ne_expiry_clock N) (gc_deadline_usec c1)" using assms(2) by simp
  note same = expired_dispatch [OF assms(1)]
  have after: "build_stream_result Z M T N' flags c2 h2 = build_stream_result Z M T N flags c2 h2"
    if "start_server_stream M T N md pm m c1 h = (r, c2, h2)" for md pm m r c2 h2 flags
    using frame_deadline [OF start_server_stream_frame [OF that]] exp d by (intro same(5)) simp
  show ?thesis
    unfolding dispatch_fresh_def Let_def c1_def [symmetric] same(1,2) [OF exp]
    using after by (auto split: sum.split prod.split)
qed



section \<open>What is lost\<close>

text \<open>The first batch of a client or bidirectional stream: a message and no close.\<close>

definition opens_stream :: "batch_ops \<Rightarrow> bool" where
  "opens_stream b \<longleftrightarrow> bo_has_send_ops b \<and> \<not> bo_has_recv_ops b \<and> \<not> bo_send_close b \<and> bo_send_message b \<noteq> None"

text \<open>
  C33. Sent metadata is lost on two paths. A batch that sends initial metadata
  together with the first message of a client stream behaves as if it sent any
  other metadata, and a batch that sends a message and closes drops the metadata
  that an earlier batch had buffered.
\<close>

theorem sent_metadata_lost:
  assumes "parse_ops Z ops = Inr b" and "gc_stream_state c = None"
  shows "(opens_stream b \<longrightarrow> parse_ops Z ops' = Inr (b\<lparr>bo_send_metadata := md\<rparr>) \<longrightarrow>
       start_batch Z M T N ops' c h = start_batch Z M T N ops c h)
     \<and> (bo_has_send_ops b \<and> \<not> bo_has_recv_ops b \<and> bo_send_close b \<longrightarrow>
       dispatch_batch Z M T N b (c\<lparr>gc_pending_metadata := md\<rparr>) h = dispatch_batch Z M T N b c h)"
proof (intro conjI impI)
  assume "opens_stream b" and ops': "parse_ops Z ops' = Inr (b\<lparr>bo_send_metadata := md\<rparr>)"
  have keep: "bo_send_message (b\<lparr>bo_send_metadata := md\<rparr>) = bo_send_message b"
    "bo_has_send_initial_metadata (b\<lparr>bo_send_metadata := md\<rparr>) = bo_has_send_initial_metadata b"
    "bo_send_close (b\<lparr>bo_send_metadata := md\<rparr>) = bo_send_close b"
    "bo_recv_status (b\<lparr>bo_send_metadata := md\<rparr>) = bo_recv_status b"
    "bo_has_send_ops (b\<lparr>bo_send_metadata := md\<rparr>) = bo_has_send_ops b"
    "bo_has_recv_ops (b\<lparr>bo_send_metadata := md\<rparr>) = bo_has_recv_ops b" by simp_all
  have disp: "dispatch_batch Z M T N (b\<lparr>bo_send_metadata := md\<rparr>) c' h = dispatch_batch Z M T N b c' h"
    if "gc_stream_state c' = None" for c' :: "('b, 'c) grpc_call"
    unfolding dispatch_batch_def dispatch_send_only_def Let_def keep
    using that \<open>opens_stream b\<close> by (simp add: opens_stream_def)
  show "start_batch Z M T N ops' c h = start_batch Z M T N ops c h"
    unfolding start_batch_def assms(1) ops' sum.case Let_def keep
    using assms(2) by (simp add: disp)
next
  assume "bo_has_send_ops b \<and> \<not> bo_has_recv_ops b \<and> bo_send_close b"
  with assms(2) show "dispatch_batch Z M T N b (c\<lparr>gc_pending_metadata := md\<rparr>) h = dispatch_batch Z M T N b c h"
    by (simp add: dispatch_batch_def dispatch_send_only_def)
qed

abbreviation message_op :: "bytes \<Rightarrow> array_key \<times> zval" where
  "message_op m \<equiv> (Key_Long 1, Z_Array [(Key_Str ''message'', Z_Str m)])"

abbreviation metadata_op :: "bytes \<Rightarrow> bytes \<Rightarrow> array_key \<times> zval" where
  "metadata_op k v \<equiv> (Key_Long 0, Z_Array [(Key_Str k, Z_Array [(Key_Long 0, Z_Str v)])])"

definition opening_batch :: "(string \<times> string) list \<Rightarrow> batch_ops" where
  "opening_batch md = empty_batch\<lparr>bo_send_metadata := md, bo_has_send_initial_metadata := True,
     bo_send_message := Some ''hi'', bo_has_send_ops := True\<rparr>"

lemma parse_opening:
  "parse_ops plain_php [metadata_op ''k'' ''v'', message_op ''hi''] = Inr (opening_batch [(''k'', ''v'')])"
  "parse_ops plain_php [metadata_op ''k'' ''w'', message_op ''hi''] = Inr (opening_batch [(''k'', ''w'')])"
  "opens_stream (opening_batch md)" "(opening_batch md)\<lparr>bo_send_metadata := md'\<rparr> = opening_batch md'"
proof -
  have chars: "utf8_lossy ''v'' = ''v''" "utf8_lossy ''w'' = ''w''" "header_key_is_legal ''k''"
    by code_simp+
  show "parse_ops plain_php [metadata_op ''k'' ''v'', message_op ''hi''] = Inr (opening_batch [(''k'', ''v'')])"
    "parse_ops plain_php [metadata_op ''k'' ''w'', message_op ''hi''] = Inr (opening_batch [(''k'', ''w'')])"
    by (simp_all add: parse_eval opening_batch_def array_key_to_string_def chars del: utf8_lossy.simps)
qed (simp_all add: opens_stream_def opening_batch_def empty_batch_def)

theorem sent_metadata_lost_witness:
  "start_batch plain_php list_md delivery_tokio echo_net [metadata_op ''k'' ''w'', message_op ''hi'']
       (plain_call i64_max) plain_store
   = start_batch plain_php list_md delivery_tokio echo_net [metadata_op ''k'' ''v'', message_op ''hi'']
       (plain_call i64_max) plain_store"
proof -
  have "gc_stream_state (plain_call i64_max) = None" by (simp add: plain_call_def)
  from sent_metadata_lost [OF parse_opening(1) this] parse_opening(2-4) show ?thesis by metis
qed

text \<open>
  C34. The first message of a client or bidirectional stream whose deadline has
  passed does not give an end of stream and a DEADLINE_EXCEEDED status: the batch
  itself throws, because the stream installed for an expired call cannot send.
\<close>

theorem expired_stream_throws:
  assumes "open_call c h" and "parse_ops Z ops = Inr b" and "opens_stream b"
    and "call_plugin_metadata Z c h = Inr plugin_md" and "store_runtime (ne_rt N) h = (Inr rt, h1)"
    and "deadline_already_expired (ne_expiry_clock N) (gc_deadline_usec c)"
  shows "\<exists>c' h'. start_batch Z M T N ops c h =
     Some (Inl (default_exception ''stream does not support sending''), c', h')"
proof -
  let ?c = "(mark_sent b c)\<lparr>gc_pending_metadata := []\<rparr>"
  obtain msg where msg: "bo_send_message b = Some msg" using assms(3) by (auto simp: opens_stream_def)
  have plugin: "call_plugin_metadata Z ?c h = Inr plugin_md"
    using assms(4) by (simp add: call_plugin_metadata_def mark_sent_def split: option.splits)
  note rt = store_runtime_pump [OF assms(5)]
  have start: "start_bidi_stream M T N md plugin_md ?c h
      = (Inr (), ?c\<lparr>gc_stream_state := Some (expired_stream_state M T)\<rparr>, h1)" for md
    using assms(5,6) rt by (simp add: start_bidi_stream_def with_store_Inr)
  have "send_stream_message T N msg (?c\<lparr>gc_stream_state := Some (expired_stream_state M T)\<rparr>) h1
      = (Inl (default_exception ''stream does not support sending''),
         ?c\<lparr>gc_stream_state := Some (expired_stream_state M T)\<rparr>, h1)"
    using rt(1) by (simp add: send_stream_message_def with_store_Inr expired_stream_state_def)
  then have "dispatch_batch Z M T N b (mark_sent b c) h
      = Some (Inl (default_exception ''stream does not support sending''),
          ?c\<lparr>gc_stream_state := Some (expired_stream_state M T)\<rparr>, h1)"
    using assms(1,3) plugin start msg
    by (simp add: open_call_def opens_stream_def dispatch_batch_def dispatch_send_only_def)
  moreover have "op_set b \<noteq> {}"
    using msg by (auto simp: op_set_def)
  ultimately show ?thesis
    using assms(1,2) start_batch_accepted [of h c Z ops b M T N] by (simp add: open_call_def)
qed

theorem expired_stream_throws_witness:
  "\<exists>c' h'. start_batch plain_php list_md delivery_tokio echo_net [metadata_op ''k'' ''v'', message_op ''hi'']
       (plain_call 3) plain_store
     = Some (Inl (default_exception ''stream does not support sending''), c', h')"
proof -
  obtain rt h1 where "store_runtime plain_rt plain_store = (Inr rt, h1)" using plain_runtime by blast
  then have "store_runtime (ne_rt echo_net) plain_store = (Inr rt, h1)" by (simp add: echo_net_def)
  then show ?thesis
    by (rule expired_stream_throws [OF plain_call_ok(1) parse_opening(1,3) plain_call_ok(2)])
      (simp add: echo_net_def plain_call_ok deadline_already_expired_def now_usec_def)
qed

text \<open>
  C35. A unary call whose deadline passes while it is still connecting reports
  DEADLINE_EXCEEDED, and marks the channel READY although no connection was made.
\<close>

theorem connect_timeout_reports_ready:
  assumes "dispatchable N c h" and "gc_channel_shared c = Some a" and "st_shared h a \<noteq> None"
    and "ne_unary_ready N (call_client c) (deadline_instant (ne_instant_clock N) (gc_deadline_usec c))
          = U_Ready_Elapsed"
  shows "\<exists>h'. execute_call M N c send_md plugin_md msg h
       = (Inr (None, None, Some (md_default M), 4, ''Deadline Exceeded''), h')
     \<and> conn_state h' a = Some CHANNEL_READY"
proof -
  obtain rt h1 where rt: "store_runtime (ne_rt N) h = (Inr rt, h1)"
    using assms(1) by (auto simp: dispatchable_def)
  then have "st_shared h1 a \<noteq> None" using assms(3) runtime_flags [OF rt] by simp
  with rt store_runtime_pump(2) [OF rt] assms show ?thesis
    by (simp add: execute_call_def unary_call_def dispatchable_def deadline_exceeded_result_def
        outcome_state_def conn_state_set)
qed

theorem connect_timeout_reports_ready_witness:
  "\<exists>h'. execute_call list_md (echo_net\<lparr>ne_unary_ready := (\<lambda>cl d. U_Ready_Elapsed)\<rparr>)
         (plain_call 9) [] [] (Some ''hi'') plain_store
       = (Inr (None, None, Some [], 4, ''Deadline Exceeded''), h')
     \<and> conn_state h' 0 = Some CHANNEL_READY"
proof -
  let ?N = "echo_net\<lparr>ne_unary_ready := (\<lambda>cl d. U_Ready_Elapsed)\<rparr>"
  have "\<not> deadline_already_expired (SinceEpoch 5) 9"
    by (simp add: deadline_already_expired_def now_usec_def)
  then have "dispatchable ?N (plain_call 9) plain_store"
    using plain_dispatchable by (simp add: dispatchable_def echo_net_def)
  then show ?thesis
    using connect_timeout_reports_ready [of ?N "plain_call 9" plain_store 0 list_md "[]" "[]" "Some ''hi''"]
    by (simp add: plain_call_def plain_store_def list_md_def)
qed

end
