(* ===== verification/Call_Lifecycle.thy ===== *)
theory Call_Lifecycle
  imports Call_Results
begin

text \<open>
  The life of one call: batches, cancellation, new credentials, the closing of its
  channel and the activity of other objects in any order. The log of the batches
  that ran is part of the state, so that what happens at most once can be counted.
\<close>

record ('w, 'm, 'z) session =
  se_call :: "('w, 'm) grpc_call"
  se_store :: "'z store"
  se_log :: "(batch_ops \<times> bool) list"

definition new_session :: "('w, 'm, 'z) session \<Rightarrow> bool" where
  "new_session s \<longleftrightarrow>
     (\<exists>Z r ch method deadline host.
        construct_call Z r ch method deadline host (se_store s) = Inr (se_call s)
        \<and> ch_closed_flag ch < st_next (se_store s))
     \<and> se_log s = []"

inductive call_step :: "('m, 'v) md_api \<Rightarrow> ('w, 'm, 'z) session \<Rightarrow> ('w, 'm, 'z) session \<Rightarrow> bool"
  for M :: "('m, 'v) md_api" where
  batch: "start_batch Z M T N ops (se_call s) (se_store s) = Some (r, c', h') \<Longrightarrow> parse_ops Z ops = Inr b
     \<Longrightarrow> call_step M s (s\<lparr>se_call := c', se_store := h', se_log := se_log s @ [(b, \<not> isl r)]\<rparr>)"
| unparsed: "start_batch Z M T N ops (se_call s) (se_store s) = Some (r, c', h') \<Longrightarrow> parse_ops Z ops = Inl e
     \<Longrightarrow> call_step M s (s\<lparr>se_call := c', se_store := h'\<rparr>)"
| cancelled: "call_step M s (s\<lparr>se_call := cancel (se_call s)\<rparr>)"
| credentials: "call_step M s (s\<lparr>se_call := snd (set_credentials creds (se_call s))\<rparr>)"
| closed: "close_channel ch (se_store s) = (ch', h') \<Longrightarrow> call_step M s (s\<lparr>se_store := h'\<rparr>)"
| others: "store_le (se_store s) h' \<Longrightarrow> call_step M s (s\<lparr>se_store := h'\<rparr>)"

definition delivered_statuses :: "(batch_ops \<times> bool) list \<Rightarrow> nat" where
  "delivered_statuses log = length (filter (\<lambda>(b, ok). ok \<and> bo_recv_status b) log)"

definition sent_headers :: "(batch_ops \<times> bool) list \<Rightarrow> nat" where
  "sent_headers log = length (filter (\<lambda>(b, ok). ok \<and> bo_has_send_initial_metadata b) log)"

definition session_ok :: "('w, 'm, 'z) session \<Rightarrow> bool" where
  "session_ok s \<longleftrightarrow>
     delivered_statuses (se_log s) \<le> (if gc_finished (se_call s) then 1 else 0)
     \<and> sent_headers (se_log s) \<le> (if gc_initial_metadata_sent (se_call s) then 1 else 0)
     \<and> gc_channel_closed (se_call s) < st_next (se_store s)"

text \<open>What a call keeps for good, and what it never takes back.\<close>

definition call_le :: "('w, 'm) grpc_call \<Rightarrow> ('w, 'm) grpc_call \<Rightarrow> bool" where
  "call_le c c' \<longleftrightarrow>
     gc_channel c' = gc_channel c \<and> gc_method c' = gc_method c \<and> gc_target c' = gc_target c
     \<and> gc_deadline_usec c' = gc_deadline_usec c \<and> gc_channel_closed c' = gc_channel_closed c
     \<and> gc_channel_shared c' = gc_channel_shared c
     \<and> (gc_finished c \<longrightarrow> gc_finished c') \<and> (gc_cancelled c \<longrightarrow> gc_cancelled c')
     \<and> (gc_initial_metadata_sent c \<longrightarrow> gc_initial_metadata_sent c')
     \<and> (gc_send_closed c \<longrightarrow> gc_send_closed c')
     \<and> (gc_stream_state c \<noteq> None \<longrightarrow> gc_stream_state c' \<noteq> None)"

section \<open>One batch\<close>

lemma frame_call_le: "frame (c, h) (c', h') \<Longrightarrow> call_le c c' \<and> store_le h h'"
  using call_frame_fields [of c c'] by (auto simp: frame_def call_le_def store_frame_def)

lemma mark_call_le: "call_le c (mark_sent b c)" "call_le c (mark_finished b c)"
  by (simp_all add: call_le_def mark_sent_def mark_finished_def)

lemma call_le_refl: "call_le c c"
  by (simp add: call_le_def)

lemma call_le_trans: "call_le c1 c2 \<Longrightarrow> call_le c2 c3 \<Longrightarrow> call_le c1 c3"
  by (simp add: call_le_def)

text \<open>Rejected batches change nothing; accepted ones are dispatched and marked.\<close>

lemma op_set_empty:
  assumes "parse_ops Z ops = Inr b"
  shows "op_set b = {} \<longleftrightarrow> \<not> bo_has_send_ops b \<and> \<not> bo_has_recv_ops b"
proof -
  have "batch_wf b" using parse_ops_spec [OF assms] by blast
  then show ?thesis by (simp add: op_set_def batch_wf_def all_conj_distrib)
qed

definition rejects :: "('w, 'm) grpc_call \<Rightarrow> 'z store \<Rightarrow> batch_ops \<Rightarrow> bool" where
  "rejects c h b \<longleftrightarrow> st_flag h (gc_channel_closed c) \<or> gc_cancelled c \<or> gc_finished c
     \<or> bo_has_send_initial_metadata b \<and> gc_initial_metadata_sent c"

lemma start_batch_rejected:
  assumes "parse_ops Z ops = Inr b" and "rejects c h b" and "op_set b \<noteq> {}"
  shows "\<exists>e. start_batch Z M T N ops c h = Some (Inl e, c, h)"
proof -
  have some: "(\<not> bo_has_send_ops b \<and> \<not> bo_has_recv_ops b) = False"
    using op_set_empty [OF assms(1)] assms(3) by simp
  consider "st_flag h (gc_channel_closed c)" | "\<not> st_flag h (gc_channel_closed c)" "gc_cancelled c"
    | "\<not> st_flag h (gc_channel_closed c)" "\<not> gc_cancelled c" "gc_finished c"
    | "\<not> st_flag h (gc_channel_closed c)" "\<not> gc_cancelled c" "\<not> gc_finished c"
      "bo_has_send_initial_metadata b" "gc_initial_metadata_sent c"
    using assms(2) unfolding rejects_def by blast
  then show ?thesis
  proof cases
    case 3
    then show ?thesis unfolding start_batch_def assms(1) sum.case some by simp
  next
    case 4
    then show ?thesis unfolding start_batch_def assms(1) sum.case some by simp
  qed (simp_all add: start_batch_def)
qed

lemma start_batch_empty:
  assumes "parse_ops Z ops = Inr b" and "op_set b = {}"
    and "start_batch Z M T N ops c h = Some (r, c', h')"
  shows "c' = c \<and> h' = h"
proof -
  have none: "(\<not> bo_has_send_ops b \<and> \<not> bo_has_recv_ops b) = True"
    using op_set_empty [OF assms(1)] assms(2) by simp
  show ?thesis
    using assms(3) unfolding start_batch_def assms(1) sum.case none by (simp split: if_splits)
qed

lemma start_batch_cases:
  assumes "start_batch Z M T N ops c h = Some (r, c', h')"
  obtains (Rejected) e where "r = Inl e" "c' = c" "h' = h"
  | (Empty) b where "parse_ops Z ops = Inr b" "op_set b = {}" "c' = c" "h' = h"
  | (Failed) b e where "parse_ops Z ops = Inr b" "r = Inl e" "frame (mark_sent b c, h) (c', h')"
      "\<not> gc_finished c" "bo_has_send_initial_metadata b \<Longrightarrow> \<not> gc_initial_metadata_sent c"
  | (Ran) b c1 where "parse_ops Z ops = Inr b" "frame (mark_sent b c, h) (c1, h')" "c' = mark_finished b c1"
      "\<not> gc_finished c" "bo_has_send_initial_metadata b \<Longrightarrow> \<not> gc_initial_metadata_sent c"
proof (cases "parse_ops Z ops")
  case (Inl e)
  with assms show thesis by (auto simp: start_batch_def split: if_splits intro: Rejected)
next
  case (Inr b)
  show thesis
  proof (cases "op_set b = {} \<or> rejects c h b")
    case True
    with start_batch_empty [OF Inr _ assms] start_batch_rejected [OF Inr, of c h M T N] assms
    show thesis by (cases "op_set b = {}") (auto intro: Empty [OF Inr] Rejected)
  next
    case False
    with Inr have eq: "start_batch Z M T N ops c h = (case dispatch_batch Z M T N b (mark_sent b c) h of
        None \<Rightarrow> None | Some (Inl e, c', h') \<Rightarrow> Some (Inl e, c', h')
      | Some (Inr ob, c', h') \<Rightarrow>
          Some (ack_props Z ob [(bo_has_send_initial_metadata b, ''send_metadata''),
             (bo_send_message b \<noteq> None, ''send_message''), (bo_send_close b, ''send_close'')],
             mark_finished b c', h'))"
      by (intro start_batch_accepted) (auto simp: rejects_def)
    obtain r1 c1 h1 where disp: "dispatch_batch Z M T N b (mark_sent b c) h = Some (r1, c1, h1)"
      using assms eq by (cases "dispatch_batch Z M T N b (mark_sent b c) h") auto
    note frame = dispatch_batch_frame [OF disp]
    show thesis
    proof (cases r1)
      case (Inl e)
      with assms eq disp frame False \<open>parse_ops Z ops = Inr b\<close> show thesis
        by (intro Failed [of b e]) (auto simp: rejects_def)
    next
      case (Inr ob)
      with assms eq disp frame False \<open>parse_ops Z ops = Inr b\<close> show thesis
        by (intro Ran [of b c1]) (auto simp: rejects_def)
    qed
  qed
qed

lemma start_batch_le:
  assumes "start_batch Z M T N ops c h = Some (r, c', h')"
  shows "call_le c c' \<and> store_le h h'"
  using assms
proof (cases rule: start_batch_cases)
  case (Failed b e)
  with frame_call_le [OF Failed(3)] show ?thesis by (blast intro: mark_call_le call_le_trans)
next
  case (Ran b c1)
  with frame_call_le [OF Ran(2)] show ?thesis by (blast intro: mark_call_le call_le_trans)
qed (simp_all add: call_le_refl store_le_refl)

lemma log_counts [simp]:
  "delivered_statuses (log @ [(b, ok)]) = delivered_statuses log + (if ok \<and> bo_recv_status b then 1 else 0)"
  "sent_headers (log @ [(b, ok)]) = sent_headers log + (if ok \<and> bo_has_send_initial_metadata b then 1 else 0)"
  by (simp_all add: delivered_statuses_def sent_headers_def)

lemma batch_session_ok:
  assumes "session_ok s" and "start_batch Z M T N ops (se_call s) (se_store s) = Some (r, c', h')"
    and "parse_ops Z ops = Inr b"
  shows "session_ok (s\<lparr>se_call := c', se_store := h', se_log := se_log s @ [(b, \<not> isl r)]\<rparr>)"
proof -
  have le: "call_le (se_call s) c'" "store_le (se_store s) h'" using start_batch_le [OF assms(2)] by simp_all
  then have addr: "gc_channel_closed c' < st_next h'"
    using assms(1) by (simp add: session_ok_def call_le_def store_le_def)
  from assms(2) show ?thesis
  proof (cases rule: start_batch_cases)
    case Rejected
    with assms(1) show ?thesis by (simp add: session_ok_def)
  next
    case Empty
    with assms(1,3) show ?thesis by (auto simp: session_ok_def op_set_def)
  next
    case (Failed b0 e)
    with assms(1) le addr show ?thesis by (auto simp: session_ok_def call_le_def split: if_splits)
  next
    case (Ran b0 c1)
    have "gc_initial_metadata_sent c1 = (bo_has_send_initial_metadata b \<or> gc_initial_metadata_sent (se_call s))"
      "gc_finished c1 = gc_finished (se_call s)"
      using Ran assms(3) call_frame_fields [of "mark_sent b (se_call s)" c1]
      by (simp_all add: frame_def mark_sent_def)
    with Ran assms(1,3) addr show ?thesis
      by (auto simp: session_ok_def mark_finished_def split: if_splits)
  qed
qed

section \<open>Runs\<close>

lemma construct_call_fields:
  assumes "construct_call Z r ch method deadline host h = Inr c"
  shows "gc_channel_closed c = ch_closed_flag ch" "\<not> gc_finished c" "\<not> gc_initial_metadata_sent c"
    "\<not> gc_cancelled c" "gc_stream_state c = None" "gc_channel_shared c = get_shared ch"
  using assms by (cases "get_tonic_channel h ch"; auto simp: construct_call_def get_closed_flag_def)+

lemma session_ok_new: "new_session s \<Longrightarrow> session_ok s"
  by (auto simp: new_session_def session_ok_def construct_call_fields delivered_statuses_def sent_headers_def)

lemma session_ok_step:
  assumes "session_ok s" and "call_step M s s'"
  shows "session_ok s'"
  using assms(2)
proof (cases rule: call_step.cases)
  case batch
  with assms(1) show ?thesis by (simp add: batch_session_ok)
next
  case (unparsed Z T N ops r c' h' e)
  from unparsed(2) have "c' = se_call s \<and> h' = se_store s"
    by (cases rule: start_batch_cases) (use unparsed(3) in simp_all)
  with assms(1) unparsed show ?thesis by (simp add: session_ok_def)
next
  case cancelled
  with assms(1) show ?thesis by (simp add: session_ok_def cancel_def)
next
  case credentials
  with assms(1) show ?thesis by (simp add: session_ok_def set_credentials_def)
next
  case closed
  with assms(1) show ?thesis by (auto simp: session_ok_def close_channel_def)
next
  case others
  with assms(1) show ?thesis by (auto simp: session_ok_def store_le_def)
qed

definition session_le :: "('w, 'm, 'z) session \<Rightarrow> ('w, 'm, 'z) session \<Rightarrow> bool" where
  "session_le s s' \<longleftrightarrow> call_le (se_call s) (se_call s') \<and> store_le (se_store s) (se_store s')
     \<and> prefix (se_log s) (se_log s')"

lemma store_le_close: "close_channel ch h = (ch', h') \<Longrightarrow> store_le h h'"
  by (auto simp: close_channel_def store_le_def)

lemma session_le_step: "call_step M s s' \<Longrightarrow> session_le s s'"
proof (induction rule: call_step.induct)
  case (batch Z T N ops s r c' h' b)
  then show ?case using start_batch_le by (simp add: session_le_def)
next
  case (unparsed Z T N ops s r c' h' e)
  then show ?case using start_batch_le by (simp add: session_le_def)
next
  case (closed ch s ch' h')
  then show ?case by (simp add: session_le_def call_le_refl store_le_close)
qed (simp_all add: session_le_def call_le_refl store_le_refl call_le_def cancel_def set_credentials_def)

interpretation calls: invariant_machine new_session "call_step M" session_ok for M
  by unfold_locales (auto intro: session_ok_new session_ok_step)

interpretation lives: monotone_machine "call_step M" session_le for M
proof unfold_locales
  show "session_le s s" for s :: "('w, 'm, 'z) session"
    by (simp add: session_le_def call_le_refl store_le_refl)
  show "session_le s u" if "session_le s t" "session_le t u" for s t u :: "('w, 'm, 'z) session"
    using that unfolding session_le_def
    by (blast intro: call_le_trans store_le_trans prefix_order.order_trans)
qed (rule session_le_step)

section \<open>Properties\<close>

text \<open>
  C4. However batches, cancellation, credential changes, channel closing and other
  objects interleave, at most one batch of a call delivers a status and at most
  one sends initial metadata.
\<close>

theorem status_delivered_once:
  assumes "new_session s0" and "(call_step M)\<^sup>*\<^sup>* s0 s"
  shows "delivered_statuses (se_log s) \<le> 1 \<and> sent_headers (se_log s) \<le> 1"
proof -
  have "session_ok s" by (rule calls.reachable_inv [OF assms])
  then show ?thesis by (auto simp: session_ok_def split: if_splits)
qed

text \<open>A session on a concrete channel, and its first batch.\<close>

definition plain_channel :: grpc_channel where
  "plain_channel = \<lparr>ch_inner = Some \<lparr>ci_shared = 0, ci_target = ''h'', ci_call_plugin = None,
     ci_max_decoding = None, ci_max_encoding = None\<rparr>, ch_closed_flag = 1\<rparr>"

definition plain_session :: "('w, 'm, zval) session" where
  "plain_session = \<lparr>se_call = plain_call i64_max, se_store = plain_store, se_log = []\<rparr>"

lemma plain_session_new: "new_session plain_session"
proof -
  have "construct_call plain_php (SinceEpoch 5) plain_channel ''/s/m'' \<lparr>usec = i64_max, is_span = False\<rparr> None plain_store
      = Inr (plain_call i64_max)"
    by (simp add: construct_call_def get_tonic_channel_def plain_channel_def plain_store_def plain_call_def
        get_target_uri_def to_absolute_usec_def get_call_plugin_def get_max_decoding_message_size_def
        get_max_encoding_message_size_def get_closed_flag_def get_shared_def)
  moreover have "ch_closed_flag plain_channel < st_next plain_store"
    by (simp add: plain_channel_def plain_store_def)
  ultimately show ?thesis
    unfolding new_session_def plain_session_def by (simp, intro exI conjI)
qed

lemma plain_session_batch:
  "\<exists>s. call_step list_md (plain_session :: (bytes kv_ref list deliveries, _, _) session) s
     \<and> se_log s = [(full_ops_batch ''hi'', True)]"
proof -
  let ?c = "plain_call i64_max :: (bytes kv_ref list deliveries, bytes kv_ref list) grpc_call"
  let ?q = "unary_request list_md echo_net ?c (full_ops_batch ''hi'') []"
  have ready: "ne_unary_ready echo_net (call_client ?c)
      (deadline_instant (ne_instant_clock echo_net) (gc_deadline_usec ?c)) = U_Ready"
    by (simp add: echo_net_def)
  obtain ob where ob: "unary_reply list_md (gc_deadline_usec ?c) (ne_status_clock (echo_net :: bytes kv_ref list net))
      (unary_outcome_of echo_net ?c ?q) = Inr ob"
    by (simp add: unary_outcome_of_def echo_net_def)
  obtain r c' h' where batch: "start_batch plain_php list_md delivery_tokio echo_net (send_ops ''hi'' @ recv_ops)
      ?c plain_store = Some (Inr r, c', h')"
    using unary_batch_start [OF engine_writes_plain plain_call_ok(1) plain_dispatchable [OF not_expired_max]
        parse_full_ops plain_call_ok(2) ready ob] by blast
  then have batch: "start_batch plain_php list_md delivery_tokio echo_net (send_ops ''hi'' @ recv_ops)
      (se_call plain_session) (se_store plain_session) = Some (Inr r, c', h')"
    by (simp add: plain_session_def)
  from call_step.batch [OF batch parse_full_ops(1)] show ?thesis
    by (intro exI conjI, assumption) (simp add: plain_session_def)
qed

theorem status_delivered_once_witness:
  "\<exists>s :: (bytes kv_ref list deliveries, bytes kv_ref list, zval) session.
     (call_step list_md)\<^sup>*\<^sup>* plain_session s
     \<and> se_log s = [(full_ops_batch ''hi'', True)] \<and> delivered_statuses (se_log s) \<le> 1"
proof -
  obtain s where s: "call_step list_md (plain_session :: (bytes kv_ref list deliveries, _, _) session) s"
    "se_log s = [(full_ops_batch ''hi'', True)]" using plain_session_batch by blast
  have steps: "(call_step list_md)\<^sup>*\<^sup>* plain_session s" using s(1) by (rule r_into_rtranclp)
  with s(2) status_delivered_once [OF plain_session_new steps] show ?thesis by blast
qed

text \<open>
  C5. A call that is finished, cancelled, or whose channel was closed stays so:
  from then on every batch that asks for anything is rejected and changes neither
  the call nor the store, whatever else happens in between.
\<close>

theorem dead_call_rejects:
  assumes "new_session s0" and "(call_step M)\<^sup>*\<^sup>* s0 s" and "(call_step M)\<^sup>*\<^sup>* s s'"
    and "gc_finished (se_call s) \<or> gc_cancelled (se_call s) \<or> st_flag (se_store s) (gc_channel_closed (se_call s))"
    and "parse_ops Z ops = Inr b" and "op_set b \<noteq> {}"
  shows "\<exists>e. start_batch Z M' T N ops (se_call s') (se_store s') = Some (Inl e, se_call s', se_store s')"
proof -
  have "session_ok s" by (rule calls.reachable_inv [OF assms(1,2)])
  moreover have "call_le (se_call s) (se_call s')" "store_le (se_store s) (se_store s')"
    using lives.steps_le [OF assms(3)] by (simp_all add: session_le_def)
  ultimately have "rejects (se_call s') (se_store s') b"
    using assms(4) by (auto simp: rejects_def session_ok_def call_le_def store_le_def)
  then show ?thesis by (rule start_batch_rejected [OF assms(5) _ assms(6)])
qed

theorem dead_call_rejects_witness:
  "\<exists>(s :: (bytes kv_ref list deliveries, bytes kv_ref list, zval) session) e. (call_step list_md)\<^sup>*\<^sup>* plain_session s
     \<and> gc_cancelled (se_call s)
     \<and> start_batch plain_php list_md delivery_tokio echo_net recv_ops (se_call s) (se_store s)
       = Some (Inl e, se_call s, se_store s)"
proof -
  let ?s = "plain_session\<lparr>se_call := cancel (se_call plain_session)\<rparr>
    :: (bytes kv_ref list deliveries, bytes kv_ref list, zval) session"
  have steps: "(call_step list_md)\<^sup>*\<^sup>* plain_session ?s"
    by (rule r_into_rtranclp, rule call_step.cancelled)
  have dead: "gc_finished (se_call ?s) \<or> gc_cancelled (se_call ?s)
      \<or> st_flag (se_store ?s) (gc_channel_closed (se_call ?s))"
    by (simp add: cancel_def)
  have some: "op_set recv_ops_batch \<noteq> {}" by (simp add: parse_split_ops(4))
  obtain e where "start_batch plain_php list_md delivery_tokio echo_net recv_ops (se_call ?s) (se_store ?s)
      = Some (Inl e, se_call ?s, se_store ?s)"
    using dead_call_rejects [OF plain_session_new steps rtranclp.rtrancl_refl dead parse_split_ops(3) some] by blast
  with steps show ?thesis
    by (intro exI [of _ ?s] exI [of _ e]) (simp add: cancel_def)
qed

end
