(* ===== verification/Stream_Spec.thy ===== *)
theory Stream_Spec
  imports Stream_Reader
begin

text \<open>
  What a stream promises PHP, as an abstract object: response headers handed out
  once, a queue of messages, and a final status. The reader of \<open>call.rs\<close>, with its
  deferred headers, cached trailers, polling and draining over tokio's channels,
  refines it for every sequence of receive batches.
\<close>

section \<open>The abstract stream\<close>

record 'm stream_spec =
  ss_headers :: "'m option"
  ss_messages :: "bytes list"
  ss_status :: "'m stream_trailers"

definition spec_read :: "('m, 'v) md_api \<Rightarrow> recv_flags \<Rightarrow> 'm stream_spec \<Rightarrow> php_obj \<times> 'm stream_spec" where
  "spec_read M flags a =
     ((if rf_initial_metadata flags
       then [(''metadata'', case ss_headers a of None \<Rightarrow> P_Map [] | Some m \<Rightarrow> php_metadata M m)] else [])
      @ (if rf_message flags
         then [(''message'', case ss_messages a of [] \<Rightarrow> P_Null | b # bs \<Rightarrow> P_Str b)] else [])
      @ (if rf_status flags then [(''status'', php_status M (ss_status a))] else []),
      a\<lparr>ss_headers := (if rf_initial_metadata flags then None else ss_headers a),
        ss_messages := (if rf_message flags then tl (ss_messages a) else ss_messages a)\<rparr>)"

fun spec_run :: "('m, 'v) md_api \<Rightarrow> recv_flags list \<Rightarrow> 'm stream_spec \<Rightarrow> php_obj list" where
  "spec_run M [] a = []"
| "spec_run M (f # fs) a = (case spec_read M f a of (ob, a') \<Rightarrow> ob # spec_run M fs a')"

text \<open>The batches of the concrete reader, each with its clock reading.\<close>

fun read_run ::
  "'z php \<Rightarrow> ('m, 'v) md_api \<Rightarrow> ('w, 'm) tokio \<Rightarrow> i64 \<Rightarrow> (clock_reading \<times> recv_flags) list
     \<Rightarrow> ('w, 'm) active_stream \<Rightarrow> (php_exception + php_obj) list option" where
  "read_run Z M T d [] s = Some []"
| "read_run Z M T d ((r, f) # fs) s =
     (case read_stream Z M T d r f s of
        None \<Rightarrow> None
      | Some (res, s') \<Rightarrow> map_option (Cons res) (read_run Z M T d fs s'))"

section \<open>Refinement\<close>

context stream_channel
begin

definition stream_rel :: "('w, 'm) active_stream \<Rightarrow> 'm stream_spec \<Rightarrow> bool" where
  "stream_rel s a \<longleftrightarrow>
     as_initial_metadata s = None \<and> ss_headers a = (if as_meta_rx s then pmeta (as_chan s) else None)
     \<and> as_cached_trailers s = None \<and> as_trailers_rx s \<and> ptrail (as_chan s) = Some (ss_status a)
     \<and> (\<exists>fin. (fin = [] \<or> fin = [Inr None])
          \<and> pend (as_chan s) = map (\<lambda>b. Inr (Some b)) (ss_messages a) @ fin)"

lemma refine_headers:
  assumes "engine_writes Z" and "stream_rel s a"
  shows "\<exists>s'. recv_initial_metadata Z M T ob s =
       (Inr (ob @ [(''metadata'', case ss_headers a of None \<Rightarrow> P_Map [] | Some m \<Rightarrow> php_metadata M m)]), s')
     \<and> stream_rel s' (a\<lparr>ss_headers := None\<rparr>)"
proof -
  obtain md w where md: "tk_meta T (as_chan s) = (md, w)" by fastforce
  with meta [OF md] assms show ?thesis
    by (cases "as_meta_rx s")
      (auto simp: recv_initial_metadata_def stream_rel_def engine_ok Let_def)
qed

lemma refine_message:
  assumes "engine_writes Z" and "stream_rel s a"
  shows "\<exists>s'. recv_message Z M T d r ob s =
       (Inr (ob @ [(''message'', case ss_messages a of [] \<Rightarrow> P_Null | b # bs \<Rightarrow> P_Str b)]), s')
     \<and> stream_rel s' (a\<lparr>ss_messages := tl (ss_messages a)\<rparr>)"
proof -
  obtain x w where item: "next_item T (as_chan s) = (x, w)" by fastforce
  note spec = next_item_spec [OF item]
  obtain fin where fin: "fin = [] \<or> fin = [Inr None]"
    "pend (as_chan s) = map (\<lambda>b. Inr (Some b)) (ss_messages a) @ fin"
    using assms(2) by (auto simp: stream_rel_def)
  let ?s = "s\<lparr>as_chan := w\<rparr>"
  have rel: "stream_rel ?s (a\<lparr>ss_messages := tl (ss_messages a)\<rparr>)"
    using assms(2) spec fin by (cases "ss_messages a") (auto simp: stream_rel_def)
  have "recv_message Z M T d r ob s
      = (Inr (ob @ [(''message'', case ss_messages a of [] \<Rightarrow> P_Null | b # bs \<Rightarrow> P_Str b)]), ?s)"
    using assms spec fin item
    by (cases "ss_messages a")
      (auto simp: recv_message_def stream_rel_def first_of_def engine_ok bytes_to_php_string_zval_def)
  with rel show ?thesis by blast
qed

lemma refine_status:
  assumes "engine_writes Z" and "stream_rel s a"
  shows "\<exists>s'. recv_status Z M T ob s = Some (Inr (ob @ [(''status'', php_status M (ss_status a))]), s')"
proof -
  obtain s' where "take_trailers M T s = Some (ss_status a, s')"
    using take_trailers_total [of s M] assms(2) by (auto simp: stream_rel_def)
  with assms(1) show ?thesis by (auto simp: recv_status_ok)
qed

lemma refine_read:
  assumes "engine_writes Z" and "stream_rel s a"
  shows "\<exists>s'. read_stream Z M T d r f s = Some (Inr (fst (spec_read M f a)), s')
     \<and> (\<not> rf_status f \<longrightarrow> stream_rel s' (snd (spec_read M f a)))"
proof -
  let ?a1 = "a\<lparr>ss_headers := (if rf_initial_metadata f then None else ss_headers a)\<rparr>"
  let ?o1 = "if rf_initial_metadata f
       then [(''metadata'', case ss_headers a of None \<Rightarrow> P_Map [] | Some m \<Rightarrow> php_metadata M m)] else []"
  obtain s1 where s1: "(if rf_initial_metadata f then recv_initial_metadata Z M T [] s else (Inr [], s))
      = (Inr ?o1, s1)" "stream_rel s1 ?a1"
    using refine_headers [OF assms, of M "[]"] assms(2) by (cases "rf_initial_metadata f") auto
  let ?a2 = "?a1\<lparr>ss_messages := (if rf_message f then tl (ss_messages a) else ss_messages a)\<rparr>"
  let ?o2 = "?o1 @ (if rf_message f
       then [(''message'', case ss_messages a of [] \<Rightarrow> P_Null | b # bs \<Rightarrow> P_Str b)] else [])"
  obtain s2 where s2: "(if rf_message f then recv_message Z M T d r ?o1 s1 else (Inr ?o1, s1)) = (Inr ?o2, s2)"
    "stream_rel s2 ?a2"
    using refine_message [OF assms(1) s1(2), of M d r ?o1] s1(2) by (cases "rf_message f") auto
  obtain s3 where "recv_status Z M T ?o2 s2 = Some (Inr (?o2 @ [(''status'', php_status M (ss_status a))]), s3)"
    using refine_status [OF assms(1) s2(2), of M ?o2] by auto
  with s1 s2 show ?thesis
    by (simp add: read_stream_def spec_read_def)
qed

lemma refine_run:
  assumes "engine_writes Z" and "stream_rel s a" and "\<forall>f\<in>set (butlast fs). \<not> rf_status (snd f)"
  shows "read_run Z M T d fs s = Some (map Inr (spec_run M (map snd fs) a))"
  using assms(2,3)
proof (induction fs arbitrary: s a)
  case Nil
  show ?case by simp
next
  case (Cons rf fs)
  obtain r f where rf: "rf = (r, f)" by (cases rf)
  obtain s' where s': "read_stream Z M T d r f s = Some (Inr (fst (spec_read M f a)), s')"
    "\<not> rf_status f \<longrightarrow> stream_rel s' (snd (spec_read M f a))"
    using refine_read [OF assms(1) Cons.prems(1)] by blast
  show ?case
  proof (cases "fs = []")
    case True
    with rf s'(1) show ?thesis by (simp split: prod.split)
  next
    case False
    with Cons.prems(2) rf have "\<not> rf_status f" "\<forall>f\<in>set (butlast fs). \<not> rf_status (snd f)" by auto
    with Cons.IH s'(2) have "read_run Z M T d fs s' = Some (map Inr (spec_run M (map snd fs) (snd (spec_read M f a))))"
      by blast
    with rf s'(1) show ?thesis by (simp split: prod.split)
  qed
qed

lemma stream_start_rel:
  assumes "task_trailers M d ready opened events = Some t"
    and "s = server_stream_state T (fst (server_stream_task M d has_shared ready opened events))
       \<or> s = bidi_stream_state T (fst (bidi_stream_task M d has_shared ready opened events))"
  shows "stream_rel s
     \<lparr>ss_headers = Some (task_headers M ready opened), ss_messages = task_messages ready opened events,
      ss_status = t\<rparr>"
  using task_deliveries [OF assms(1), of has_shared] assms(2)
  by (auto simp: stream_rel_def server_stream_state_def bidi_stream_state_def stream_tasks_agree
      spawn first_of_def)

end

text \<open>
  C1. The stream reader refines the abstract stream, for server-streaming and for
  bidirectional calls: for every sequence of receive batches, each asking for any
  of initial metadata, a message and the status, and the status at most in the last
  one, the concrete batches return exactly what the abstract stream returns, and
  every one of them returns.
\<close>

theorem stream_refines_spec:
  assumes "stream_channel T pend pmeta ptrail" and "engine_writes Z"
    and "task_trailers M d ready opened events = Some t"
    and "s = server_stream_state T (fst (server_stream_task M d has_shared ready opened events))
       \<or> s = bidi_stream_state T (fst (bidi_stream_task M d has_shared ready opened events))"
    and "\<forall>f\<in>set (butlast fs). \<not> rf_status (snd f)"
  shows "read_run Z M T d fs s
     = Some (map Inr (spec_run M (map snd fs)
         \<lparr>ss_headers = Some (task_headers M ready opened), ss_messages = task_messages ready opened events,
          ss_status = t\<rparr>))"
  by (rule stream_channel.refine_run [OF assms(1,2) stream_channel.stream_start_rel [OF assms(1,3,4)] assms(5)])

theorem stream_refines_spec_witness:
  "read_run plain_php list_md delivery_tokio 0
       [(SinceEpoch 1, \<lparr>rf_initial_metadata = False, rf_message = True, rf_status = False\<rparr>),
        (SinceEpoch 2, \<lparr>rf_initial_metadata = True, rf_message = True, rf_status = True\<rparr>)]
       (server_stream_state delivery_tokio (fst (server_stream_task list_md 0 False Ready_Ok
          (Open_Ok []) [Ev_Message ''a'' True, Ev_Message ''b'' True, Ev_Deadline])))
   = Some [Inr [(''message'', P_Str ''a'')],
       Inr [(''metadata'', P_Map []), (''message'', P_Str ''b''),
            (''status'', php_status list_md (deadline_exceeded_trailers list_md))]]"
proof -
  let ?ev = "[Ev_Message ''a'' True, Ev_Message ''b'' True, Ev_Deadline]"
  let ?fs = "[(SinceEpoch 1, \<lparr>rf_initial_metadata = False, rf_message = True, rf_status = False\<rparr>),
        (SinceEpoch 2, \<lparr>rf_initial_metadata = True, rf_message = True, rf_status = True\<rparr>)]"
  have t: "task_trailers list_md 0 Ready_Ok (Open_Ok []) ?ev = Some (deadline_exceeded_trailers list_md)"
    by (simp add: task_trailers_def end_trailers_def)
  have last: "\<forall>f\<in>set (butlast ?fs). \<not> rf_status (snd f)" by simp
  show ?thesis
    using stream_refines_spec [OF dlv.stream_channel_axioms engine_writes_plain t disjI1 [OF refl] last, of False]
    by (simp add: spec_read_def task_messages_def task_headers_def php_metadata_def collect_metadata_def list_md_def)
qed

end
