(* ===== verification/Codec.thy ===== *)
theory Codec
  imports Metadata
begin

text \<open>
  The pass-through codec (\<open>codec.rs\<close>) that hands PHP's serialized messages to tonic
  as they are. The buffers belong to tonic and the \<open>bytes\<close> crate: a record of their
  three operations is an argument, with the bytes a buffer holds as its observation.
\<close>

datatype raw_bytes_codec = RawBytesCodec
datatype raw_bytes_encoder = RawBytesEncoder
datatype raw_bytes_decoder = RawBytesDecoder

record ('d, 's) buffers =
  buf_put :: "'d \<Rightarrow> bytes \<Rightarrow> 'd"
  buf_remaining :: "'s \<Rightarrow> nat"
  buf_copy_to_bytes :: "'s \<Rightarrow> nat \<Rightarrow> bytes \<times> 's"

text \<open>The error type is never inhabited by a result of the codec; it is tonic's status.\<close>

definition encode ::
  "('d, 's) buffers \<Rightarrow> raw_bytes_encoder \<Rightarrow> bytes \<Rightarrow> 'd \<Rightarrow> ('m tonic_status + unit) \<times> 'd" where
  "encode B self item dst = (Inr (), buf_put B dst item)"

definition decode ::
  "('d, 's) buffers \<Rightarrow> raw_bytes_decoder \<Rightarrow> 's \<Rightarrow> ('m tonic_status + bytes option) \<times> 's" where
  "decode B self src =
     (let remaining = buf_remaining B src
      in if remaining = 0 then (Inr (Some []), src)
         else (case buf_copy_to_bytes B src remaining of (item, src') \<Rightarrow> (Inr (Some item), src')))"

definition codec_encoder :: "raw_bytes_codec \<Rightarrow> raw_bytes_encoder" where
  "codec_encoder self = RawBytesEncoder"

definition codec_decoder :: "raw_bytes_codec \<Rightarrow> raw_bytes_decoder" where
  "codec_decoder self = RawBytesDecoder"

text \<open>
  Documented behaviour of \<open>BufMut::put\<close>, \<open>Buf::remaining\<close> and \<open>Buf::copy_to_bytes\<close>:
  appending, counting, and taking bytes off the front while enough are left.
\<close>

definition buffer_laws :: "('d, 's) buffers \<Rightarrow> ('d \<Rightarrow> bytes) \<Rightarrow> ('s \<Rightarrow> bytes) \<Rightarrow> bool" where
  "buffer_laws B written unread \<longleftrightarrow>
     (\<forall>dst item. written (buf_put B dst item) = written dst @ item)
     \<and> (\<forall>src. buf_remaining B src = length (unread src))
     \<and> (\<forall>src n item src'. n \<le> length (unread src) \<longrightarrow> buf_copy_to_bytes B src n = (item, src')
          \<longrightarrow> item = take n (unread src) \<and> unread src' = drop n (unread src))"

definition byte_buffers :: "(bytes, bytes) buffers" where
  "byte_buffers = \<lparr>buf_put = (@), buf_remaining = length, buf_copy_to_bytes = (\<lambda>src n. (take n src, drop n src))\<rparr>"

lemma buffer_laws_byte: "buffer_laws byte_buffers (\<lambda>b. b) (\<lambda>b. b)"
  by (simp add: buffer_laws_def byte_buffers_def)

lemma decode_drains:
  assumes "buffer_laws B written unread"
  shows "\<exists>src'. decode B self src = (Inr (Some (unread src)), src') \<and> unread src' = []"
proof -
  obtain item src' where copy: "buf_copy_to_bytes B src (buf_remaining B src) = (item, src')" by fastforce
  have len: "buf_remaining B src = length (unread src)" using assms by (simp add: buffer_laws_def)
  have "item = take (length (unread src)) (unread src) \<and> unread src' = drop (length (unread src)) (unread src)"
    using assms copy unfolding buffer_laws_def len by blast
  with copy len show ?thesis by (auto simp: decode_def Let_def)
qed

text \<open>
  C24. Messages round-trip through the codec. Encoding appends exactly the message to
  what the buffer already held and never fails; decoding a frame that holds those
  appended bytes yields the message itself, never "no message", also when it is
  empty, and leaves nothing of the frame unread.
\<close>

theorem codec_roundtrip:
  assumes "buffer_laws B written unread" and "encode B (codec_encoder c) item dst = (res, dst')"
    and "unread src = drop (length (written dst)) (written dst')"
  shows "res = Inr () \<and> written dst' = written dst @ item
     \<and> (\<exists>src'. decode B (codec_decoder c) src = (Inr (Some item), src') \<and> unread src' = [])"
proof -
  from assms(1,2) have res: "res = Inr ()" "written dst' = written dst @ item"
    by (auto simp: encode_def buffer_laws_def)
  with assms(3) have "unread src = item" by simp
  with res decode_drains [OF assms(1), of "codec_decoder c" src] show ?thesis by simp
qed

theorem codec_roundtrip_witness:
  "encode byte_buffers (codec_encoder RawBytesCodec) [] ''head'' = (Inr (), ''head'')
   \<and> decode byte_buffers (codec_decoder RawBytesCodec) [] = (Inr (Some []), [])"
proof -
  have put: "encode byte_buffers (codec_encoder RawBytesCodec) [] ''head'' = (Inr (), ''head'')"
    by (simp add: encode_def byte_buffers_def)
  have frame: "[] = drop (length ''head'') ''head''" by simp
  show ?thesis using put codec_roundtrip [OF buffer_laws_byte put frame] by simp
qed

end
