(* ===== verification/Module_Init.thy ===== *)
theory Module_Init
  imports Call
begin

text \<open>
  Module startup: the constants and ini entries that \<open>lib.rs\<close> registers, the module
  it describes to the engine, and the compatibility pass of \<open>compat.rs\<close> that clears
  the return-type flag of its methods in the first request. The engine's tables are
  arguments: registering a constant may fail, and classes and methods are looked up
  by name.
\<close>

unbundle bit_operations_syntax

section \<open>Constants\<close>

datatype const_val = C_Long i64 | C_Str string

datatype ini_permission = Ini_System | Ini_Other

record ini_entry =
  ini_name :: string
  ini_value :: string
  ini_perm :: ini_permission

record 'g engine =
  en_register_ini :: "'g \<Rightarrow> ini_entry list \<Rightarrow> int \<Rightarrow> 'g"
  en_register_constant :: "'g \<Rightarrow> string \<Rightarrow> const_val \<Rightarrow> int \<Rightarrow> bool \<times> 'g"

text \<open>Names live in the \<open>Grpc\<close> namespace; its separator is a backslash.\<close>

definition grpc_name :: "string \<Rightarrow> string" where
  "grpc_name n = ''Grpc'' @ CHR 0x5C # n"

definition EXT_GRPC_COMPAT_VERSION :: string where
  "EXT_GRPC_COMPAT_VERSION = ''1.83.0''"

definition ini_entries :: "ini_entry list" where
  "ini_entries =
    [\<lparr>ini_name = ''grpc.enable_fork_support'', ini_value = ''0'', ini_perm = Ini_System\<rparr>,
     \<lparr>ini_name = ''grpc.poll_strategy'', ini_value = '''', ini_perm = Ini_System\<rparr>,
     \<lparr>ini_name = ''grpc.grpc_verbosity'', ini_value = '''', ini_perm = Ini_System\<rparr>,
     \<lparr>ini_name = ''grpc.grpc_trace'', ini_value = '''', ini_perm = Ini_System\<rparr>]"

definition status_constants :: "(string \<times> i64) list" where
  "status_constants =
    [(''STATUS_OK'', 0), (''STATUS_CANCELLED'', 1), (''STATUS_UNKNOWN'', 2),
     (''STATUS_INVALID_ARGUMENT'', 3), (''STATUS_DEADLINE_EXCEEDED'', 4), (''STATUS_NOT_FOUND'', 5),
     (''STATUS_ALREADY_EXISTS'', 6), (''STATUS_PERMISSION_DENIED'', 7),
     (''STATUS_RESOURCE_EXHAUSTED'', 8), (''STATUS_FAILED_PRECONDITION'', 9),
     (''STATUS_ABORTED'', 10), (''STATUS_OUT_OF_RANGE'', 11), (''STATUS_UNIMPLEMENTED'', 12),
     (''STATUS_INTERNAL'', 13), (''STATUS_UNAVAILABLE'', 14), (''STATUS_DATA_LOSS'', 15),
     (''STATUS_UNAUTHENTICATED'', 16)]"

definition channel_constants :: "(string \<times> i64) list" where
  "channel_constants =
    [(''CHANNEL_IDLE'', 0), (''CHANNEL_CONNECTING'', 1), (''CHANNEL_READY'', 2),
     (''CHANNEL_TRANSIENT_FAILURE'', 3), (''CHANNEL_FATAL_FAILURE'', 4)]"

definition call_error_constants :: "(string \<times> i64) list" where
  "call_error_constants =
    [(''CALL_OK'', 0), (''CALL_ERROR'', 1), (''CALL_ERROR_NOT_ON_SERVER'', 2),
     (''CALL_ERROR_NOT_ON_CLIENT'', 3), (''CALL_ERROR_ALREADY_INVOKED'', 5),
     (''CALL_ERROR_NOT_INVOKED'', 6), (''CALL_ERROR_ALREADY_FINISHED'', 7),
     (''CALL_ERROR_TOO_MANY_OPERATIONS'', 8), (''CALL_ERROR_INVALID_FLAGS'', 9)]"

definition op_constants :: "(string \<times> i64) list" where
  "op_constants =
    [(''OP_SEND_INITIAL_METADATA'', 0), (''OP_SEND_MESSAGE'', 1),
     (''OP_SEND_CLOSE_FROM_CLIENT'', 2), (''OP_SEND_STATUS_FROM_SERVER'', 3),
     (''OP_RECV_INITIAL_METADATA'', 4), (''OP_RECV_MESSAGE'', 5),
     (''OP_RECV_STATUS_ON_CLIENT'', 6), (''OP_RECV_CLOSE_ON_SERVER'', 7)]"

definition write_flag_constants :: "(string \<times> i64) list" where
  "write_flag_constants = [(''WRITE_BUFFER_HINT'', 1), (''WRITE_NO_COMPRESS'', 2)]"

definition long_constants :: "(string \<times> i64) list" where
  "long_constants =
     status_constants @ channel_constants @ call_error_constants @ op_constants @ write_flag_constants"

definition module_constants :: "(string \<times> const_val) list" where
  "module_constants =
     map (\<lambda>(n, v). (grpc_name n, C_Long v)) long_constants
     @ [(grpc_name ''VERSION'', C_Str EXT_GRPC_COMPAT_VERSION)]"

text \<open>The first registration that fails ends the startup.\<close>

fun reg_all :: "'g engine \<Rightarrow> int \<Rightarrow> (string \<times> const_val) list \<Rightarrow> 'g \<Rightarrow> bool \<times> 'g" where
  "reg_all G mod_num [] g = (True, g)"
| "reg_all G mod_num ((n, v) # cs) g =
     (case en_register_constant G g n v mod_num of
        (False, g') \<Rightarrow> (False, g')
      | (True, g') \<Rightarrow> reg_all G mod_num cs g')"

definition register_constants :: "'g engine \<Rightarrow> int \<Rightarrow> int \<Rightarrow> 'g \<Rightarrow> int \<times> 'g" where
  "register_constants G ty mod_num g =
     (case reg_all G mod_num module_constants (en_register_ini G g ini_entries mod_num) of
        (ok, g') \<Rightarrow> (if ok then 0 else -1, g'))"

section \<open>The module and its classes\<close>

datatype php_class = GrpcChannel | GrpcCall | GrpcChannelCredentials | GrpcCallCredentials | GrpcTimeval

datatype builder_call =
    Module_startup
  | Module_name string
  | Module_version string
  | Module_class php_class
  | Module_request_startup

definition get_module :: "builder_call list" where
  "get_module =
    [Module_startup, Module_name ''grpc'', Module_version EXT_GRPC_COMPAT_VERSION,
     Module_class GrpcChannel, Module_class GrpcCall, Module_class GrpcChannelCredentials,
     Module_class GrpcCallCredentials, Module_class GrpcTimeval, Module_request_startup]"

fun php_class_name :: "php_class \<Rightarrow> string" where
  "php_class_name GrpcChannel = grpc_name ''Channel''"
| "php_class_name GrpcCall = grpc_name ''Call''"
| "php_class_name GrpcChannelCredentials = grpc_name ''ChannelCredentials''"
| "php_class_name GrpcCallCredentials = grpc_name ''CallCredentials''"
| "php_class_name GrpcTimeval = grpc_name ''Timeval''"

text \<open>
  The methods each exported block declares, constructors apart, under the names PHP
  sees: the \<open>php(name)\<close> attribute, or the Rust name in camel case.
\<close>

definition channel_php_methods :: "string list" where
  "channel_php_methods =
     [''getTarget'', ''getConnectivityState'', ''watchConnectivityState'', ''close'']"

definition call_php_methods :: "string list" where
  "call_php_methods = [''startBatch'', ''getPeer'', ''cancel'', ''setCredentials'']"

definition channel_credentials_php_methods :: "string list" where
  "channel_credentials_php_methods =
     [''createSsl'', ''createInsecure'', ''createComposite'', ''createDefault'', ''setDefaultRootsPem'',
      ''isDefaultRootsPemSet'', ''invalidateDefaultRootsPem'']"

definition call_credentials_php_methods :: "string list" where
  "call_credentials_php_methods = [''createFromPlugin'', ''createComposite'']"

definition timeval_php_methods :: "string list" where
  "timeval_php_methods =
     [''getUsec'', ''toAbsoluteUsec'', ''now'', ''infFuture'', ''infPast'', ''zero'', ''similar'',
      ''compare'', ''add'', ''subtract'', ''sleepUntil'']"

fun php_methods :: "php_class \<Rightarrow> string list" where
  "php_methods GrpcChannel = channel_php_methods"
| "php_methods GrpcCall = call_php_methods"
| "php_methods GrpcChannelCredentials = channel_credentials_php_methods"
| "php_methods GrpcCallCredentials = call_credentials_php_methods"
| "php_methods GrpcTimeval = timeval_php_methods"

section \<open>Stripping return types\<close>

definition CHANNEL_METHODS :: "string list" where
  "CHANNEL_METHODS = [''gettarget'', ''getconnectivitystate'', ''watchconnectivitystate'', ''close'']"

definition CALL_METHODS :: "string list" where
  "CALL_METHODS = [''startbatch'', ''getpeer'', ''cancel'', ''setcredentials'']"

definition TIMEVAL_METHODS :: "string list" where
  "TIMEVAL_METHODS =
    [''getusec'', ''now'', ''inffuture'', ''infpast'', ''zero'', ''similar'', ''compare'', ''add'',
     ''subtract'', ''sleepuntil'']"

definition CHANNEL_CREDENTIALS_METHODS :: "string list" where
  "CHANNEL_CREDENTIALS_METHODS =
    [''createssl'', ''createinsecure'', ''createcomposite'', ''createdefault'', ''setdefaultrootspem'',
     ''isdefaultrootspemset'', ''invalidatedefaultrootspem'']"

definition CALL_CREDENTIALS_METHODS :: "string list" where
  "CALL_CREDENTIALS_METHODS = [''createfromplugin'', ''createcomposite'']"

text \<open>
  The class table finds classes and, in a class's function table, pointers to
  functions; a null pointer is \<open>None\<close>. The memory behind the pointers that the pass
  writes is the flags word of each function.
\<close>

record 'ce class_table =
  ct_find :: "string \<Rightarrow> 'ce option"
  ct_method :: "'ce \<Rightarrow> string \<Rightarrow> nat option"
  ct_has_return_type :: "32 word"

record compat_state =
  cs_init :: bool
  cs_fn_flags :: "nat \<Rightarrow> 32 word"

definition strip_method_return_type ::
  "'ce class_table \<Rightarrow> 'ce \<Rightarrow> string \<Rightarrow> (nat \<Rightarrow> 32 word) \<Rightarrow> nat \<Rightarrow> 32 word" where
  "strip_method_return_type K ce method_name flags =
     (case ct_method K ce method_name of
        None \<Rightarrow> flags
      | Some func_ptr \<Rightarrow> flags(func_ptr := flags func_ptr AND NOT (ct_has_return_type K)))"

definition strip_class_methods ::
  "'ce class_table \<Rightarrow> string \<Rightarrow> string list \<Rightarrow> (nat \<Rightarrow> 32 word) \<Rightarrow> nat \<Rightarrow> 32 word" where
  "strip_class_methods K class_name methods flags =
     (case ct_find K class_name of
        None \<Rightarrow> flags
      | Some ce \<Rightarrow> fold (strip_method_return_type K ce) methods flags)"

definition strip_return_types :: "'ce class_table \<Rightarrow> int \<Rightarrow> int \<Rightarrow> compat_state \<Rightarrow> int \<times> compat_state" where
  "strip_return_types K ty mod_num s =
     (0, if cs_init s then s
         else s\<lparr>cs_init := True, cs_fn_flags :=
           (strip_class_methods K (grpc_name ''CallCredentials'') CALL_CREDENTIALS_METHODS
            \<circ> strip_class_methods K (grpc_name ''ChannelCredentials'') CHANNEL_CREDENTIALS_METHODS
            \<circ> strip_class_methods K (grpc_name ''Timeval'') TIMEVAL_METHODS
            \<circ> strip_class_methods K (grpc_name ''Call'') CALL_METHODS
            \<circ> strip_class_methods K (grpc_name ''Channel'') CHANNEL_METHODS) (cs_fn_flags s)\<rparr>)"

section \<open>What startup registers\<close>

text \<open>
  Documented behaviour of the engine: registering ini entries touches no constant,
  and a registration that succeeds binds its name and no other. A lookup of the
  engine's constants, \<open>look\<close>, is the observation.
\<close>

definition engine_laws :: "'g engine \<Rightarrow> ('g \<Rightarrow> string \<Rightarrow> const_val option) \<Rightarrow> bool" where
  "engine_laws G look \<longleftrightarrow>
     (\<forall>g es n. look (en_register_ini G g es n) = look g)
     \<and> (\<forall>g n v m g'. en_register_constant G g n v m = (True, g') \<longrightarrow> look g' = (look g)(n \<mapsto> v))"

lemma distinct_constants: "distinct (map fst module_constants)"
  by code_simp

text \<open>The codes that calls and channels test for are those PHP code reads.\<close>

lemma registered_codes:
  "map (\<lambda>n. map_of module_constants (grpc_name n))
     [''OP_SEND_INITIAL_METADATA'', ''OP_SEND_MESSAGE'', ''OP_SEND_CLOSE_FROM_CLIENT'',
      ''OP_RECV_INITIAL_METADATA'', ''OP_RECV_MESSAGE'', ''OP_RECV_STATUS_ON_CLIENT'',
      ''CHANNEL_IDLE'', ''CHANNEL_CONNECTING'', ''CHANNEL_READY'', ''CHANNEL_TRANSIENT_FAILURE'']
   = map (\<lambda>c. Some (C_Long c))
     [OP_SEND_INITIAL_METADATA, OP_SEND_MESSAGE, OP_SEND_CLOSE_FROM_CLIENT,
      OP_RECV_INITIAL_METADATA, OP_RECV_MESSAGE, OP_RECV_STATUS_ON_CLIENT,
      CHANNEL_IDLE, CHANNEL_CONNECTING, CHANNEL_READY, CHANNEL_TRANSIENT_FAILURE]"
  by code_simp

lemma reg_all_ok:
  assumes "engine_laws G look" and "reg_all G m cs g = (True, g')" and "distinct (map fst cs)"
  shows "look g' = look g ++ map_of cs"
  using assms(2,3)
proof (induction cs arbitrary: g)
  case Nil
  then show ?case by simp
next
  case (Cons c cs)
  obtain n v where c: "c = (n, v)" by (cases c)
  with Cons.prems obtain g1 where g1: "en_register_constant G g n v m = (True, g1)"
    "reg_all G m cs g1 = (True, g')"
    by (auto split: prod.splits bool.splits)
  with Cons.IH Cons.prems(2) have "look g' = look g1 ++ map_of cs" by simp
  moreover have "look g1 = (look g)(n \<mapsto> v)"
    using assms(1) g1(1) unfolding engine_laws_def by blast
  moreover have "map_of cs n = None" using Cons.prems(2) c by (simp add: map_of_eq_None_iff)
  ultimately show ?case using c by (auto simp: fun_eq_iff map_add_def split: option.split)
qed

lemma reg_all_fails:
  assumes "reg_all G m cs g = (False, g')"
  shows "\<exists>cs1 n v cs2 g1. cs = cs1 @ (n, v) # cs2 \<and> reg_all G m cs1 g = (True, g1)
     \<and> en_register_constant G g1 n v m = (False, g')"
  using assms
proof (induction cs arbitrary: g)
  case Nil
  then show ?case by simp
next
  case (Cons c cs)
  obtain n v where c: "c = (n, v)" by (cases c)
  obtain ok g1 where g1: "en_register_constant G g n v m = (ok, g1)" by fastforce
  show ?case
  proof (cases ok)
    case False
    with Cons.prems c g1 have "c # cs = [] @ (n, v) # cs" "reg_all G m [] g = (True, g)"
      "en_register_constant G g n v m = (False, g')" by auto
    then show ?thesis by blast
  next
    case True
    with Cons.prems c g1 Cons.IH [of g1] obtain cs1 n' v' cs2 g2 where
      "cs = cs1 @ (n', v') # cs2" "reg_all G m cs1 g1 = (True, g2)"
      "en_register_constant G g2 n' v' m = (False, g')" by auto
    moreover from this c g1 True have "reg_all G m (c # cs1) g = (True, g2)" by simp
    ultimately show ?thesis by (metis append_Cons)
  qed
qed

text \<open>
  C29. Startup registers the whole constant surface or reports failure. When it
  returns 0 it has bound every constant of the table to its value and nothing else;
  otherwise it returns -1, the engine refused one constant of the table, and exactly
  the constants before that one are bound.
\<close>

theorem startup_constants:
  assumes "engine_laws G look" and "register_constants G ty m g = (rc, g')"
  shows "if rc = 0 then look g' = look g ++ map_of module_constants
     else rc = -1 \<and> (\<exists>cs1 n v cs2 g1. module_constants = cs1 @ (n, v) # cs2
       \<and> look g1 = look g ++ map_of cs1 \<and> en_register_constant G g1 n v m = (False, g'))"
proof -
  let ?g = "en_register_ini G g ini_entries m"
  have ini: "look ?g = look g" using assms(1) by (simp add: engine_laws_def)
  obtain ok g2 where reg: "reg_all G m module_constants ?g = (ok, g2)" by fastforce
  with assms(2) have rc: "rc = (if ok then 0 else -1)" "g2 = g'" by (auto simp: register_constants_def)
  show ?thesis
  proof (cases ok)
    case True
    with reg rc ini reg_all_ok [OF assms(1) _ distinct_constants] show ?thesis by auto
  next
    case False
    with reg rc reg_all_fails [of G m module_constants ?g g'] obtain cs1 n v cs2 g1 where split:
      "module_constants = cs1 @ (n, v) # cs2" "reg_all G m cs1 ?g = (True, g1)"
      "en_register_constant G g1 n v m = (False, g')" by auto
    moreover have "distinct (map fst cs1)"
      using distinct_constants unfolding split(1) by simp
    with reg_all_ok [OF assms(1) split(2)] ini have "look g1 = look g ++ map_of cs1" by simp
    ultimately show ?thesis using rc False by auto
  qed
qed

definition map_engine :: "(string \<Rightarrow> const_val option) engine" where
  "map_engine = \<lparr>en_register_ini = (\<lambda>g es n. g), en_register_constant = (\<lambda>g n v m.
     if g n = None then (True, g(n \<mapsto> v)) else (False, g))\<rparr>"

lemma engine_laws_map: "engine_laws map_engine (\<lambda>g. g)"
  by (auto simp: engine_laws_def map_engine_def)

theorem startup_constants_witness:
  "\<exists>g'. register_constants map_engine 1 0 Map.empty = (0, g') \<and> g' (grpc_name ''OP_RECV_MESSAGE'') = Some (C_Long 5)"
proof -
  obtain rc g' where run: "register_constants map_engine 1 0 Map.empty = (rc, g')" by fastforce
  have "fst (register_constants map_engine 1 0 Map.empty) = 0" by code_simp
  with run have "rc = 0" by simp
  with startup_constants [OF engine_laws_map run] have "g' = map_of module_constants" by simp
  moreover have "map_of module_constants (grpc_name ''OP_RECV_MESSAGE'') = Some (C_Long 5)" by code_simp
  ultimately show ?thesis using run \<open>rc = 0\<close> by simp
qed

section \<open>What the first request strips\<close>

definition ascii_lower :: "string \<Rightarrow> string" where
  "ascii_lower = map (\<lambda>c. if 65 \<le> (of_char c :: nat) \<and> (of_char c :: nat) \<le> 90
     then char_of (of_char c + 32 :: nat) else c)"

fun compat_methods :: "php_class \<Rightarrow> string list" where
  "compat_methods GrpcChannel = CHANNEL_METHODS"
| "compat_methods GrpcCall = CALL_METHODS"
| "compat_methods GrpcChannelCredentials = CHANNEL_CREDENTIALS_METHODS"
| "compat_methods GrpcCallCredentials = CALL_CREDENTIALS_METHODS"
| "compat_methods GrpcTimeval = TIMEVAL_METHODS"

lemma compat_methods_declared:
  "set (compat_methods c) = ascii_lower ` (set (php_methods c) - {''toAbsoluteUsec''})"
  by (cases c; simp; code_simp)

lemma registered_class: "Module_class c \<in> set get_module"
  by (cases c) (simp_all add: get_module_def)

definition named :: "'ce class_table \<Rightarrow> nat \<Rightarrow> string \<Rightarrow> string list \<Rightarrow> bool" where
  "named K p class_name methods \<longleftrightarrow>
     (\<exists>ce m. ct_find K class_name = Some ce \<and> m \<in> set methods \<and> ct_method K ce m = Some p)"

lemma strip_fold:
  "fold (strip_method_return_type K ce) methods flags p =
     (if \<exists>m\<in>set methods. ct_method K ce m = Some p
      then flags p AND NOT (ct_has_return_type K) else flags p)"
proof (induction methods arbitrary: flags)
  case Nil
  show ?case by simp
next
  case (Cons m methods)
  have "strip_method_return_type K ce m flags p =
      (if ct_method K ce m = Some p then flags p AND NOT (ct_has_return_type K) else flags p)"
    by (simp add: strip_method_return_type_def split: option.split)
  with Cons.IH show ?case by simp
qed

lemma strip_class:
  "strip_class_methods K class_name methods flags p =
     (if named K p class_name methods then flags p AND NOT (ct_has_return_type K) else flags p)"
  by (cases "ct_find K class_name") (auto simp: strip_class_methods_def named_def strip_fold)

lemma ex_php_class:
  "(\<exists>c. P c) \<longleftrightarrow> P GrpcChannel \<or> P GrpcCall \<or> P GrpcTimeval \<or> P GrpcChannelCredentials \<or> P GrpcCallCredentials"
  by (metis php_class.exhaust)

lemma strip_first:
  assumes "\<not> cs_init s"
  shows "cs_fn_flags (snd (strip_return_types K ty m s)) p =
     (if \<exists>c. named K p (php_class_name c) (compat_methods c)
      then cs_fn_flags s p AND NOT (ct_has_return_type K) else cs_fn_flags s p)"
  using assms by (simp add: ex_php_class strip_return_types_def strip_class)

lemma strip_again: "cs_init s \<Longrightarrow> snd (strip_return_types K ty m s) = s"
  by (simp add: strip_return_types_def)

lemma strip_inits: "cs_init (snd (strip_return_types K ty m s))"
  by (simp add: strip_return_types_def)

lemma strip_requests:
  "((\<lambda>s. snd (strip_return_types K ty m s)) ^^ Suc n) s = snd (strip_return_types K ty m s)"
  by (induction n) (simp_all add: strip_again strip_inits)

text \<open>
  What the engine's tables hold once the module is registered: each class under its
  PHP name, and in its function table each declared method under the lowercased name.
\<close>

definition module_registered :: "'ce class_table \<Rightarrow> (php_class \<Rightarrow> string \<Rightarrow> nat) \<Rightarrow> bool" where
  "module_registered K ptr \<longleftrightarrow>
     (\<forall>c. Module_class c \<in> set get_module \<longrightarrow>
        (\<exists>ce. ct_find K (php_class_name c) = Some ce
           \<and> (\<forall>m\<in>set (php_methods c). ct_method K ce (ascii_lower m) = Some (ptr c m))))"

text \<open>
  C30. However many requests start, the compatibility pass clears the return-type flag
  of every method the module declares except \<open>Timeval::toAbsoluteUsec\<close>, clears no
  other flag of them, and touches no other function.
\<close>

theorem return_types_stripped:
  assumes "module_registered K ptr" and "\<not> cs_init s"
  shows "cs_fn_flags (((\<lambda>s. snd (strip_return_types K ty m s)) ^^ Suc n) s) p =
     (if \<exists>c meth. Module_class c \<in> set get_module \<and> meth \<in> set (php_methods c)
           \<and> meth \<noteq> ''toAbsoluteUsec'' \<and> p = ptr c meth
      then cs_fn_flags s p AND NOT (ct_has_return_type K) else cs_fn_flags s p)"
proof -
  have "named K p (php_class_name c) (compat_methods c) \<longleftrightarrow>
      (\<exists>meth\<in>set (php_methods c) - {''toAbsoluteUsec''}. p = ptr c meth)" for c
  proof -
    obtain ce where "ct_find K (php_class_name c) = Some ce"
      "\<forall>m\<in>set (php_methods c). ct_method K ce (ascii_lower m) = Some (ptr c m)"
      using assms(1) registered_class [of c] by (auto simp: module_registered_def)
    then show ?thesis by (auto simp: named_def compat_methods_declared)
  qed
  then have "(\<exists>c. named K p (php_class_name c) (compat_methods c)) \<longleftrightarrow>
      (\<exists>c meth. Module_class c \<in> set get_module \<and> meth \<in> set (php_methods c)
         \<and> meth \<noteq> ''toAbsoluteUsec'' \<and> p = ptr c meth)"
    using registered_class by auto
  then show ?thesis unfolding strip_requests strip_first [OF assms(2)] by simp
qed

definition method_number :: "php_class \<Rightarrow> string \<Rightarrow> nat" where
  "method_number c m =
     (case c of GrpcChannel \<Rightarrow> 0 | GrpcCall \<Rightarrow> 100 | GrpcChannelCredentials \<Rightarrow> 200
      | GrpcCallCredentials \<Rightarrow> 300 | GrpcTimeval \<Rightarrow> 400)
     + length (takeWhile (\<lambda>x. x \<noteq> ascii_lower m) (map ascii_lower (php_methods c)))"

definition declared_table :: "php_class class_table" where
  "declared_table = \<lparr>ct_find = (\<lambda>n. find (\<lambda>c. php_class_name c = n)
       [GrpcChannel, GrpcCall, GrpcChannelCredentials, GrpcCallCredentials, GrpcTimeval]),
     ct_method = (\<lambda>c m. if m \<in> set (map ascii_lower (php_methods c))
       then Some (method_number c m) else None),
     ct_has_return_type = 8192\<rparr>"

lemma ascii_lower_idem: "ascii_lower (ascii_lower m) = ascii_lower m"
  by (simp add: ascii_lower_def)

lemma module_registered_declared: "module_registered declared_table method_number"
  unfolding module_registered_def
proof (intro allI impI)
  fix c
  have "ct_find declared_table (php_class_name c) = Some c"
    by (cases c) (simp_all add: declared_table_def grpc_name_def)
  moreover have "ct_method declared_table c (ascii_lower m) = Some (method_number c m)"
    if "m \<in> set (php_methods c)" for m
    using that by (simp add: declared_table_def method_number_def ascii_lower_idem)
  ultimately show "\<exists>ce. ct_find declared_table (php_class_name c) = Some ce
      \<and> (\<forall>m\<in>set (php_methods c). ct_method declared_table ce (ascii_lower m) = Some (method_number c m))"
    by blast
qed

theorem return_types_stripped_witness:
  "cs_fn_flags (((\<lambda>s. snd (strip_return_types declared_table 1 0 s)) ^^ Suc 1)
     \<lparr>cs_init = False, cs_fn_flags = (\<lambda>_. 8193)\<rparr>) (method_number GrpcCall ''cancel'') = 1"
proof -
  let ?s = "\<lparr>cs_init = False, cs_fn_flags = (\<lambda>_. 8193)\<rparr>"
  have "\<not> cs_init ?s" by simp
  note strip = return_types_stripped [OF module_registered_declared this, where n = 1 and ty = 1 and m = 0]
  have "\<exists>c meth. Module_class c \<in> set get_module \<and> meth \<in> set (php_methods c)
      \<and> meth \<noteq> ''toAbsoluteUsec'' \<and> method_number GrpcCall ''cancel'' = method_number c meth"
    by (intro exI [of _ GrpcCall] exI [of _ "''cancel''"]) (simp add: registered_class call_php_methods_def)
  moreover have "8193 AND NOT (ct_has_return_type declared_table) = 1" by (simp add: declared_table_def)
  ultimately show ?thesis unfolding strip by simp
qed

end
