(* ===== verification/Spec2Isabelle.thy ===== *)
theory Spec2Isabelle
  imports Call_Lifecycle Stream_Spec Codec Module_Init Timeval
begin

text \<open>
  Verification of grpc-php-rs (sources under \<open>src/src\<close>), a PHP extension in Rust that
  replaces the C extension ext-grpc: PHP code makes channels and calls, and hands each
  call arrays of operations ("batches"); the extension runs them on tonic and tokio.

  \<^bold>\<open>The parts and how they interact.\<close> A \<open>Grpc\Channel\<close> (\<open>channel.rs\<close>) resolves its
  arguments and credentials (\<open>credentials.rs\<close>) to a transport, shared through a
  per-thread registry. A \<open>Grpc\Call\<close> (\<open>call.rs\<close>) made on a channel parses a batch, sends
  its message and metadata, and returns headers, messages and a status: a unary call
  blocks on the runtime (\<open>runtime.rs\<close>), a streaming call spawns a task that talks to the
  PHP side over tokio channels. Both write the connectivity state that channels report.
  Deadlines are \<open>Grpc\Timeval\<close> objects (\<open>timeval.rs\<close>), message bytes pass through
  \<open>codec.rs\<close>, failures become PHP exceptions (\<open>error.rs\<close>), and \<open>lib.rs\<close> with \<open>compat.rs\<close>
  start the module.

  \<^bold>\<open>Theories.\<close>
  \<^item> Prelude: fallible and state-passing code (\<open>bind_res\<close>, \<open>bind_st\<close>), saturating 64-bit
    arithmetic on \<^typ>\<open>i64\<close>, \<open>f64 as i64\<close>, clock readings, and the locales for
    write-once cells, ordered multimaps, and machines with an invariant or an order.
  \<^item> Rust\_Text: decimal printing and parsing of \<open>i64\<close>, UTF-8 validation and lossy
    conversion, string joining. Php\_Values: values, arrays and objects, with the engine's
    accessors as the record \<^typ>\<open>'z php\<close>.
  \<^item> Errors, Runtime, Timeval, Codec, Credentials: one per source file, a definition per
    function, in the order of the file.
  \<^item> Metadata, Deadline: the free functions of \<open>call.rs\<close>.
  \<^item> Stream\_Driver: the tasks spawned by \<open>start_server_stream\<close> and \<open>start_bidi_stream\<close>,
    as functions from what the network does (connection, answer, a list of events) to the
    list of sends they perform. Stream\_Reader: \<open>ActiveStream\<close> and \<open>build_stream_result\<close>.
    Stream\_Spec: the abstract stream that the reader refines.
  \<^item> Store: the cells that objects share (registry, handles with their connectivity state,
    closed flags, plugin cells, default roots, id counter, runtimes), each an address in
    \<^typ>\<open>'z store\<close>. Channel: \<open>channel.rs\<close> over that store. Connectivity: channel operations,
    call outcomes and probes as the step relation \<open>chan_step\<close>.
  \<^item> Call: \<open>GrpcCall\<close> and all of \<open>startBatch\<close>; \<open>dispatch_batch\<close> is split into its three
    cases. Call\_Frames: what each part leaves alone. Call\_Results: what batches return.
    Call\_Lifecycle: the operations on one call, among others, as the step relation
    \<open>call_step\<close>.
  \<^item> Module\_Init: constants, ini entries, module description and the stripping of return
    types. This theory: properties of channels and calls together.

  \<^bold>\<open>What is shown.\<close> Streams: the driver tasks follow the stream protocol, and the reader
  refines an abstract stream for every sequence of receive batches. Calls: a unary batch
  sends exactly its request and returns exactly the answer; splitting it in two gives the
  same result; a status is delivered at most once under every interleaving; a finished,
  cancelled or closed call rejects every batch; an expired call sends nothing. Channels:
  transports are shared exactly by equal keys, connectivity states stay legal with one
  probe per connecting transport, nothing is undone later, watching returns, TLS is used
  exactly when asked for. Data: metadata, status, codec and time values behave as stated
  on every branch, bounds and saturation included. Eight theorems state behaviour that
  departs from the comments or from the behaviour that the repository's parity tests
  record for ext-grpc: lost request metadata, streams that throw when expired, a channel
  marked READY by a connection timeout, a connection failure reported as UNKNOWN, single-
  valued request metadata, composites that run one plugin, colliding persistence keys,
  and the infinite past as no deadline.

  \<^bold>\<open>Code outside the repository\<close> is an argument of the definitions that use it, and what
  the proofs need of it is a named hypothesis with a concrete instance: the PHP engine
  (\<open>php\<close>, \<open>engine_writes\<close>; \<open>plain_php\<close>), tonic's metadata maps (\<open>md_api\<close>, \<open>md_laws\<close>;
  \<open>list_md\<close>), tokio's channels (\<open>tokio\<close>, locale \<open>stream_channel\<close>; \<open>delivery_tokio\<close>), tonic's
  client, the resolver and the clock readings of a call (\<open>net\<close>; \<open>echo_net\<close>), tonic's endpoint
  and TLS checks and PHP's object extraction (\<open>chan_env\<close>; \<open>plain_env\<close>), buffers
  (\<open>buffer_laws\<close>), the constant and class tables (\<open>engine_laws\<close>, \<open>module_registered\<close>). Endpoint and
  TLS builders are the lists of the calls made on them.

  \<^bold>\<open>Bounds.\<close> No fuel is used: all loops are structural or over the list of events, except
  the drain loop of \<open>build_stream_result\<close> and the loop of \<open>watchConnectivityState\<close>, which
  are partial functions with \<open>None\<close> for not returning; that they return is proved (the
  drain by the number of undelivered messages, the watch by the time each sleep passes).

  \<^bold>\<open>Not modelled\<close>, because the code is not in the repository or has no result to state:
  the wire protocol, TLS and connection handling inside tonic; tokio's scheduling, beyond
  the order in which a task's sends are received (backpressure of the bounded channel
  shows only as events that have not happened yet); memory ordering of the atomics, which
  one PHP thread reads and writes; reference counts and dropping; the text of messages
  that libraries format. The ini entries are registered but never read by the code. The
  programs under \<open>src/tests\<close> are not part of the extension.
\<close>

section \<open>Channels and the calls made on them\<close>

text \<open>
  C7. Closing a channel object ends the calls made on that object and no others,
  also when another object shares its transport. In any reachable world, after
  \<open>close\<close> on object \<open>j\<close>, a call made on object \<open>i\<close> refuses every batch that asks for
  anything if \<open>i\<close> is \<open>j\<close>; otherwise the guards of \<open>startBatch\<close> let its batches through
  and object \<open>i\<close> makes the same calls as before.
\<close>

theorem close_is_local:
  assumes "start_world w0" and "chan_step\<^sup>*\<^sup>* w0 w"
    and "i < length (w_channels w)" and "j < length (w_channels w)"
    and "construct_call Z r (w_channels w ! i) method deadline host (w_store w) = Inr c"
    and "close_channel (w_channels w ! j) (w_store w) = (ch', h')"
    and "parse_ops Z ops = Inr b" and "op_set b \<noteq> {}"
  shows "if i = j then \<exists>e. start_batch Z M T N ops c h' = Some (Inl e, c, h')
     else \<not> rejects c h' b \<and> construct_call Z r (w_channels w ! i) method deadline host h' = Inr c"
proof -
  have objs: "objects_ok (w_store w) (w_channels w)"
    using conn.reachable_inv [OF assms(1,2)] by (simp add: world_ok_def)
  have h': "h' = (w_store w)\<lparr>st_flag := (st_flag (w_store w))(ch_closed_flag (w_channels w ! j) := True)\<rparr>"
    using assms(6) by (simp add: close_channel_def)
  note c = construct_call_fields [OF assms(5)]
  show ?thesis
  proof (cases "i = j")
    case True
    with h' c(1) have "rejects c h' b" by (simp add: rejects_def)
    with True start_batch_rejected [OF assms(7) _ assms(8)] show ?thesis by simp
  next
    case False
    with objs assms(3,4) have flags: "ch_closed_flag (w_channels w ! i) \<noteq> ch_closed_flag (w_channels w ! j)"
      by (auto simp: objects_ok_def distinct_conv_nth)
    have "ch_inner (w_channels w ! i) \<noteq> None"
      using assms(5) by (cases "ch_inner (w_channels w ! i)") (simp_all add: construct_call_def get_tonic_channel_def)
    with objs assms(3) have "\<not> st_flag (w_store w) (ch_closed_flag (w_channels w ! i))"
      by (auto simp: objects_ok_def)
    with h' flags c have "\<not> rejects c h' b" by (simp add: rejects_def)
    moreover have "get_tonic_channel h' ch = get_tonic_channel (w_store w) ch" for ch
      by (cases "ch_inner ch") (simp_all add: h' get_tonic_channel_def)
    with assms(5) have "construct_call Z r (w_channels w ! i) method deadline host h' = Inr c"
      by (simp add: construct_call_def)
    ultimately show ?thesis using False by simp
  qed
qed

lemma open_object_calls:
  assumes "objects_ok h chs" and "ch \<in> set chs" and "ch_inner ch \<noteq> None"
  shows "\<exists>c. construct_call Z r ch method deadline host h = Inr c"
proof -
  obtain inner where "ch_inner ch = Some inner" using assms(3) by blast
  moreover from this assms(1,2) obtain sc where "st_shared h (ci_shared inner) = Some sc"
    by (auto simp: objects_ok_def get_shared_def)
  ultimately show ?thesis by (simp add: construct_call_def get_tonic_channel_def)
qed

lemma two_objects:
  "\<exists>w0 w :: zval world. start_world w0 \<and> chan_step\<^sup>*\<^sup>* w0 w \<and> length (w_channels w) = 2
     \<and> (\<forall>ch\<in>set (w_channels w). ch_inner ch \<noteq> None)"
proof -
  let ?w0 = "\<lparr>w_store = empty_store, w_channels = [], w_probes = {#}\<rparr> :: zval world"
  obtain ch1 h1 where one: "construct_channel plain_php plain_env ''h:1'' [] empty_store = (Inr ch1, h1)"
    using plain_construct by blast
  obtain ch2 h2 where two: "construct_channel plain_php plain_env ''h:1'' [] h1 = (Inr ch2, h2)"
    using plain_construct by blast
  let ?w1 = "?w0\<lparr>w_store := h1, w_channels := w_channels ?w0 @ [ch1]\<rparr>"
  let ?w2 = "?w1\<lparr>w_store := h2, w_channels := w_channels ?w1 @ [ch2]\<rparr>"
  have "chan_step ?w0 ?w1" by (rule chan_step.construct_ok [of plain_php plain_env "''h:1''" "[]"]) (simp add: one)
  moreover have "chan_step ?w1 ?w2" by (rule chan_step.construct_ok [of plain_php plain_env "''h:1''" "[]"]) (simp add: two)
  ultimately have "chan_step\<^sup>*\<^sup>* ?w0 ?w2" by simp
  moreover have "ch_inner ch1 \<noteq> None" using one by (cases rule: construct_channel_cases) auto
  moreover have "ch_inner ch2 \<noteq> None" using two by (cases rule: construct_channel_cases) auto
  ultimately show ?thesis
    by (intro exI [of _ ?w0] exI [of _ ?w2]) (simp add: start_world_def)
qed

theorem close_is_local_witness:
  "\<exists>(w :: zval world) (c :: (bytes kv_ref list deliveries, bytes kv_ref list) grpc_call) ch' h'.
     construct_call plain_php (SinceEpoch 5) (w_channels w ! 0) ''/s/m'' \<lparr>usec = i64_max, is_span = False\<rparr> None (w_store w) = Inr c
     \<and> close_channel (w_channels w ! 1) (w_store w) = (ch', h') \<and> \<not> rejects c h' recv_ops_batch"
proof -
  obtain w0 w :: "zval world" where w: "start_world w0" "chan_step\<^sup>*\<^sup>* w0 w" "length (w_channels w) = 2"
    "\<forall>ch\<in>set (w_channels w). ch_inner ch \<noteq> None"
    using two_objects by blast
  then have len: "0 < length (w_channels w)" "1 < length (w_channels w)" by simp_all
  have objs: "objects_ok (w_store w) (w_channels w)"
    using conn.reachable_inv [OF w(1,2)] by (simp add: world_ok_def)
  have first: "w_channels w ! 0 \<in> set (w_channels w)" by (rule nth_mem [OF len(1)])
  obtain c :: "(bytes kv_ref list deliveries, bytes kv_ref list) grpc_call" where c:
    "construct_call plain_php (SinceEpoch 5) (w_channels w ! 0) ''/s/m'' \<lparr>usec = i64_max, is_span = False\<rparr> None (w_store w) = Inr c"
    using open_object_calls [OF objs first] w(4) first by blast
  obtain ch' h' where close: "close_channel (w_channels w ! 1) (w_store w) = (ch', h')" by fastforce
  have some: "op_set recv_ops_batch \<noteq> {}" by (simp add: parse_split_ops(4))
  have "\<not> rejects c h' recv_ops_batch"
    using close_is_local [OF w(1,2) len c close parse_split_ops(3) some] by simp
  with c close show ?thesis by blast
qed

end
